(* ===== verification/Prelude.thy ===== *)
theory Prelude
  imports Main "HOL-Library.Word"
begin

text \<open>
  Shared vocabulary of the development: bytes, addresses and the flat byte memory
  that \<open>PTR_AT\<close> and \<open>memcpy\<close> act on in \<^verbatim>\<open>src/upb/reflection.c\<close>, the
  little-endian reading and writing of fixed-width integers (the target is a
  little-endian LP64 machine), and the lemmas on memory reads after writes that every
  component proof uses.  The facts that component proofs rewrite with are collected in
  the named collection \<open>mem_simps\<close>.
\<close>

unbundle bit_operations_syntax

named_theorems mem_simps "reads of the flat memory after writes"

type_synonym byte = "8 word"
type_synonym addr = nat
type_synonym memory = "addr \<Rightarrow> byte"

section \<open>Little-endian encoding of words\<close>

text \<open>
  \<open>le_bytes n w\<close> is the sequence of the \<open>n\<close> low bytes of \<open>w\<close>, lowest first: the
  bytes \<open>memcpy\<close> copies out of an integer object on a little-endian machine.
  \<open>le_word bs\<close> reads a word back from such a sequence (missing high bytes are zero,
  extra bytes beyond the word's width are cut off).
\<close>

definition le_bytes :: "nat \<Rightarrow> 'a::len word \<Rightarrow> byte list" where
  "le_bytes n w = map (\<lambda>i. ucast (drop_bit (8 * i) w)) [0..<n]"

fun le_word :: "byte list \<Rightarrow> 'a::len word" where
  "le_word [] = 0"
| "le_word (b # bs) = ucast b OR push_bit 8 (le_word bs)"

section \<open>The flat memory\<close>

text \<open>
  \<open>mem_read m a n\<close> is \<open>memcpy(dst, a, n)\<close> seen from the source side;
  \<open>mem_write m a bs\<close> stores \<open>bs\<close> at \<open>a\<close>, byte by byte.
\<close>

definition mem_read :: "memory \<Rightarrow> addr \<Rightarrow> nat \<Rightarrow> byte list" where
  "mem_read m a n = map m [a..<a + n]"

fun mem_write :: "memory \<Rightarrow> addr \<Rightarrow> byte list \<Rightarrow> memory" where
  "mem_write m a [] = m"
| "mem_write m a (b # bs) = mem_write (m(a := b)) (Suc a) bs"

text \<open>Two address ranges \<open>[a, a + n)\<close> and \<open>[b, b + k)\<close> that do not overlap.\<close>

definition disjoint_range :: "addr \<Rightarrow> nat \<Rightarrow> addr \<Rightarrow> nat \<Rightarrow> bool" where
  "disjoint_range a n b k \<longleftrightarrow> a + n \<le> b \<or> b + k \<le> a"

section \<open>Lemmas on the encoding\<close>

lemma length_le_bytes [simp]: "length (le_bytes n w) = n"
  by (simp add: le_bytes_def)

lemma bit_le_word:
  "bit (le_word bs :: 'a::len word) k \<longleftrightarrow>
     k < LENGTH('a) \<and> k div 8 < length bs \<and> bit (bs ! (k div 8)) (k mod 8)"
proof (induction bs arbitrary: k)
  case Nil
  then show ?case by simp
next
  case (Cons b bs)
  show ?case
  proof (cases "k < 8")
    case True
    then show ?thesis by (auto simp: bit_simps)
  next
    case False
    then have "k div 8 = Suc ((k - 8) div 8)" "k mod 8 = (k - 8) mod 8"
      by (simp_all add: div_if mod_if)
    with False Cons.IH[of "k - 8"] show ?thesis
      by (auto simp: bit_simps dest: bit_imp_le_length)
  qed
qed

lemma bit_le_bytes_nth:
  "i < n \<Longrightarrow> bit (le_bytes n w ! i) j \<longleftrightarrow> j < 8 \<and> bit w (8 * i + j)"
  by (auto simp: le_bytes_def bit_simps)

lemma le_word_le_bytes:
  assumes "LENGTH('a) \<le> 8 * n"
  shows "le_word (le_bytes n (w :: 'a::len word)) = w"
proof (rule bit_eqI)
  fix k
  assume "possible_bit TYPE('a word) k"
  then have k: "k < LENGTH('a)" by simp
  with assms have "k div 8 < n" by linarith
  moreover have "8 * (k div 8) + k mod 8 = k" by simp
  ultimately show "bit (le_word (le_bytes n w) :: 'a word) k = bit w k"
    using k by (simp add: bit_le_word bit_le_bytes_nth)
qed

lemma le_bytes_le_word:
  assumes "length bs = n" "8 * n \<le> LENGTH('a)"
  shows "le_bytes n (le_word bs :: 'a::len word) = bs"
proof (rule nth_equalityI)
  show "length (le_bytes n (le_word bs :: 'a word)) = length bs"
    using assms by simp
next
  fix i assume i: "i < length (le_bytes n (le_word bs :: 'a word))"
  show "le_bytes n (le_word bs :: 'a word) ! i = bs ! i"
  proof (rule bit_eqI)
    fix j assume "possible_bit TYPE(8 word) j"
    then have j: "j < 8" by simp
    have "(8 * i + j) div 8 = i" "(8 * i + j) mod 8 = j"
      using j by simp_all
    moreover have "8 * i + j < LENGTH('a)"
      using i j assms by simp
    ultimately show "bit (le_bytes n (le_word bs :: 'a word) ! i) j = bit (bs ! i) j"
      using i j assms by (simp add: bit_le_bytes_nth bit_le_word)
  qed
qed

lemma le_word_take_le_bytes:
  assumes "LENGTH('a) \<le> 8 * k" "k \<le> n"
  shows "le_word (take k (le_bytes n (w :: 'a::len word))) = w"
proof -
  have "take k (le_bytes n w) = le_bytes k w"
    using assms(2) by (simp add: le_bytes_def take_map)
  then show ?thesis using assms(1) by (simp add: le_word_le_bytes)
qed

section \<open>Lemmas on the memory\<close>

lemma length_mem_read [simp]: "length (mem_read m a n) = n"
  by (simp add: mem_read_def)

lemma nth_mem_read [simp]: "i < n \<Longrightarrow> mem_read m a n ! i = m (a + i)"
  by (simp add: mem_read_def)

lemma mem_write_apply:
  "mem_write m a bs x = (if a \<le> x \<and> x < a + length bs then bs ! (x - a) else m x)"
proof (induction bs arbitrary: m a)
  case Nil
  then show ?case by auto
next
  case (Cons b bs)
  then show ?case by (auto simp: nth_Cons')
qed

lemma mem_read_cong:
  "(\<And>x. a \<le> x \<Longrightarrow> x < a + n \<Longrightarrow> m x = m' x) \<Longrightarrow> mem_read m a n = mem_read m' a n"
  by (simp add: mem_read_def)

lemma mem_read_write_same [mem_simps]:
  "n = length bs \<Longrightarrow> mem_read (mem_write m a bs) a n = bs"
  by (rule nth_equalityI) (simp_all add: mem_write_apply)

lemma mem_read_write_prefix:
  "n \<le> length bs \<Longrightarrow> mem_read (mem_write m a bs) a n = take n bs"
  by (rule nth_equalityI) (simp_all add: mem_write_apply)

lemma mem_read_write_disjoint [mem_simps]:
  "disjoint_range a' n a (length bs) \<Longrightarrow>
     mem_read (mem_write m a bs) a' n = mem_read m a' n"
  by (rule mem_read_cong) (auto simp: mem_write_apply disjoint_range_def)

lemma mem_write_outside [mem_simps]:
  "x < a \<or> a + length bs \<le> x \<Longrightarrow> mem_write m a bs x = m x"
  by (auto simp: mem_write_apply)

lemma mem_read_append:
  "mem_read m a (n + k) = mem_read m a n @ mem_read m (a + n) k"
  using upt_add_eq_append[of a "a + n" k] by (simp add: mem_read_def add.assoc)

lemma mem_read_write_inside [mem_simps]:
  "k + n \<le> length bs \<Longrightarrow> mem_read (mem_write m a bs) (a + k) n = take n (drop k bs)"
  by (rule nth_equalityI) (simp_all add: mem_write_apply)

lemma mem_read_upd_outside [mem_simps]:
  "x < a \<or> a + n \<le> x \<Longrightarrow> mem_read (m(x := b)) a n = mem_read m a n"
  by (rule mem_read_cong) auto

lemma take_drop_mem_read:
  "k + n \<le> N \<Longrightarrow> take n (drop k (mem_read m a N)) = mem_read m (a + k) n"
  by (rule nth_equalityI) (simp_all add: add.assoc)

lemma disjoint_range_sym: "disjoint_range a n b k \<longleftrightarrow> disjoint_range b k a n"
  by (auto simp: disjoint_range_def)

end
