(* ===== verification/Layout.thy ===== *)
theory Layout
  imports Prelude
begin

text \<open>
  The static data that \<^verbatim>\<open>src/upb/reflection.c\<close> consults: the descriptor and field
  type enumerations, the two width tables of the file (\<open>field_size\<close>, lines 10--30,
  and \<open>_upb_fieldtype_to_mapsize\<close>, lines 33--46), the layout entry of a field
  (\<open>upb_msglayout_field\<close>), the projections of \<open>upb_fielddef\<close> and \<open>upb_msgdef\<close>
  that the file calls, and the byte representation of the value union \<open>upb_msgval\<close>.
  The layout entry follows spec section 6 (offset unsigned 32-bit, presence signed
  32-bit); the \<open>upb_fielddef_*\<close> projections are modelled from the spec, since
  \<^verbatim>\<open>def.c\<close> is not part of the sources.  The machine is LP64: pointers are 8 bytes and
  \<open>upb_strview\<close> (pointer and length) is 16.
\<close>

section \<open>Enumerations\<close>

text \<open>\<open>UPB_DESCRIPTOR_TYPE_*\<close>, numbered 1 to 18 in this order.\<close>

datatype upb_descriptortype =
    UPB_DESCRIPTOR_TYPE_DOUBLE
  | UPB_DESCRIPTOR_TYPE_FLOAT
  | UPB_DESCRIPTOR_TYPE_INT64
  | UPB_DESCRIPTOR_TYPE_UINT64
  | UPB_DESCRIPTOR_TYPE_INT32
  | UPB_DESCRIPTOR_TYPE_FIXED64
  | UPB_DESCRIPTOR_TYPE_FIXED32
  | UPB_DESCRIPTOR_TYPE_BOOL
  | UPB_DESCRIPTOR_TYPE_STRING
  | UPB_DESCRIPTOR_TYPE_GROUP
  | UPB_DESCRIPTOR_TYPE_MESSAGE
  | UPB_DESCRIPTOR_TYPE_BYTES
  | UPB_DESCRIPTOR_TYPE_UINT32
  | UPB_DESCRIPTOR_TYPE_ENUM
  | UPB_DESCRIPTOR_TYPE_SFIXED32
  | UPB_DESCRIPTOR_TYPE_SFIXED64
  | UPB_DESCRIPTOR_TYPE_SINT32
  | UPB_DESCRIPTOR_TYPE_SINT64

text \<open>\<open>upb_fieldtype_t\<close>, numbered 1 to 11 in this order.\<close>

datatype upb_fieldtype =
    UPB_TYPE_BOOL
  | UPB_TYPE_FLOAT
  | UPB_TYPE_INT32
  | UPB_TYPE_UINT32
  | UPB_TYPE_ENUM
  | UPB_TYPE_MESSAGE
  | UPB_TYPE_DOUBLE
  | UPB_TYPE_INT64
  | UPB_TYPE_UINT64
  | UPB_TYPE_STRING
  | UPB_TYPE_BYTES

datatype upb_label = UPB_LABEL_OPTIONAL | UPB_LABEL_REQUIRED | UPB_LABEL_REPEATED

section \<open>Width tables\<close>

definition sizeof_ptr :: nat where
  "sizeof_ptr = 8"

definition sizeof_strview :: nat where
  "sizeof_strview = 16"

text \<open>
  \<open>field_size[]\<close> (lines 10--30), indexed by descriptor type.  Entry 0 of the C
  array belongs to no descriptor type and is not reachable here.
\<close>

primrec field_size :: "upb_descriptortype \<Rightarrow> nat" where
  "field_size UPB_DESCRIPTOR_TYPE_DOUBLE = 8"
| "field_size UPB_DESCRIPTOR_TYPE_FLOAT = 4"
| "field_size UPB_DESCRIPTOR_TYPE_INT64 = 8"
| "field_size UPB_DESCRIPTOR_TYPE_UINT64 = 8"
| "field_size UPB_DESCRIPTOR_TYPE_INT32 = 4"
| "field_size UPB_DESCRIPTOR_TYPE_FIXED64 = 8"
| "field_size UPB_DESCRIPTOR_TYPE_FIXED32 = 4"
| "field_size UPB_DESCRIPTOR_TYPE_BOOL = 1"
| "field_size UPB_DESCRIPTOR_TYPE_STRING = sizeof_strview"
| "field_size UPB_DESCRIPTOR_TYPE_GROUP = sizeof_ptr"
| "field_size UPB_DESCRIPTOR_TYPE_MESSAGE = sizeof_ptr"
| "field_size UPB_DESCRIPTOR_TYPE_BYTES = sizeof_strview"
| "field_size UPB_DESCRIPTOR_TYPE_UINT32 = 4"
| "field_size UPB_DESCRIPTOR_TYPE_ENUM = 4"
| "field_size UPB_DESCRIPTOR_TYPE_SFIXED32 = 4"
| "field_size UPB_DESCRIPTOR_TYPE_SFIXED64 = 8"
| "field_size UPB_DESCRIPTOR_TYPE_SINT32 = 4"
| "field_size UPB_DESCRIPTOR_TYPE_SINT64 = 8"

text \<open>
  \<open>_upb_fieldtype_to_mapsize[]\<close> (lines 33--46): the width of a map key or value;
  0 (\<open>UPB_MAPTYPE_STRING\<close>) marks the string kinds, stored by indirection.
\<close>

primrec upb_fieldtype_to_mapsize :: "upb_fieldtype \<Rightarrow> nat" where
  "upb_fieldtype_to_mapsize UPB_TYPE_BOOL = 1"
| "upb_fieldtype_to_mapsize UPB_TYPE_FLOAT = 4"
| "upb_fieldtype_to_mapsize UPB_TYPE_INT32 = 4"
| "upb_fieldtype_to_mapsize UPB_TYPE_UINT32 = 4"
| "upb_fieldtype_to_mapsize UPB_TYPE_ENUM = 4"
| "upb_fieldtype_to_mapsize UPB_TYPE_MESSAGE = sizeof_ptr"
| "upb_fieldtype_to_mapsize UPB_TYPE_DOUBLE = 8"
| "upb_fieldtype_to_mapsize UPB_TYPE_INT64 = 8"
| "upb_fieldtype_to_mapsize UPB_TYPE_UINT64 = 8"
| "upb_fieldtype_to_mapsize UPB_TYPE_STRING = 0"
| "upb_fieldtype_to_mapsize UPB_TYPE_BYTES = 0"

text \<open>
  \<open>_upb_fieldtype_to_sizelg2[]\<close> of \<^verbatim>\<open>msg.h\<close> (not under \<^verbatim>\<open>src/\<close>; modelled from spec
  section 3): the exponent of an array element's width, chosen when
  \<open>upb_array_new\<close> creates the array.  Strings and bytes are stored as 16-byte views.
\<close>

primrec upb_fieldtype_to_sizelg2 :: "upb_fieldtype \<Rightarrow> nat" where
  "upb_fieldtype_to_sizelg2 UPB_TYPE_BOOL = 0"
| "upb_fieldtype_to_sizelg2 UPB_TYPE_FLOAT = 2"
| "upb_fieldtype_to_sizelg2 UPB_TYPE_INT32 = 2"
| "upb_fieldtype_to_sizelg2 UPB_TYPE_UINT32 = 2"
| "upb_fieldtype_to_sizelg2 UPB_TYPE_ENUM = 2"
| "upb_fieldtype_to_sizelg2 UPB_TYPE_MESSAGE = 3"
| "upb_fieldtype_to_sizelg2 UPB_TYPE_DOUBLE = 3"
| "upb_fieldtype_to_sizelg2 UPB_TYPE_INT64 = 3"
| "upb_fieldtype_to_sizelg2 UPB_TYPE_UINT64 = 3"
| "upb_fieldtype_to_sizelg2 UPB_TYPE_STRING = 4"
| "upb_fieldtype_to_sizelg2 UPB_TYPE_BYTES = 4"

section \<open>Layout entries and definitions\<close>

text \<open>\<open>upb_msglayout_field\<close>: one entry of the layout table (spec section 6).\<close>

record upb_msglayout_field =
  number :: "32 word"
  offset :: "32 word"
  presence :: "32 word"
  descriptortype :: upb_descriptortype
  label :: upb_label

text \<open>
  The projections of \<open>upb_msgdef\<close> that reflection uses: the size of an instance
  (\<open>upb_msglayout.size\<close>), whether it is a map entry, and the types of the entry's key
  (field 1) and value (field 2) fields, \<open>upb_fielddef_type (upb_msgdef_itof (entry, i))\<close>.
\<close>

record upb_msgdef =
  md_size :: nat
  md_mapentry :: bool
  md_key_type :: upb_fieldtype
  md_value_type :: upb_fieldtype

text \<open>
  The projections of \<open>upb_fielddef\<close>: its layout entry, its sub-message definition,
  the 8 bytes of its \<open>defaultval\<close> union (\<open>sint\<close>, \<open>uint\<close>, \<open>dbl\<close>, \<open>flt\<close>,
  \<open>boolean\<close> all start at offset 0) and its default string (pointer and length, or
  \<open>(NULL, 0)\<close>).
\<close>

record upb_fielddef =
  fd_layout :: upb_msglayout_field
  fd_msgsubdef :: upb_msgdef
  fd_defaultval :: "64 word"
  fd_defaultstr :: "addr \<times> nat"

primrec upb_descriptortype_to_fieldtype :: "upb_descriptortype \<Rightarrow> upb_fieldtype" where
  "upb_descriptortype_to_fieldtype UPB_DESCRIPTOR_TYPE_DOUBLE = UPB_TYPE_DOUBLE"
| "upb_descriptortype_to_fieldtype UPB_DESCRIPTOR_TYPE_FLOAT = UPB_TYPE_FLOAT"
| "upb_descriptortype_to_fieldtype UPB_DESCRIPTOR_TYPE_INT64 = UPB_TYPE_INT64"
| "upb_descriptortype_to_fieldtype UPB_DESCRIPTOR_TYPE_UINT64 = UPB_TYPE_UINT64"
| "upb_descriptortype_to_fieldtype UPB_DESCRIPTOR_TYPE_INT32 = UPB_TYPE_INT32"
| "upb_descriptortype_to_fieldtype UPB_DESCRIPTOR_TYPE_FIXED64 = UPB_TYPE_UINT64"
| "upb_descriptortype_to_fieldtype UPB_DESCRIPTOR_TYPE_FIXED32 = UPB_TYPE_UINT32"
| "upb_descriptortype_to_fieldtype UPB_DESCRIPTOR_TYPE_BOOL = UPB_TYPE_BOOL"
| "upb_descriptortype_to_fieldtype UPB_DESCRIPTOR_TYPE_STRING = UPB_TYPE_STRING"
| "upb_descriptortype_to_fieldtype UPB_DESCRIPTOR_TYPE_GROUP = UPB_TYPE_MESSAGE"
| "upb_descriptortype_to_fieldtype UPB_DESCRIPTOR_TYPE_MESSAGE = UPB_TYPE_MESSAGE"
| "upb_descriptortype_to_fieldtype UPB_DESCRIPTOR_TYPE_BYTES = UPB_TYPE_BYTES"
| "upb_descriptortype_to_fieldtype UPB_DESCRIPTOR_TYPE_UINT32 = UPB_TYPE_UINT32"
| "upb_descriptortype_to_fieldtype UPB_DESCRIPTOR_TYPE_ENUM = UPB_TYPE_ENUM"
| "upb_descriptortype_to_fieldtype UPB_DESCRIPTOR_TYPE_SFIXED32 = UPB_TYPE_INT32"
| "upb_descriptortype_to_fieldtype UPB_DESCRIPTOR_TYPE_SFIXED64 = UPB_TYPE_INT64"
| "upb_descriptortype_to_fieldtype UPB_DESCRIPTOR_TYPE_SINT32 = UPB_TYPE_INT32"
| "upb_descriptortype_to_fieldtype UPB_DESCRIPTOR_TYPE_SINT64 = UPB_TYPE_INT64"

definition upb_fielddef_type :: "upb_fielddef \<Rightarrow> upb_fieldtype" where
  "upb_fielddef_type f = upb_descriptortype_to_fieldtype (descriptortype (fd_layout f))"

definition upb_fielddef_isseq :: "upb_fielddef \<Rightarrow> bool" where
  "upb_fielddef_isseq f \<longleftrightarrow> label (fd_layout f) = UPB_LABEL_REPEATED"

definition upb_fielddef_issubmsg :: "upb_fielddef \<Rightarrow> bool" where
  "upb_fielddef_issubmsg f \<longleftrightarrow> upb_fielddef_type f = UPB_TYPE_MESSAGE"

definition upb_fielddef_ismap :: "upb_fielddef \<Rightarrow> bool" where
  "upb_fielddef_ismap f \<longleftrightarrow>
     upb_fielddef_isseq f \<and> upb_fielddef_issubmsg f \<and> md_mapentry (fd_msgsubdef f)"

text \<open>
  The default accessors read one member of the \<open>defaultval\<close> union; a narrower
  member is the low bytes of the 8 (little-endian).
\<close>

definition upb_fielddef_defaultint32 :: "upb_fielddef \<Rightarrow> 32 word" where
  "upb_fielddef_defaultint32 f = ucast (fd_defaultval f)"

definition upb_fielddef_defaultint64 :: "upb_fielddef \<Rightarrow> 64 word" where
  "upb_fielddef_defaultint64 f = fd_defaultval f"

definition upb_fielddef_defaultuint32 :: "upb_fielddef \<Rightarrow> 32 word" where
  "upb_fielddef_defaultuint32 f = ucast (fd_defaultval f)"

definition upb_fielddef_defaultuint64 :: "upb_fielddef \<Rightarrow> 64 word" where
  "upb_fielddef_defaultuint64 f = fd_defaultval f"

definition upb_fielddef_defaultfloat :: "upb_fielddef \<Rightarrow> 32 word" where
  "upb_fielddef_defaultfloat f = ucast (fd_defaultval f)"

definition upb_fielddef_defaultdouble :: "upb_fielddef \<Rightarrow> 64 word" where
  "upb_fielddef_defaultdouble f = fd_defaultval f"

definition upb_fielddef_defaultbool :: "upb_fielddef \<Rightarrow> bool" where
  "upb_fielddef_defaultbool f \<longleftrightarrow> (ucast (fd_defaultval f) :: 8 word) \<noteq> 0"

definition upb_fielddef_defaultstr :: "upb_fielddef \<Rightarrow> addr \<times> nat" where
  "upb_fielddef_defaultstr f = fd_defaultstr f"

section \<open>The value union\<close>

text \<open>
  \<open>upb_msgval\<close> is a union whose members all start at offset 0.  A value is the list
  of the union's bytes that have been written, from offset 0: assigning one member
  writes that member's bytes, and \<open>memcpy(&val, mem, size)\<close> writes \<open>size\<close> bytes.
  Floating-point members are given by their IEEE-754 bit patterns.
\<close>

type_synonym upb_msgval = "byte list"

definition mv_int32 :: "32 word \<Rightarrow> upb_msgval" where
  "mv_int32 x = le_bytes 4 x"

definition mv_uint32 :: "32 word \<Rightarrow> upb_msgval" where
  "mv_uint32 x = le_bytes 4 x"

definition mv_int64 :: "64 word \<Rightarrow> upb_msgval" where
  "mv_int64 x = le_bytes 8 x"

definition mv_uint64 :: "64 word \<Rightarrow> upb_msgval" where
  "mv_uint64 x = le_bytes 8 x"

definition mv_float :: "32 word \<Rightarrow> upb_msgval" where
  "mv_float x = le_bytes 4 x"

definition mv_double :: "64 word \<Rightarrow> upb_msgval" where
  "mv_double x = le_bytes 8 x"

definition mv_bool :: "bool \<Rightarrow> upb_msgval" where
  "mv_bool b = [if b then 1 else 0]"

definition mv_ptr :: "addr \<Rightarrow> upb_msgval" where
  "mv_ptr p = le_bytes 8 (word_of_nat p :: 64 word)"

definition mv_str :: "addr \<times> nat \<Rightarrow> upb_msgval" where
  "mv_str s = le_bytes 8 (word_of_nat (fst s) :: 64 word) @ le_bytes 8 (word_of_nat (snd s) :: 64 word)"

text \<open>Reading a member back: its width in bytes from offset 0.\<close>

definition mv_get_int32 :: "upb_msgval \<Rightarrow> 32 word" where
  "mv_get_int32 v = le_word (take 4 v)"

definition mv_get_int64 :: "upb_msgval \<Rightarrow> 64 word" where
  "mv_get_int64 v = le_word (take 8 v)"

definition mv_get_bool :: "upb_msgval \<Rightarrow> bool" where
  "mv_get_bool v \<longleftrightarrow> (le_word (take 1 v) :: 8 word) \<noteq> 0"

definition mv_get_ptr :: "upb_msgval \<Rightarrow> addr" where
  "mv_get_ptr v = unat (le_word (take 8 v) :: 64 word)"

definition mv_get_str :: "upb_msgval \<Rightarrow> addr \<times> nat" where
  "mv_get_str v = (unat (le_word (take 8 v) :: 64 word), unat (le_word (take 8 (drop 8 v)) :: 64 word))"

text \<open>
  Example definitions for witnesses: a non-map message definition and a singular
  field with the given number, offset, presence word, descriptor type and default.
\<close>

definition ex_msgdef :: upb_msgdef where
  "ex_msgdef = \<lparr>md_size = 32, md_mapentry = False, md_key_type = UPB_TYPE_INT32,
                 md_value_type = UPB_TYPE_INT32\<rparr>"

definition ex_field ::
  "32 word \<Rightarrow> 32 word \<Rightarrow> 32 word \<Rightarrow> upb_descriptortype \<Rightarrow> 64 word \<Rightarrow> upb_fielddef" where
  "ex_field n ofs pres t d =
     \<lparr>fd_layout = \<lparr>number = n, offset = ofs, presence = pres, descriptortype = t,
                    label = UPB_LABEL_OPTIONAL\<rparr>,
      fd_msgsubdef = ex_msgdef, fd_defaultval = d, fd_defaultstr = (0, 0)\<rparr>"

section \<open>Lemmas\<close>

lemma upb_fieldtype_to_sizelg2_le_4: "upb_fieldtype_to_sizelg2 t \<le> 4"
  by (cases t) simp_all

lemma field_size_pos: "0 < field_size t"
  by (cases t) (simp_all add: sizeof_ptr_def sizeof_strview_def)

lemma field_size_le_16: "field_size t \<le> 16"
  by (cases t) (simp_all add: sizeof_ptr_def sizeof_strview_def)

lemma length_mv [simp]:
  "length (mv_int32 x) = 4" "length (mv_uint32 x) = 4" "length (mv_float x) = 4"
  "length (mv_int64 y) = 8" "length (mv_uint64 y) = 8" "length (mv_double y) = 8"
  "length (mv_bool b) = 1" "length (mv_ptr p) = 8" "length (mv_str s) = 16"
  by (simp_all add: mv_int32_def mv_uint32_def mv_float_def mv_int64_def mv_uint64_def
      mv_double_def mv_bool_def mv_ptr_def mv_str_def)

lemma mv_get_int32_mv_int32 [simp]: "mv_get_int32 (mv_int32 x) = x"
  by (simp add: mv_get_int32_def mv_int32_def le_word_le_bytes)

lemma mv_get_bool_mv_bool [simp]: "mv_get_bool (mv_bool b) = b"
  by (simp add: mv_get_bool_def mv_bool_def)

lemma mv_get_ptr_mv_ptr [simp]:
  assumes "p < 2 ^ 64"
  shows "mv_get_ptr (mv_ptr p) = p"
proof -
  have "le_word (le_bytes 8 (word_of_nat p :: 64 word)) = (word_of_nat p :: 64 word)"
    by (simp add: le_word_le_bytes)
  then show ?thesis
    using assms by (simp add: mv_get_ptr_def mv_ptr_def unat_of_nat take_bit_nat_eq_self)
qed

lemma mv_get_str_mv_str [simp]:
  assumes "fst s < 2 ^ 64" "snd s < 2 ^ 64"
  shows "mv_get_str (mv_str s) = s"
proof -
  have "\<And>x. le_word (le_bytes 8 (x :: 64 word)) = x"
    by (simp add: le_word_le_bytes)
  then show ?thesis
    using assms by (cases s) (simp add: mv_get_str_def mv_str_def unat_of_nat take_bit_nat_eq_self)
qed

end
