(* ===== verification/Store.thy ===== *)
theory Store
  imports Layout
begin

text \<open>
  The state the operations of \<^verbatim>\<open>src/upb/reflection.c\<close> act on, and the arena they
  allocate from.  Messages are byte blocks of the flat memory (\<open>PTR_AT(msg, ofs, T)\<close>
  is address \<open>msg + ofs\<close>); the headers of arrays (\<open>upb_array\<close>) and maps
  (\<open>upb_map\<close>) are objects of two stores indexed by the address the arena gave
  them, while array element buffers and string views live in the flat memory.
  The arena (\<open>upb_arena\<close>, spec section 6; its code is not under \<^verbatim>\<open>src/\<close>) is a
  bump allocator modelled from the spec: it hands out 8-byte aligned blocks from
  \<open>ar_top\<close> upwards and fails when the block would pass \<open>ar_end\<close>, the point where the
  underlying allocator runs out.  All operations of the model use one arena.
  Errors of the C code that abort (\<open>UPB_ASSERT\<close>), dereferences of a handle that names
  no live container (undefined behaviour in C), and a loop that never exits are values
  of \<open>upb_error\<close>; a function that can meet one returns \<open>upb_error + 'a\<close>.
\<close>

datatype upb_error = UPB_ASSERT_FAILED | UPB_INVALID_HANDLE | UPB_NONTERMINATION

section \<open>The arena\<close>

record upb_arena =
  ar_top :: addr
  ar_end :: addr

definition upb_align_malloc :: "nat \<Rightarrow> nat" where
  "upb_align_malloc n = (n + 7) div 8 * 8"

definition upb_arena_malloc :: "upb_arena \<Rightarrow> nat \<Rightarrow> (addr \<times> upb_arena) option" where
  "upb_arena_malloc a sz =
     (let n = upb_align_malloc sz in
      if ar_top a + n \<le> ar_end a then Some (ar_top a, a\<lparr>ar_top := ar_top a + n\<rparr>) else None)"

text \<open>
  The arena is well formed when its top is a non-null, 8-aligned address below its
  end, and the end is inside the 64-bit address space.
\<close>

definition arena_wf :: "upb_arena \<Rightarrow> bool" where
  "arena_wf a \<longleftrightarrow> 0 < ar_top a \<and> ar_top a mod 8 = 0 \<and> ar_top a \<le> ar_end a \<and> ar_end a \<le> 2 ^ 64"

section \<open>Container headers\<close>

text \<open>
  \<open>upb_array\<close>: \<open>data\<close> is a tagged pointer whose low 3 bits hold the log2 of the
  element width; \<open>len\<close> is the logical length, \<open>size\<close> the capacity in elements.
\<close>

record upb_array =
  arr_data :: "64 word"
  arr_len :: nat
  arr_size :: nat

text \<open>
  \<open>upb_strtable\<close> (spec section 6, \<^verbatim>\<open>table.int.h\<close>): the entries in iteration order.
  An entry holds the key bytes, the address of the table's own copy of them, and the
  8-byte \<open>upb_value\<close>.
\<close>

record upb_tabent =
  ent_key :: "byte list"
  ent_keyptr :: addr
  ent_val :: "64 word"

type_synonym upb_strtable = "upb_tabent list"

record upb_map =
  map_key_size :: nat
  map_val_size :: nat
  map_table :: upb_strtable

definition sizeof_upb_array :: nat where
  "sizeof_upb_array = 24"

definition sizeof_upb_map :: nat where
  "sizeof_upb_map = 40"

section \<open>The state\<close>

record upb_state =
  st_mem :: memory
  st_arrays :: "addr \<rightharpoonup> upb_array"
  st_maps :: "addr \<rightharpoonup> upb_map"
  st_arena :: upb_arena

text \<open>\<open>upb_arena_malloc(a, n)\<close> on the state: a fresh block, or \<open>None\<close> (NULL).\<close>

definition upb_malloc :: "upb_state \<Rightarrow> nat \<Rightarrow> (addr \<times> upb_state) option" where
  "upb_malloc st n =
     (case upb_arena_malloc (st_arena st) n of
        None \<Rightarrow> None
      | Some (p, a) \<Rightarrow> Some (p, st\<lparr>st_arena := a\<rparr>))"

text \<open>
  A later state extends an earlier one when the arena has only moved its top upwards
  and the memory below the earlier top is untouched: what allocation and writes to
  fresh blocks do.
\<close>

definition upb_state_grows :: "upb_state \<Rightarrow> upb_state \<Rightarrow> bool" where
  "upb_state_grows st st' \<longleftrightarrow>
     ar_top (st_arena st) \<le> ar_top (st_arena st') \<and> ar_end (st_arena st') = ar_end (st_arena st) \<and>
     (\<forall>x. x < ar_top (st_arena st) \<longrightarrow> st_mem st' x = st_mem st x)"

text \<open>An example state for witnesses: zeroed memory, no containers, a 4 KiB arena.\<close>

definition ex_state :: upb_state where
  "ex_state = \<lparr>st_mem = (\<lambda>_. 0), st_arrays = Map.empty, st_maps = Map.empty,
                st_arena = \<lparr>ar_top = 64, ar_end = 4096\<rparr>\<rparr>"

section \<open>Lemmas on allocation\<close>

lemma upb_align_malloc_ge: "n \<le> upb_align_malloc n"
  unfolding upb_align_malloc_def by presburger

lemma upb_align_malloc_mod: "upb_align_malloc n mod 8 = 0"
  by (simp add: upb_align_malloc_def)

lemma upb_malloc_Some:
  "upb_malloc st n = Some (p, st') \<longleftrightarrow>
     p = ar_top (st_arena st) \<and> ar_top (st_arena st) + upb_align_malloc n \<le> ar_end (st_arena st) \<and>
     st' = st\<lparr>st_arena := (st_arena st)\<lparr>ar_top := ar_top (st_arena st) + upb_align_malloc n\<rparr>\<rparr>"
  by (auto simp: upb_malloc_def upb_arena_malloc_def Let_def split: if_splits)

lemma upb_malloc_None:
  "upb_malloc st n = None \<longleftrightarrow> ar_end (st_arena st) < ar_top (st_arena st) + upb_align_malloc n"
  by (auto simp: upb_malloc_def upb_arena_malloc_def Let_def split: if_splits)

text \<open>A successful allocation keeps the arena well formed and the block is fresh.\<close>

lemma upb_malloc_wf:
  assumes "upb_malloc st n = Some (p, st')" "arena_wf (st_arena st)"
  shows "arena_wf (st_arena st')"
    and "p = ar_top (st_arena st)" "p + n \<le> ar_top (st_arena st')"
    and "0 < p" "p mod 8 = 0"
    and "ar_end (st_arena st') = ar_end (st_arena st)"
    and "ar_top (st_arena st) \<le> ar_top (st_arena st')"
    and "st_mem st' = st_mem st" "st_arrays st' = st_arrays st" "st_maps st' = st_maps st"
  using assms upb_align_malloc_ge[of n] upb_align_malloc_mod[of n]
  by (auto simp: upb_malloc_Some arena_wf_def)

lemma upb_state_grows_refl [simp]: "upb_state_grows st st"
  by (simp add: upb_state_grows_def)

lemma upb_state_grows_trans:
  "upb_state_grows st1 st2 \<Longrightarrow> upb_state_grows st2 st3 \<Longrightarrow> upb_state_grows st1 st3"
  by (auto simp: upb_state_grows_def)

lemma upb_state_grows_containers [simp]:
  "upb_state_grows st (st'\<lparr>st_maps := M\<rparr>) \<longleftrightarrow> upb_state_grows st st'"
  "upb_state_grows st (st'\<lparr>st_arrays := A\<rparr>) \<longleftrightarrow> upb_state_grows st st'"
  by (simp_all add: upb_state_grows_def)

lemma upb_state_grows_write:
  "upb_state_grows st st' \<Longrightarrow> ar_top (st_arena st) \<le> p \<Longrightarrow>
     upb_state_grows st (st'\<lparr>st_mem := mem_write (st_mem st') p bs\<rparr>)"
  by (simp add: upb_state_grows_def mem_write_outside)

lemma upb_state_grows_mem_read:
  "upb_state_grows st st' \<Longrightarrow> a + n \<le> ar_top (st_arena st) \<Longrightarrow>
     mem_read (st_mem st') a n = mem_read (st_mem st) a n"
  by (rule mem_read_cong) (simp add: upb_state_grows_def)

lemma upb_malloc_grows: "upb_malloc st n = Some (p, st') \<Longrightarrow> upb_state_grows st st'"
  by (auto simp: upb_malloc_Some upb_state_grows_def)

end
