(* ===== verification/Msg.thy ===== *)
theory Msg
  imports Store
begin

text \<open>
  The record accessor of \<^verbatim>\<open>src/upb/reflection.c\<close> (lines 48--160): \<open>in_oneof\<close>,
  \<open>oneofcase\<close>, \<open>upb_msg_has\<close>, \<open>upb_msg_get\<close> with its default-value switch, and
  \<open>upb_msg_set\<close>.  A message is the address of its block in the flat memory; a field is
  its \<open>upb_fielddef\<close>, whose layout entry gives the offset, the presence word and the
  field number.  The lemmas give each function's result on every branch, then the
  properties of the accessor: what \<open>has\<close> answers for each kind of presence, that
  setting a oneof member selects it and deselects its siblings, that \<open>get\<close> returns
  what \<open>set\<close> stored, and that \<open>set\<close> writes nothing but the field and its case word.
\<close>

section \<open>Definitions\<close>

text \<open>\<open>PTR_AT(msg, ofs, type)\<close>: the address \<open>ofs\<close> bytes into the message.\<close>

definition PTR_AT :: "addr \<Rightarrow> nat \<Rightarrow> addr" where
  "PTR_AT msg ofs = msg + ofs"

definition in_oneof :: "upb_msglayout_field \<Rightarrow> bool" where
  "in_oneof field \<longleftrightarrow> sint (presence field) < 0"

text \<open>
  \<open>oneofcase\<close>: the address of the 32-bit case word, at byte offset
  \<open>~field->presence\<close>.  Its \<open>UPB_ASSERT(in_oneof(field))\<close> is kept as an error branch.
\<close>

definition oneofcase :: "addr \<Rightarrow> upb_msglayout_field \<Rightarrow> upb_error + addr" where
  "oneofcase msg field =
     (if in_oneof field then Inr (PTR_AT msg (unat (NOT (presence field)))) else Inl UPB_ASSERT_FAILED)"

text \<open>
  \<open>upb_msg_has\<close>.  The hasbit branch is the code as written: the byte holding the bit
  is read as a (signed) \<open>char\<close>, promoted to \<open>int\<close> and combined with
  \<open>1 << (hasbit % 8)\<close> by \<open>|\<close>; the \<open>int\<close> result is converted to \<open>bool\<close>.
\<close>

definition upb_msg_has :: "upb_state \<Rightarrow> addr \<Rightarrow> upb_fielddef \<Rightarrow> upb_error + bool" where
  "upb_msg_has st msg f =
     (let field = fd_layout f in
      if presence field = 0 then Inl UPB_ASSERT_FAILED
      else if in_oneof field then
        (case oneofcase msg field of
           Inl e \<Rightarrow> Inl e
         | Inr c \<Rightarrow> Inr ((le_word (mem_read (st_mem st) c 4) :: 32 word) = number field))
      else
        (let hasbit = unat (presence field) in
         Inr ((scast (st_mem st (PTR_AT msg (hasbit div 8))) :: 32 word) OR push_bit (hasbit mod 8) 1 \<noteq> 0)))"

text \<open>The width \<open>upb_msg_get\<close> and \<open>upb_msg_set\<close> copy: a pointer for a repeated field.\<close>

definition upb_msg_field_size :: "upb_fielddef \<Rightarrow> nat" where
  "upb_msg_field_size f =
     (if upb_fielddef_isseq f then sizeof_ptr else field_size (descriptortype (fd_layout f)))"

text \<open>
  C's conversion of a \<open>bool\<close> to \<open>double\<close>: the IEEE-754 binary64 patterns of
  1.0 and 0.0.
\<close>

definition double_of_bool :: "bool \<Rightarrow> 64 word" where
  "double_of_bool b = (if b then 0x3FF0000000000000 else 0)"

text \<open>
  The \<open>switch\<close> of \<open>upb_msg_get\<close> on the field type (lines 90--120): the bytes of the
  union member each case assigns.  The \<open>UPB_TYPE_BOOL\<close> case assigns \<open>double_val\<close>, as
  the code does.
\<close>

definition upb_msg_get_default :: "upb_fielddef \<Rightarrow> upb_msgval" where
  "upb_msg_get_default f =
     (case upb_fielddef_type f of
        UPB_TYPE_INT32 \<Rightarrow> mv_int32 (upb_fielddef_defaultint32 f)
      | UPB_TYPE_ENUM \<Rightarrow> mv_int32 (upb_fielddef_defaultint32 f)
      | UPB_TYPE_INT64 \<Rightarrow> mv_int64 (upb_fielddef_defaultint64 f)
      | UPB_TYPE_UINT32 \<Rightarrow> mv_uint32 (upb_fielddef_defaultuint32 f)
      | UPB_TYPE_UINT64 \<Rightarrow> mv_uint64 (upb_fielddef_defaultuint64 f)
      | UPB_TYPE_FLOAT \<Rightarrow> mv_float (upb_fielddef_defaultfloat f)
      | UPB_TYPE_DOUBLE \<Rightarrow> mv_double (upb_fielddef_defaultdouble f)
      | UPB_TYPE_BOOL \<Rightarrow> mv_double (double_of_bool (upb_fielddef_defaultbool f))
      | UPB_TYPE_STRING \<Rightarrow> mv_str (upb_fielddef_defaultstr f)
      | UPB_TYPE_BYTES \<Rightarrow> mv_str (upb_fielddef_defaultstr f)
      | UPB_TYPE_MESSAGE \<Rightarrow> mv_ptr 0)"

text \<open>
  \<open>upb_msg_get\<close>: \<open>field->presence == 0 || upb_msg_has(msg, f)\<close> decides between
  reading the field's bytes and the schema default; \<open>||\<close> short-circuits.
\<close>

definition upb_msg_get :: "upb_state \<Rightarrow> addr \<Rightarrow> upb_fielddef \<Rightarrow> upb_error + upb_msgval" where
  "upb_msg_get st msg f =
     (let field = fd_layout f; mem = PTR_AT msg (unat (offset field)) in
      (case (if presence field = 0 then Inr True else upb_msg_has st msg f) of
         Inl e \<Rightarrow> Inl e
       | Inr True \<Rightarrow> Inr (mem_read (st_mem st) mem (upb_msg_field_size f))
       | Inr False \<Rightarrow> Inr (upb_msg_get_default f)))"

text \<open>
  \<open>upb_msg_set\<close>: copies the field's width of the value to the field, then, for a
  oneof member, stores the field number in the case word.  The value's bytes beyond
  those written are not read.  The arena argument of the C function is unused.
\<close>

definition upb_msg_set :: "upb_state \<Rightarrow> addr \<Rightarrow> upb_fielddef \<Rightarrow> upb_msgval \<Rightarrow> upb_error + upb_state" where
  "upb_msg_set st msg f val =
     (let field = fd_layout f; mem = PTR_AT msg (unat (offset field));
          st' = st\<lparr>st_mem := mem_write (st_mem st) mem (take (upb_msg_field_size f) val)\<rparr> in
      if in_oneof field then
        (case oneofcase msg field of
           Inl e \<Rightarrow> Inl e
         | Inr c \<Rightarrow> Inr (st'\<lparr>st_mem := mem_write (st_mem st') c (le_bytes 4 (number field))\<rparr>))
      else Inr st')"

text \<open>Two fields are in the same oneof when they share the case word.\<close>

definition same_oneof :: "upb_fielddef \<Rightarrow> upb_fielddef \<Rightarrow> bool" where
  "same_oneof f g \<longleftrightarrow>
     in_oneof (fd_layout f) \<and> in_oneof (fd_layout g) \<and> presence (fd_layout f) = presence (fd_layout g)"

abbreviation field_addr :: "addr \<Rightarrow> upb_fielddef \<Rightarrow> addr" where
  "field_addr msg f \<equiv> PTR_AT msg (unat (offset (fd_layout f)))"

abbreviation case_addr :: "addr \<Rightarrow> upb_fielddef \<Rightarrow> addr" where
  "case_addr msg f \<equiv> PTR_AT msg (unat (NOT (presence (fd_layout f))))"

declare PTR_AT_def [simp]

section \<open>Each function on each branch\<close>

lemma or_two_power_neq_0:
  assumes "k < LENGTH('a)"
  shows "(x :: 'a::len word) OR 2 ^ k \<noteq> 0"
proof
  assume "x OR 2 ^ k = 0"
  then have "bit (x OR 2 ^ k) k = bit (0 :: 'a word) k" by simp
  with assms show False by (simp add: bit_simps)
qed

lemma in_oneof_presence_neq_0: "in_oneof field \<Longrightarrow> presence field \<noteq> 0"
  by (auto simp: in_oneof_def)

lemma oneofcase_in_oneof: "in_oneof field \<Longrightarrow> oneofcase msg field = Inr (PTR_AT msg (unat (NOT (presence field))))"
  by (simp add: oneofcase_def)

lemma upb_msg_has_untracked: "presence (fd_layout f) = 0 \<Longrightarrow> upb_msg_has st msg f = Inl UPB_ASSERT_FAILED"
  by (simp add: upb_msg_has_def)

lemma upb_msg_has_oneof:
  "in_oneof (fd_layout f) \<Longrightarrow>
     upb_msg_has st msg f = Inr ((le_word (mem_read (st_mem st) (case_addr msg f) 4) :: 32 word) = number (fd_layout f))"
  by (simp add: upb_msg_has_def Let_def in_oneof_presence_neq_0 oneofcase_in_oneof)

lemma upb_msg_has_hasbit:
  "presence (fd_layout f) \<noteq> 0 \<Longrightarrow> \<not> in_oneof (fd_layout f) \<Longrightarrow> upb_msg_has st msg f = Inr True"
  by (simp add: upb_msg_has_def Let_def or_two_power_neq_0)

lemma upb_msg_get_untracked:
  "presence (fd_layout f) = 0 \<Longrightarrow>
     upb_msg_get st msg f = Inr (mem_read (st_mem st) (field_addr msg f) (upb_msg_field_size f))"
  by (simp add: upb_msg_get_def)

lemma upb_msg_get_oneof:
  "in_oneof (fd_layout f) \<Longrightarrow>
     upb_msg_get st msg f =
       Inr (if (le_word (mem_read (st_mem st) (case_addr msg f) 4) :: 32 word) = number (fd_layout f)
            then mem_read (st_mem st) (field_addr msg f) (upb_msg_field_size f)
            else upb_msg_get_default f)"
  by (simp add: upb_msg_get_def upb_msg_has_oneof in_oneof_presence_neq_0)

lemma upb_msg_get_hasbit:
  "presence (fd_layout f) \<noteq> 0 \<Longrightarrow> \<not> in_oneof (fd_layout f) \<Longrightarrow>
     upb_msg_get st msg f = Inr (mem_read (st_mem st) (field_addr msg f) (upb_msg_field_size f))"
  by (simp add: upb_msg_get_def upb_msg_has_hasbit)

lemma upb_msg_set_plain:
  "\<not> in_oneof (fd_layout f) \<Longrightarrow>
     upb_msg_set st msg f v =
       Inr (st\<lparr>st_mem := mem_write (st_mem st) (field_addr msg f) (take (upb_msg_field_size f) v)\<rparr>)"
  by (simp add: upb_msg_set_def)

lemma upb_msg_set_oneof:
  "in_oneof (fd_layout f) \<Longrightarrow>
     upb_msg_set st msg f v =
       Inr (st\<lparr>st_mem := mem_write (mem_write (st_mem st) (field_addr msg f) (take (upb_msg_field_size f) v))
                              (case_addr msg f) (le_bytes 4 (number (fd_layout f)))\<rparr>)"
  by (simp add: upb_msg_set_def Let_def oneofcase_in_oneof)

lemma mv_get_bool_double_of_bool: "\<not> mv_get_bool (mv_double (double_of_bool b))"
  by (cases b) (simp_all add: mv_get_bool_def mv_double_def double_of_bool_def le_bytes_def upt_rec)

lemmas upb_msg_branches =
  upb_msg_has_untracked upb_msg_has_oneof upb_msg_has_hasbit
  upb_msg_get_untracked upb_msg_get_oneof upb_msg_get_hasbit
  upb_msg_set_plain upb_msg_set_oneof

lemma le_word_le_bytes_4 [simp]: "(le_word (le_bytes 4 (x :: 32 word)) :: 32 word) = x"
  by (simp add: le_word_le_bytes)

text \<open>The default of every type but bool has the width of its descriptor type.\<close>

lemma length_upb_msg_get_default:
  "upb_fielddef_type f \<noteq> UPB_TYPE_BOOL \<Longrightarrow>
   length (upb_msg_get_default f) = field_size (descriptortype (fd_layout f))"
  by (cases "descriptortype (fd_layout f)")
     (simp_all add: upb_msg_get_default_def upb_fielddef_type_def sizeof_ptr_def sizeof_strview_def)

section \<open>Properties of the accessor\<close>

text \<open>
  C1. \<open>upb_msg_has\<close> on a field tracked by a hasbit answers \<open>true\<close> in every state,
  whatever the hasbit holds: the code combines the byte with the bit mask by \<open>|\<close>,
  which is never zero, where the spec (section 4.1) asks for the bit itself.
\<close>

theorem upb_msg_has_hasbit_always_true:
  assumes "presence (fd_layout f) \<noteq> 0" "\<not> in_oneof (fd_layout f)"
  shows "upb_msg_has st msg f = Inr True"
  using assms by (simp add: upb_msg_has_def Let_def or_two_power_neq_0)

theorem upb_msg_has_hasbit_always_true_witness:
  "presence (fd_layout (ex_field 1 8 3 UPB_DESCRIPTOR_TYPE_INT32 42)) \<noteq> 0 \<and>
   \<not> in_oneof (fd_layout (ex_field 1 8 3 UPB_DESCRIPTOR_TYPE_INT32 42)) \<and>
   st_mem ex_state 16 = 0 \<and>
   upb_msg_has ex_state 16 (ex_field 1 8 3 UPB_DESCRIPTOR_TYPE_INT32 42) = Inr True"
proof -
  have h: "presence (fd_layout (ex_field 1 8 3 UPB_DESCRIPTOR_TYPE_INT32 42)) \<noteq> 0"
          "\<not> in_oneof (fd_layout (ex_field 1 8 3 UPB_DESCRIPTOR_TYPE_INT32 42))"
    by (simp_all add: ex_field_def in_oneof_def)
  show ?thesis
    using h upb_msg_has_hasbit_always_true[OF h, of ex_state 16] by (simp add: ex_state_def)
qed

text \<open>
  C2. Setting a oneof member always succeeds and makes \<open>upb_msg_has\<close> true for it:
  its number is stored in the case word last.
\<close>

theorem upb_msg_set_oneof_has:
  assumes "in_oneof (fd_layout f)"
  shows "\<exists>st'. upb_msg_set st msg f v = Inr st' \<and> upb_msg_has st' msg f = Inr True"
  using assms by (simp add: upb_msg_set_oneof upb_msg_has_oneof mem_read_write_same)

theorem upb_msg_set_oneof_has_witness:
  "in_oneof (fd_layout (ex_field 1 8 (-5) UPB_DESCRIPTOR_TYPE_INT32 0)) \<and>
   (\<exists>st'. upb_msg_set ex_state 16 (ex_field 1 8 (-5) UPB_DESCRIPTOR_TYPE_INT32 0) (mv_int32 7) = Inr st' \<and>
          upb_msg_has st' 16 (ex_field 1 8 (-5) UPB_DESCRIPTOR_TYPE_INT32 0) = Inr True)"
proof -
  have h: "in_oneof (fd_layout (ex_field 1 8 (-5) UPB_DESCRIPTOR_TYPE_INT32 0))"
    by (simp add: ex_field_def in_oneof_def)
  show ?thesis using h upb_msg_set_oneof_has[OF h] by blast
qed

text \<open>
  C3. Setting a oneof member deselects every other member of the same oneof:
  afterwards \<open>upb_msg_has\<close> is false for a sibling with another field number.
\<close>

theorem upb_msg_set_oneof_clears_sibling:
  assumes "same_oneof f g" "number (fd_layout g) \<noteq> number (fd_layout f)"
    and "upb_msg_set st msg f v = Inr st'"
  shows "upb_msg_has st' msg g = Inr False"
  using assms by (auto simp: same_oneof_def upb_msg_set_oneof upb_msg_has_oneof mem_read_write_same)

theorem upb_msg_set_oneof_clears_sibling_witness:
  "same_oneof (ex_field 1 8 (-5) UPB_DESCRIPTOR_TYPE_INT32 0) (ex_field 2 8 (-5) UPB_DESCRIPTOR_TYPE_BOOL 0) \<and>
   number (fd_layout (ex_field 2 8 (-5) UPB_DESCRIPTOR_TYPE_BOOL 0)) \<noteq>
     number (fd_layout (ex_field 1 8 (-5) UPB_DESCRIPTOR_TYPE_INT32 0)) \<and>
   (\<exists>st'. upb_msg_set ex_state 16 (ex_field 1 8 (-5) UPB_DESCRIPTOR_TYPE_INT32 0) (mv_int32 7) = Inr st' \<and>
          upb_msg_has st' 16 (ex_field 2 8 (-5) UPB_DESCRIPTOR_TYPE_BOOL 0) = Inr False)"
proof -
  let ?f = "ex_field 1 8 (-5) UPB_DESCRIPTOR_TYPE_INT32 0"
  let ?g = "ex_field 2 8 (-5) UPB_DESCRIPTOR_TYPE_BOOL 0"
  have h1: "same_oneof ?f ?g" and h2: "number (fd_layout ?g) \<noteq> number (fd_layout ?f)"
    by (simp_all add: same_oneof_def ex_field_def in_oneof_def)
  have "in_oneof (fd_layout ?f)" by (simp add: ex_field_def in_oneof_def)
  then obtain st' where st': "upb_msg_set ex_state 16 ?f (mv_int32 7) = Inr st'"
    by (simp add: upb_msg_set_oneof)
  show ?thesis
    using h1 h2 st' upb_msg_set_oneof_clears_sibling[OF h1 h2 st'] by blast
qed

text \<open>
  C4. Get after set, for a field without presence tracking: \<open>upb_msg_get\<close> returns
  the field-width prefix of the value \<open>upb_msg_set\<close> stored.
\<close>

theorem upb_msg_get_set_untracked:
  assumes "presence (fd_layout f) = 0" "upb_msg_field_size f \<le> length v"
    and "upb_msg_set st msg f v = Inr st'"
  shows "upb_msg_get st' msg f = Inr (take (upb_msg_field_size f) v)"
proof -
  have "\<not> in_oneof (fd_layout f)" using assms(1) by (simp add: in_oneof_def)
  with assms show ?thesis
    by (auto simp: upb_msg_set_plain upb_msg_get_untracked mem_read_write_same)
qed

theorem upb_msg_get_set_untracked_witness:
  "presence (fd_layout (ex_field 1 8 0 UPB_DESCRIPTOR_TYPE_INT32 0)) = 0 \<and>
   upb_msg_field_size (ex_field 1 8 0 UPB_DESCRIPTOR_TYPE_INT32 0) \<le> length (mv_int32 7) \<and>
   (\<exists>st'. upb_msg_set ex_state 16 (ex_field 1 8 0 UPB_DESCRIPTOR_TYPE_INT32 0) (mv_int32 7) = Inr st' \<and>
          upb_msg_get st' 16 (ex_field 1 8 0 UPB_DESCRIPTOR_TYPE_INT32 0) = Inr (mv_int32 7))"
proof -
  let ?f = "ex_field 1 8 0 UPB_DESCRIPTOR_TYPE_INT32 0"
  have h1: "presence (fd_layout ?f) = 0" and h2: "upb_msg_field_size ?f \<le> length (mv_int32 7)"
    and sz: "upb_msg_field_size ?f = 4"
    by (simp_all add: ex_field_def upb_msg_field_size_def upb_fielddef_isseq_def)
  have "\<not> in_oneof (fd_layout ?f)" using h1 by (simp add: in_oneof_def)
  then obtain st' where st': "upb_msg_set ex_state 16 ?f (mv_int32 7) = Inr st'"
    by (simp add: upb_msg_set_plain)
  show ?thesis
    using h1 h2 st' upb_msg_get_set_untracked[OF h1 h2 st'] sz by simp
qed

text \<open>
  C5. Get after set, for a oneof member whose bytes do not overlap the case word:
  the member is selected, so \<open>upb_msg_get\<close> reads back what was stored.
\<close>

theorem upb_msg_get_set_oneof:
  assumes "in_oneof (fd_layout f)" "upb_msg_field_size f \<le> length v"
    and "disjoint_range (field_addr msg f) (upb_msg_field_size f) (case_addr msg f) 4"
    and "upb_msg_set st msg f v = Inr st'"
  shows "upb_msg_get st' msg f = Inr (take (upb_msg_field_size f) v)"
  using assms
  by (auto simp: upb_msg_set_oneof upb_msg_get_oneof mem_read_write_same mem_read_write_disjoint)

theorem upb_msg_get_set_oneof_witness:
  "in_oneof (fd_layout (ex_field 1 8 (-5) UPB_DESCRIPTOR_TYPE_INT32 0)) \<and>
   upb_msg_field_size (ex_field 1 8 (-5) UPB_DESCRIPTOR_TYPE_INT32 0) \<le> length (mv_int32 7) \<and>
   disjoint_range (field_addr 16 (ex_field 1 8 (-5) UPB_DESCRIPTOR_TYPE_INT32 0))
     (upb_msg_field_size (ex_field 1 8 (-5) UPB_DESCRIPTOR_TYPE_INT32 0))
     (case_addr 16 (ex_field 1 8 (-5) UPB_DESCRIPTOR_TYPE_INT32 0)) 4 \<and>
   (\<exists>st'. upb_msg_set ex_state 16 (ex_field 1 8 (-5) UPB_DESCRIPTOR_TYPE_INT32 0) (mv_int32 7) = Inr st' \<and>
          upb_msg_get st' 16 (ex_field 1 8 (-5) UPB_DESCRIPTOR_TYPE_INT32 0) = Inr (mv_int32 7))"
proof -
  let ?f = "ex_field 1 8 (-5) UPB_DESCRIPTOR_TYPE_INT32 0"
  have h1: "in_oneof (fd_layout ?f)" and h2: "upb_msg_field_size ?f \<le> length (mv_int32 7)"
    and h3: "disjoint_range (field_addr 16 ?f) (upb_msg_field_size ?f) (case_addr 16 ?f) 4"
    and sz: "upb_msg_field_size ?f = 4"
    by (simp_all add: ex_field_def in_oneof_def upb_msg_field_size_def upb_fielddef_isseq_def
        disjoint_range_def)
  obtain st' where st': "upb_msg_set ex_state 16 ?f (mv_int32 7) = Inr st'"
    using h1 by (simp add: upb_msg_set_oneof)
  show ?thesis
    using h1 h2 h3 st' upb_msg_get_set_oneof[OF h1 h2 h3 st'] sz by simp
qed

text \<open>
  C6. For a field tracked by a hasbit, \<open>upb_msg_get\<close> always reads the field's
  bytes and never returns the schema default: a consequence of C1.  On a zeroed
  message whose int32 field has default 42, it returns 0 (spec section 8 expects 42).
\<close>

theorem upb_msg_get_hasbit_reads_memory:
  assumes "presence (fd_layout f) \<noteq> 0" "\<not> in_oneof (fd_layout f)"
  shows "upb_msg_get st msg f = Inr (mem_read (st_mem st) (field_addr msg f) (upb_msg_field_size f))"
  using assms by (rule upb_msg_get_hasbit)

theorem upb_msg_get_hasbit_reads_memory_witness:
  "presence (fd_layout (ex_field 1 8 3 UPB_DESCRIPTOR_TYPE_INT32 42)) \<noteq> 0 \<and>
   \<not> in_oneof (fd_layout (ex_field 1 8 3 UPB_DESCRIPTOR_TYPE_INT32 42)) \<and>
   upb_fielddef_defaultint32 (ex_field 1 8 3 UPB_DESCRIPTOR_TYPE_INT32 42) = 42 \<and>
   upb_msg_get ex_state 16 (ex_field 1 8 3 UPB_DESCRIPTOR_TYPE_INT32 42) = Inr (mv_int32 0)"
proof -
  let ?f = "ex_field 1 8 3 UPB_DESCRIPTOR_TYPE_INT32 42"
  have h: "presence (fd_layout ?f) \<noteq> 0" "\<not> in_oneof (fd_layout ?f)"
    by (simp_all add: ex_field_def in_oneof_def)
  have "mem_read (st_mem ex_state) (field_addr 16 ?f) (upb_msg_field_size ?f) = mv_int32 0"
    by (simp add: ex_state_def ex_field_def upb_msg_field_size_def upb_fielddef_isseq_def
        mem_read_def mv_int32_def le_bytes_def upt_rec)
  then show ?thesis
    using h upb_msg_get_hasbit_reads_memory[OF h, of ex_state 16]
    by (simp add: upb_fielddef_defaultint32_def ex_field_def)
qed

text \<open>
  C7. For a oneof member that is not the selected one (the case word holds another
  number), \<open>upb_msg_get\<close> returns the default value of the switch, not memory.
\<close>

theorem upb_msg_get_oneof_unset_default:
  assumes "in_oneof (fd_layout f)"
    and "(le_word (mem_read (st_mem st) (case_addr msg f) 4) :: 32 word) \<noteq> number (fd_layout f)"
  shows "upb_msg_get st msg f = Inr (upb_msg_get_default f)"
  using assms by (simp add: upb_msg_get_oneof)

theorem upb_msg_get_oneof_unset_default_witness:
  "in_oneof (fd_layout (ex_field 1 8 (-5) UPB_DESCRIPTOR_TYPE_INT32 42)) \<and>
   (le_word (mem_read (st_mem ex_state) (case_addr 16 (ex_field 1 8 (-5) UPB_DESCRIPTOR_TYPE_INT32 42)) 4) :: 32 word)
     \<noteq> number (fd_layout (ex_field 1 8 (-5) UPB_DESCRIPTOR_TYPE_INT32 42)) \<and>
   upb_msg_get ex_state 16 (ex_field 1 8 (-5) UPB_DESCRIPTOR_TYPE_INT32 42) = Inr (mv_int32 42)"
proof -
  let ?f = "ex_field 1 8 (-5) UPB_DESCRIPTOR_TYPE_INT32 42"
  have h1: "in_oneof (fd_layout ?f)" by (simp add: ex_field_def in_oneof_def)
  have h2: "(le_word (mem_read (st_mem ex_state) (case_addr 16 ?f) 4) :: 32 word) \<noteq> number (fd_layout ?f)"
    by (simp add: ex_state_def ex_field_def mem_read_def upt_rec)
  have "upb_msg_get_default ?f = mv_int32 42"
    by (simp add: upb_msg_get_default_def upb_fielddef_type_def ex_field_def upb_fielddef_defaultint32_def)
  then show ?thesis using h1 h2 upb_msg_get_oneof_unset_default[OF h1 h2] by simp
qed

text \<open>
  C8. For an unselected oneof member of type bool, the value \<open>upb_msg_get\<close> returns
  reads as \<open>false\<close> through \<open>bool_val\<close>, whatever the default: the code stores the
  default in \<open>double_val\<close>, and the first byte of a double 0.0 or 1.0 is zero.
\<close>

theorem upb_msg_get_bool_default_false:
  assumes "in_oneof (fd_layout f)" "upb_fielddef_type f = UPB_TYPE_BOOL"
    and "(le_word (mem_read (st_mem st) (case_addr msg f) 4) :: 32 word) \<noteq> number (fd_layout f)"
  shows "\<exists>v. upb_msg_get st msg f = Inr v \<and> \<not> mv_get_bool v"
  using assms by (simp add: upb_msg_get_oneof upb_msg_get_default_def mv_get_bool_double_of_bool)

theorem upb_msg_get_bool_default_false_witness:
  "in_oneof (fd_layout (ex_field 1 8 (-5) UPB_DESCRIPTOR_TYPE_BOOL 1)) \<and>
   upb_fielddef_type (ex_field 1 8 (-5) UPB_DESCRIPTOR_TYPE_BOOL 1) = UPB_TYPE_BOOL \<and>
   upb_fielddef_defaultbool (ex_field 1 8 (-5) UPB_DESCRIPTOR_TYPE_BOOL 1) \<and>
   (le_word (mem_read (st_mem ex_state) (case_addr 16 (ex_field 1 8 (-5) UPB_DESCRIPTOR_TYPE_BOOL 1)) 4) :: 32 word)
     \<noteq> number (fd_layout (ex_field 1 8 (-5) UPB_DESCRIPTOR_TYPE_BOOL 1)) \<and>
   (\<exists>v. upb_msg_get ex_state 16 (ex_field 1 8 (-5) UPB_DESCRIPTOR_TYPE_BOOL 1) = Inr v \<and> \<not> mv_get_bool v)"
proof -
  let ?f = "ex_field 1 8 (-5) UPB_DESCRIPTOR_TYPE_BOOL 1"
  have h1: "in_oneof (fd_layout ?f)" and h2: "upb_fielddef_type ?f = UPB_TYPE_BOOL"
    and h3: "(le_word (mem_read (st_mem ex_state) (case_addr 16 ?f) 4) :: 32 word) \<noteq> number (fd_layout ?f)"
    and d: "upb_fielddef_defaultbool ?f"
    by (simp_all add: ex_field_def in_oneof_def upb_fielddef_type_def ex_state_def mem_read_def upt_rec
        upb_fielddef_defaultbool_def)
  show ?thesis using h1 h2 h3 d upb_msg_get_bool_default_false[OF h1 h2 h3] by blast
qed

text \<open>
  C9. \<open>upb_msg_set\<close> changes nothing but the field's bytes and, for a oneof member,
  its case word: every other byte of memory, the containers and the arena are kept.
  In particular it does not set a hasbit (spec section 4.1).
\<close>

theorem upb_msg_set_frame:
  assumes "upb_msg_set st msg f v = Inr st'"
    and "x < field_addr msg f \<or> field_addr msg f + upb_msg_field_size f \<le> x"
    and "in_oneof (fd_layout f) \<longrightarrow> x < case_addr msg f \<or> case_addr msg f + 4 \<le> x"
  shows "st_mem st' x = st_mem st x \<and> st' = st\<lparr>st_mem := st_mem st'\<rparr>"
proof (cases "in_oneof (fd_layout f)")
  case True
  with assms show ?thesis by (auto simp: upb_msg_set_oneof mem_write_outside)
next
  case False
  with assms show ?thesis by (auto simp: upb_msg_set_plain mem_write_outside)
qed

theorem upb_msg_set_frame_witness:
  "\<exists>st'. upb_msg_set ex_state 16 (ex_field 1 8 3 UPB_DESCRIPTOR_TYPE_INT32 0) (mv_int32 7) = Inr st' \<and>
     (16 < field_addr 16 (ex_field 1 8 3 UPB_DESCRIPTOR_TYPE_INT32 0) \<or>
      field_addr 16 (ex_field 1 8 3 UPB_DESCRIPTOR_TYPE_INT32 0) +
        upb_msg_field_size (ex_field 1 8 3 UPB_DESCRIPTOR_TYPE_INT32 0) \<le> 16) \<and>
     (in_oneof (fd_layout (ex_field 1 8 3 UPB_DESCRIPTOR_TYPE_INT32 0)) \<longrightarrow>
        16 < case_addr 16 (ex_field 1 8 3 UPB_DESCRIPTOR_TYPE_INT32 0) \<or>
        case_addr 16 (ex_field 1 8 3 UPB_DESCRIPTOR_TYPE_INT32 0) + 4 \<le> 16) \<and>
     st_mem st' 16 = st_mem ex_state 16 \<and> st' = ex_state\<lparr>st_mem := st_mem st'\<rparr>"
proof -
  let ?f = "ex_field 1 8 3 UPB_DESCRIPTOR_TYPE_INT32 0"
  have no: "\<not> in_oneof (fd_layout ?f)" by (simp add: ex_field_def in_oneof_def)
  then obtain st' where st': "upb_msg_set ex_state 16 ?f (mv_int32 7) = Inr st'"
    by (simp add: upb_msg_set_plain)
  have h2: "16 < field_addr 16 ?f \<or> field_addr 16 ?f + upb_msg_field_size ?f \<le> 16"
    by (simp add: ex_field_def)
  have h3: "in_oneof (fd_layout ?f) \<longrightarrow> 16 < case_addr 16 ?f \<or> case_addr 16 ?f + 4 \<le> 16"
    using no by simp
  show ?thesis using st' h2 h3 upb_msg_set_frame[OF st' h2 h3] by blast
qed

text \<open>
  C10. \<open>upb_msg_get\<close> never fails: the assertion of \<open>upb_msg_has\<close> is only reached
  for tracked fields, and the one of \<open>oneofcase\<close> only for oneof members.
\<close>

theorem upb_msg_get_total: "\<exists>v. upb_msg_get st msg f = Inr v"
proof (cases "presence (fd_layout f) = 0")
  case True
  then show ?thesis by (simp add: upb_msg_get_untracked)
next
  case False
  then show ?thesis by (cases "in_oneof (fd_layout f)") (simp_all add: upb_msg_get_oneof upb_msg_get_hasbit)
qed

text \<open>C11. \<open>upb_msg_set\<close> never fails, for every field and value.\<close>

theorem upb_msg_set_total: "\<exists>st'. upb_msg_set st msg f v = Inr st'"
  by (cases "in_oneof (fd_layout f)") (simp_all add: upb_msg_set_oneof upb_msg_set_plain)

text \<open>
  C39. The value \<open>upb_msg_get\<close> returns for a singular field of any type but bool
  has exactly the field's width, \<open>field_size[descriptortype]\<close>, whether it is read
  from the message or taken from the default switch: the bytes the caller gets are
  those of the union member the field's type names.  (For bool the default branch
  returns the 8 bytes of \<open>double_val\<close>, C8.)
\<close>

theorem upb_msg_get_width:
  assumes "\<not> upb_fielddef_isseq f" "upb_fielddef_type f \<noteq> UPB_TYPE_BOOL"
    and "upb_msg_get st msg f = Inr v"
  shows "length v = upb_msg_field_size f"
  using assms length_upb_msg_get_default[OF assms(2)]
  by (auto simp: upb_msg_get_def upb_msg_field_size_def Let_def split: sum.splits bool.splits if_splits)

theorem upb_msg_get_width_witness:
  "\<not> upb_fielddef_isseq (ex_field 1 8 (-5) UPB_DESCRIPTOR_TYPE_ENUM 42) \<and>
   upb_fielddef_type (ex_field 1 8 (-5) UPB_DESCRIPTOR_TYPE_ENUM 42) \<noteq> UPB_TYPE_BOOL \<and>
   upb_msg_get ex_state 16 (ex_field 1 8 (-5) UPB_DESCRIPTOR_TYPE_ENUM 42) = Inr (mv_int32 42) \<and>
   length (mv_int32 42) = upb_msg_field_size (ex_field 1 8 (-5) UPB_DESCRIPTOR_TYPE_ENUM 42)"
proof -
  let ?f = "ex_field 1 8 (-5) UPB_DESCRIPTOR_TYPE_ENUM 42"
  have h1: "\<not> upb_fielddef_isseq ?f" and h2: "upb_fielddef_type ?f \<noteq> UPB_TYPE_BOOL"
    by (simp_all add: ex_field_def upb_fielddef_isseq_def upb_fielddef_type_def)
  have h3: "upb_msg_get ex_state 16 ?f = Inr (mv_int32 42)"
    by (simp add: upb_msg_get_oneof ex_field_def in_oneof_def ex_state_def mem_read_def upt_rec
        upb_msg_get_default_def upb_fielddef_type_def upb_fielddef_defaultint32_def)
  show ?thesis using h1 h2 h3 upb_msg_get_width[OF h1 h2 h3] by simp
qed
end
