(* ===== verification/Array.thy ===== *)
theory Array
  imports Store
begin

text \<open>
  The array container of \<^verbatim>\<open>src/upb/reflection.c\<close> (lines 162--197):
  \<open>upb_array_size\<close>, \<open>upb_array_get\<close>, \<open>upb_array_set\<close>, \<open>upb_array_append\<close> and
  \<open>upb_array_resize\<close>, with the helpers of \<^verbatim>\<open>msg.h\<close> they call, modelled from the spec:
  the tagged data pointer (\<open>_upb_tag_arrptr\<close>, \<open>_upb_array_ptr\<close>), the constructor
  \<open>upb_array_new\<close>, and the capacity growth \<open>_upb_array_realloc\<close>, whose doubling loop
  is a \<^theory_text>\<open>partial_function\<close> in the option monad.  The element buffer lives in the
  flat memory; the header in the array store.  An array's contents are abstracted by
  \<open>upb_array_elems\<close>, the list of its elements' bytes, and the lemmas show that get,
  set and append refine indexing, update and snoc on that list.
\<close>

section \<open>Definitions\<close>

text \<open>\<open>_upb_tag_arrptr\<close>: the element-width exponent in the low 3 bits of the pointer.\<close>

definition upb_tag_arrptr :: "addr \<Rightarrow> nat \<Rightarrow> 64 word" where
  "upb_tag_arrptr ptr elem_size_lg2 = word_of_nat ptr OR word_of_nat elem_size_lg2"

text \<open>\<open>_upb_array_ptr\<close> / \<open>_upb_array_constptr\<close>: the data pointer with the tag cleared.\<close>

definition upb_array_ptr :: "upb_array \<Rightarrow> addr" where
  "upb_array_ptr arr = unat (arr_data arr AND NOT 7)"

text \<open>\<open>arr->data & 7\<close> (lines 171 and 179): the log2 of the element width.\<close>

definition upb_array_lg2 :: "upb_array \<Rightarrow> nat" where
  "upb_array_lg2 arr = unat (arr_data arr AND 7)"

text \<open>
  \<open>upb_array_new(a, type)\<close>: a fresh header with a NULL buffer tagged with the
  element width of \<open>type\<close>, or NULL (address 0) when the arena is exhausted.
\<close>

definition upb_array_new :: "upb_state \<Rightarrow> upb_fieldtype \<Rightarrow> addr \<times> upb_state" where
  "upb_array_new st t =
     (case upb_malloc st sizeof_upb_array of
        None \<Rightarrow> (0, st)
      | Some (p, st') \<Rightarrow>
          (p, st'\<lparr>st_arrays := (st_arrays st')(p \<mapsto>
                \<lparr>arr_data = upb_tag_arrptr 0 (upb_fieldtype_to_sizelg2 t), arr_len = 0, arr_size = 0\<rparr>)\<rparr>))"

text \<open>
  The loop \<open>while (new_size < min_size) new_size *= 2;\<close> of \<open>_upb_array_realloc\<close>.
  It runs forever from \<open>new_size = 0\<close>; \<open>None\<close> is that outcome.
\<close>

partial_function (option) upb_array_grow :: "nat \<Rightarrow> nat \<Rightarrow> nat option" where
  "upb_array_grow new_size min_size =
     (if new_size < min_size then upb_array_grow (new_size * 2) min_size else Some new_size)"

text \<open>
  \<open>upb_arena_realloc(a, ptr, oldsize, size)\<close>: a fresh block of \<open>size\<close> bytes with
  the first \<open>oldsize\<close> bytes of the old block copied into it.
\<close>

definition upb_arena_realloc :: "upb_state \<Rightarrow> addr \<Rightarrow> nat \<Rightarrow> nat \<Rightarrow> (addr \<times> upb_state) option" where
  "upb_arena_realloc st ptr oldsize sz =
     (case upb_malloc st sz of
        None \<Rightarrow> None
      | Some (p, st') \<Rightarrow>
          Some (p, if 0 < oldsize
                   then st'\<lparr>st_mem := mem_write (st_mem st') p (mem_read (st_mem st') ptr oldsize)\<rparr>
                   else st'))"

text \<open>
  \<open>_upb_array_realloc(arr, min_size, arena)\<close>: grows the capacity to at least
  \<open>min_size\<close>, starting from \<open>max(arr->size, 4)\<close> and doubling; \<open>false\<close> when the
  arena fails, the array then unchanged.  The logical length is not touched.
\<close>

definition upb_array_realloc :: "upb_state \<Rightarrow> addr \<Rightarrow> nat \<Rightarrow> upb_error + (bool \<times> upb_state)" where
  "upb_array_realloc st a min_size =
     (case st_arrays st a of
        None \<Rightarrow> Inl UPB_INVALID_HANDLE
      | Some arr \<Rightarrow>
          (case upb_array_grow (max (arr_size arr) 4) min_size of
             None \<Rightarrow> Inl UPB_NONTERMINATION
           | Some new_size \<Rightarrow>
               (let elem_size_lg2 = upb_array_lg2 arr;
                    old_bytes = push_bit elem_size_lg2 (arr_size arr);
                    new_bytes = push_bit elem_size_lg2 new_size in
                case upb_arena_realloc st (upb_array_ptr arr) old_bytes new_bytes of
                  None \<Rightarrow> Inr (False, st)
                | Some (p, st') \<Rightarrow>
                    Inr (True, st'\<lparr>st_arrays := (st_arrays st')(a \<mapsto>
                      arr\<lparr>arr_data := upb_tag_arrptr p elem_size_lg2, arr_size := new_size\<rparr>)\<rparr>))))"

definition upb_array_size :: "upb_state \<Rightarrow> addr \<Rightarrow> upb_error + nat" where
  "upb_array_size st a =
     (case st_arrays st a of None \<Rightarrow> Inl UPB_INVALID_HANDLE | Some arr \<Rightarrow> Inr (arr_len arr))"

definition upb_array_get :: "upb_state \<Rightarrow> addr \<Rightarrow> nat \<Rightarrow> upb_error + upb_msgval" where
  "upb_array_get st a i =
     (case st_arrays st a of
        None \<Rightarrow> Inl UPB_INVALID_HANDLE
      | Some arr \<Rightarrow>
          (let data = upb_array_ptr arr; lg2 = upb_array_lg2 arr in
           if i < arr_len arr
           then Inr (mem_read (st_mem st) (data + push_bit lg2 i) (push_bit lg2 1))
           else Inl UPB_ASSERT_FAILED))"

definition upb_array_set :: "upb_state \<Rightarrow> addr \<Rightarrow> nat \<Rightarrow> upb_msgval \<Rightarrow> upb_error + upb_state" where
  "upb_array_set st a i val =
     (case st_arrays st a of
        None \<Rightarrow> Inl UPB_INVALID_HANDLE
      | Some arr \<Rightarrow>
          (let data = upb_array_ptr arr; lg2 = upb_array_lg2 arr in
           if i < arr_len arr
           then Inr (st\<lparr>st_mem := mem_write (st_mem st) (data + push_bit lg2 i) (take (push_bit lg2 1) val)\<rparr>)
           else Inl UPB_ASSERT_FAILED))"

text \<open>
  \<open>upb_array_append\<close>: realloc to \<open>len + 1\<close>, return \<open>false\<close> if that fails,
  otherwise increment \<open>len\<close> and set the last slot.
\<close>

definition upb_array_append :: "upb_state \<Rightarrow> addr \<Rightarrow> upb_msgval \<Rightarrow> upb_error + (bool \<times> upb_state)" where
  "upb_array_append st a val =
     (case st_arrays st a of
        None \<Rightarrow> Inl UPB_INVALID_HANDLE
      | Some arr \<Rightarrow>
          (case upb_array_realloc st a (arr_len arr + 1) of
             Inl e \<Rightarrow> Inl e
           | Inr (False, st') \<Rightarrow> Inr (False, st')
           | Inr (True, st') \<Rightarrow>
               (case st_arrays st' a of
                  None \<Rightarrow> Inl UPB_INVALID_HANDLE
                | Some arr' \<Rightarrow>
                    (let st'' = st'\<lparr>st_arrays := (st_arrays st')(a \<mapsto> arr'\<lparr>arr_len := arr_len arr' + 1\<rparr>)\<rparr> in
                     case upb_array_set st'' a (arr_len arr' + 1 - 1) val of
                       Inl e \<Rightarrow> Inl e
                     | Inr st''' \<Rightarrow> Inr (True, st''')))))"

text \<open>\<open>upb_array_resize\<close> is \<open>_upb_array_realloc(arr, size, arena)\<close>, as written.\<close>

definition upb_array_resize :: "upb_state \<Rightarrow> addr \<Rightarrow> nat \<Rightarrow> upb_error + (bool \<times> upb_state)" where
  "upb_array_resize st a sz = upb_array_realloc st a sz"

section \<open>Abstraction and invariant\<close>

definition upb_array_elem_size :: "upb_array \<Rightarrow> nat" where
  "upb_array_elem_size arr = push_bit (upb_array_lg2 arr) 1"

definition upb_array_slot :: "upb_array \<Rightarrow> nat \<Rightarrow> addr" where
  "upb_array_slot arr i = upb_array_ptr arr + push_bit (upb_array_lg2 arr) i"

text \<open>The contents of an array: the bytes of each of its \<open>len\<close> slots.\<close>

definition upb_array_elems :: "upb_state \<Rightarrow> upb_array \<Rightarrow> upb_msgval list" where
  "upb_array_elems st arr =
     map (\<lambda>i. mem_read (st_mem st) (upb_array_slot arr i) (upb_array_elem_size arr)) [0..<arr_len arr]"

definition upb_array_contents :: "upb_state \<Rightarrow> addr \<Rightarrow> upb_msgval list option" where
  "upb_array_contents st a = map_option (upb_array_elems st) (st_arrays st a)"

text \<open>
  An array header is well formed below the arena top \<open>lim\<close> when its width exponent
  is at most 4 (16-byte string views), its buffer is 8-aligned and allocated, and the
  length is within the capacity.
\<close>

definition array_wf :: "addr \<Rightarrow> upb_array \<Rightarrow> bool" where
  "array_wf lim arr \<longleftrightarrow>
     upb_array_lg2 arr \<le> 4 \<and> upb_array_ptr arr mod 8 = 0 \<and>
     upb_array_ptr arr + push_bit (upb_array_lg2 arr) (arr_size arr) \<le> lim \<and>
     arr_len arr \<le> arr_size arr"

definition arrays_wf :: "upb_state \<Rightarrow> bool" where
  "arrays_wf st \<longleftrightarrow> (\<forall>a arr. st_arrays st a = Some arr \<longrightarrow> array_wf (ar_top (st_arena st)) arr)"

text \<open>
  The bytes an array owns: its buffer, slots 0 to capacity.  The bytes the arrays of
  a state own, and the separation of the buffers of distinct arrays, which
  \<open>_upb_array_realloc\<close> keeps by always taking a fresh block.
\<close>

definition upb_array_buf :: "upb_array \<Rightarrow> addr \<Rightarrow> bool" where
  "upb_array_buf arr x \<longleftrightarrow> upb_array_ptr arr \<le> x \<and> x < upb_array_slot arr (arr_size arr)"

definition upb_array_bytes :: "upb_state \<Rightarrow> addr \<Rightarrow> bool" where
  "upb_array_bytes st x \<longleftrightarrow> (\<exists>a arr. st_arrays st a = Some arr \<and> upb_array_buf arr x)"

definition arrays_apart :: "upb_state \<Rightarrow> bool" where
  "arrays_apart st \<longleftrightarrow>
     (\<forall>a b arr brr x. a \<noteq> b \<longrightarrow> st_arrays st a = Some arr \<longrightarrow> st_arrays st b = Some brr \<longrightarrow>
        upb_array_buf arr x \<longrightarrow> \<not> upb_array_buf brr x)"

text \<open>
  Examples for witnesses: a full array of four int32 elements 1, 2, 3, 4 (header at
  64, buffer at 128), in a state whose arena has room, and the same with an exhausted
  arena.
\<close>

definition ex_array :: upb_array where
  "ex_array = \<lparr>arr_data = upb_tag_arrptr 128 2, arr_len = 4, arr_size = 4\<rparr>"

definition ex_array_state :: upb_state where
  "ex_array_state =
     \<lparr>st_mem = mem_write (\<lambda>_. 0) 128 (mv_int32 1 @ mv_int32 2 @ mv_int32 3 @ mv_int32 4),
      st_arrays = [64 \<mapsto> ex_array], st_maps = Map.empty,
      st_arena = \<lparr>ar_top = 256, ar_end = 4096\<rparr>\<rparr>"

definition ex_array_full_arena :: upb_state where
  "ex_array_full_arena = ex_array_state\<lparr>st_arena := \<lparr>ar_top = 256, ar_end = 256\<rparr>\<rparr>"

section \<open>Lemmas\<close>

lemma not_bit_aligned: "p mod 8 = 0 \<Longrightarrow> n < 3 \<Longrightarrow> \<not> bit (p::nat) n"
proof
  assume "p mod 8 = 0" "n < 3" "bit p n"
  then have "bit (take_bit 3 p) n" by (simp add: bit_take_bit_iff)
  moreover have "take_bit 3 p = 0" using \<open>p mod 8 = 0\<close> by (simp add: take_bit_eq_mod)
  ultimately show False by simp
qed

lemma bit_lt_8: "l < 8 \<Longrightarrow> bit (l::nat) n \<Longrightarrow> n < 3"
proof (rule ccontr)
  assume a: "l < 8" "bit l n" "\<not> n < 3"
  then have "(8::nat) \<le> 2 ^ n" using power_increasing[of 3 n "2::nat"] by simp
  with a have "l div 2 ^ n = 0" by simp
  with a(2) show False by (simp add: bit_iff_odd)
qed

lemma bit_seven: "bit (7::64 word) n \<longleftrightarrow> n < 3"
proof -
  have "bit (mask 3 :: 64 word) n \<longleftrightarrow> possible_bit TYPE(64 word) n \<and> n < 3"
    by (rule bit_mask_iff)
  moreover have "(mask 3 :: 64 word) = 7" by (simp add: mask_eq_exp_minus_1)
  ultimately show ?thesis by auto
qed

lemma upb_tag_arrptr_and_7:
  assumes "p mod 8 = 0" "l < 8"
  shows "upb_tag_arrptr p l AND 7 = word_of_nat l"
proof (rule bit_eqI)
  fix n assume "possible_bit TYPE(64 word) n"
  show "bit (upb_tag_arrptr p l AND 7) n = bit (word_of_nat l :: 64 word) n"
    using assms bit_seven[of n] not_bit_aligned[of p n] bit_lt_8[of l n]
    by (auto simp: upb_tag_arrptr_def bit_simps)
qed

lemma upb_tag_arrptr_and_not_7:
  assumes "p mod 8 = 0" "l < 8"
  shows "upb_tag_arrptr p l AND NOT 7 = word_of_nat p"
proof (rule bit_eqI)
  fix n assume "possible_bit TYPE(64 word) n"
  then show "bit (upb_tag_arrptr p l AND NOT 7) n = bit (word_of_nat p :: 64 word) n"
    using assms bit_seven[of n] not_bit_aligned[of p n] bit_lt_8[of l n]
    by (auto simp: upb_tag_arrptr_def bit_simps)
qed

lemma upb_array_lg2_tag:
  "arr_data arr = upb_tag_arrptr p l \<Longrightarrow> p mod 8 = 0 \<Longrightarrow> l < 8 \<Longrightarrow> upb_array_lg2 arr = l"
  by (simp add: upb_array_lg2_def upb_tag_arrptr_and_7 unat_of_nat)

lemma upb_array_ptr_tag:
  "arr_data arr = upb_tag_arrptr p l \<Longrightarrow> p mod 8 = 0 \<Longrightarrow> l < 8 \<Longrightarrow> p < 2 ^ 64 \<Longrightarrow>
     upb_array_ptr arr = p"
  using upb_tag_arrptr_and_not_7[of p l] by (simp add: upb_array_ptr_def unat_of_nat)

lemma upb_array_lg2_lt_8: "upb_array_lg2 arr < 8"
proof -
  have "unat (arr_data arr AND 7) \<le> unat (7::64 word)"
    by (rule word_and_le1 [THEN word_le_nat_alt [THEN iffD1]])
  then show ?thesis by (simp add: upb_array_lg2_def)
qed

lemma upb_array_grow_Some:
  "0 < n \<Longrightarrow> \<exists>r. upb_array_grow n m = Some r \<and> m \<le> r \<and> n \<le> r \<and> (r = n \<or> r < 2 * m)"
proof (induction "m - n" arbitrary: n rule: less_induct)
  case less
  show ?case
  proof (cases "n < m")
    case True
    then have "m - n * 2 < m - n" using less.prems by simp
    with less.hyps[of "n * 2"] less.prems obtain r where
      r: "upb_array_grow (n * 2) m = Some r" "m \<le> r" "n * 2 \<le> r" "r = n * 2 \<or> r < 2 * m"
      by auto
    then have "r < 2 * m" using True by auto
    with r True show ?thesis by (subst upb_array_grow.simps) auto
  next
    case False
    then show ?thesis by (subst upb_array_grow.simps) auto
  qed
qed

lemma upb_array_grow_ge:
  "upb_array_grow n m = Some r \<Longrightarrow> 0 < n \<Longrightarrow> m \<le> r \<and> n \<le> r \<and> (n < m \<longrightarrow> 2 * n \<le> r)"
proof (induction "m - n" arbitrary: n rule: less_induct)
  case less
  show ?case
  proof (cases "n < m")
    case True
    with less.prems have r: "upb_array_grow (n * 2) m = Some r"
      by (subst (asm) upb_array_grow.simps) simp
    have "m - n * 2 < m - n" using True less.prems by simp
    from less.hyps[OF this r] less.prems True show ?thesis by auto
  next
    case False
    with less.prems show ?thesis by (subst (asm) upb_array_grow.simps) auto
  qed
qed

lemma upb_array_realloc_False:
  "upb_array_realloc st a m = Inr (False, st') \<Longrightarrow> st' = st"
  by (auto simp: upb_array_realloc_def Let_def split: option.splits prod.splits)

lemma upb_arena_realloc_Some:
  assumes "upb_arena_realloc st ptr old sz = Some (p, st1)"
  obtains st2 where "upb_malloc st sz = Some (p, st2)"
    and "st1 = (if 0 < old then st2\<lparr>st_mem := mem_write (st_mem st) p (mem_read (st_mem st) ptr old)\<rparr> else st2)"
  using assms by (auto simp: upb_arena_realloc_def upb_malloc_Some split: option.splits)

lemma upb_array_realloc_True:
  assumes "upb_array_realloc st a m = Inr (True, st')" "st_arrays st a = Some arr"
  obtains new_size p st1 where
    "upb_array_grow (max (arr_size arr) 4) m = Some new_size"
    "upb_arena_realloc st (upb_array_ptr arr) (push_bit (upb_array_lg2 arr) (arr_size arr))
       (push_bit (upb_array_lg2 arr) new_size) = Some (p, st1)"
    "st' = st1\<lparr>st_arrays := (st_arrays st1)(a \<mapsto>
       arr\<lparr>arr_data := upb_tag_arrptr p (upb_array_lg2 arr), arr_size := new_size\<rparr>)\<rparr>"
  using assms by (auto simp: upb_array_realloc_def Let_def split: option.splits)

lemma mult_succ_le: "i < (n::nat) \<Longrightarrow> i * w + w \<le> n * w"
  by (metis add.commute mult_Suc mult_le_mono1 Suc_leI)

lemma upb_array_realloc_True_facts:
  assumes re: "upb_array_realloc st a m = Inr (True, st')" and arr: "st_arrays st a = Some arr"
    and wf: "arena_wf (st_arena st)" and len: "arr_len arr \<le> arr_size arr"
  shows "\<exists>arr'. st_arrays st' = (st_arrays st)(a \<mapsto> arr') \<and>
           upb_array_elems st' arr' = upb_array_elems st arr \<and>
           arr_len arr' = arr_len arr \<and> upb_array_lg2 arr' = upb_array_lg2 arr \<and>
           m \<le> arr_size arr' \<and> max (arr_size arr) 4 \<le> arr_size arr' \<and>
           (max (arr_size arr) 4 < m \<longrightarrow> 2 * max (arr_size arr) 4 \<le> arr_size arr') \<and>
           upb_array_ptr arr' mod 8 = 0 \<and> ar_top (st_arena st) \<le> upb_array_ptr arr' \<and>
           upb_array_ptr arr' + push_bit (upb_array_lg2 arr') (arr_size arr') \<le> ar_top (st_arena st') \<and>
           arena_wf (st_arena st') \<and> st_maps st' = st_maps st \<and>
           ar_end (st_arena st') = ar_end (st_arena st) \<and> upb_state_grows st st'"
proof -
  let ?lg = "upb_array_lg2 arr"
  obtain new_size p st1 where g: "upb_array_grow (max (arr_size arr) 4) m = Some new_size"
    and r: "upb_arena_realloc st (upb_array_ptr arr) (push_bit ?lg (arr_size arr)) (push_bit ?lg new_size)
              = Some (p, st1)"
    and st': "st' = st1\<lparr>st_arrays := (st_arrays st1)(a \<mapsto>
                arr\<lparr>arr_data := upb_tag_arrptr p ?lg, arr_size := new_size\<rparr>)\<rparr>"
    using upb_array_realloc_True[OF re arr] by blast
  obtain st2 where mal: "upb_malloc st (push_bit ?lg new_size) = Some (p, st2)"
    and st1: "st1 = (if 0 < push_bit ?lg (arr_size arr)
                     then st2\<lparr>st_mem := mem_write (st_mem st) p
                                (mem_read (st_mem st) (upb_array_ptr arr) (push_bit ?lg (arr_size arr)))\<rparr>
                     else st2)"
    using upb_arena_realloc_Some[OF r] by blast
  note mw = upb_malloc_wf[OF mal wf]
  have l8: "?lg < 8" by (rule upb_array_lg2_lt_8)
  have gs: "m \<le> new_size" "max (arr_size arr) 4 \<le> new_size"
    "max (arr_size arr) 4 < m \<longrightarrow> 2 * max (arr_size arr) 4 \<le> new_size"
    using upb_array_grow_ge[OF g] by auto
  have npos: "0 < push_bit ?lg new_size" using gs(2) by (simp add: push_bit_eq_mult)
  have top1: "ar_top (st_arena st1) = ar_top (st_arena st2)" "arena_wf (st_arena st1)"
    "st_arrays st1 = st_arrays st" "st_maps st1 = st_maps st" "ar_end (st_arena st1) = ar_end (st_arena st)"
    using st1 mw by simp_all
  have p64: "p < 2 ^ 64"
    using mw(3) npos mw(1) by (simp add: arena_wf_def)
  define arr' where "arr' = arr\<lparr>arr_data := upb_tag_arrptr p ?lg, arr_size := new_size\<rparr>"
  have ptr': "upb_array_ptr arr' = p" and lg': "upb_array_lg2 arr' = ?lg"
    using mw(5) l8 p64 upb_array_ptr_tag[of arr' p ?lg] upb_array_lg2_tag[of arr' p ?lg]
    by (simp_all add: arr'_def)
  have len': "arr_len arr' = arr_len arr" by (simp add: arr'_def)
  have elems1: "upb_array_elems st1 arr' = upb_array_elems st arr"
  proof (cases "0 < push_bit ?lg (arr_size arr)")
    case True
    then have mem1: "st_mem st1 = mem_write (st_mem st) p
                       (mem_read (st_mem st) (upb_array_ptr arr) (push_bit ?lg (arr_size arr)))"
      using st1 by simp
    show ?thesis
      unfolding upb_array_elems_def len'
    proof (rule map_cong[OF refl])
      fix i assume "i \<in> set [0..<arr_len arr]"
      then have "i < arr_size arr" using len by simp
      then have b: "i * 2 ^ ?lg + 2 ^ ?lg \<le> arr_size arr * 2 ^ ?lg" by (rule mult_succ_le)
      show "mem_read (st_mem st1) (upb_array_slot arr' i) (upb_array_elem_size arr') =
            mem_read (st_mem st) (upb_array_slot arr i) (upb_array_elem_size arr)"
        using b by (simp add: mem1 upb_array_slot_def upb_array_elem_size_def ptr' lg' push_bit_eq_mult
            mem_read_write_inside take_drop_mem_read)
    qed
  next
    case False
    then have "arr_len arr = 0" using len by (simp add: push_bit_eq_mult)
    then show ?thesis by (simp add: upb_array_elems_def len')
  qed
  have "st_arrays st' = (st_arrays st)(a \<mapsto> arr')" using st' top1 by (simp add: arr'_def)
  moreover have "upb_array_elems st' arr' = upb_array_elems st arr"
    using elems1 st' by (simp add: upb_array_elems_def)
  moreover have "arena_wf (st_arena st')" "st_maps st' = st_maps st" "ar_end (st_arena st') = ar_end (st_arena st)"
    "ar_top (st_arena st') = ar_top (st_arena st2)"
    using st' top1 st1 by simp_all
  moreover have "upb_state_grows st st'"
  proof -
    have "upb_state_grows st st1"
      using upb_state_grows_write[OF upb_malloc_grows[OF mal], of p] upb_malloc_grows[OF mal] mw(2,8) st1
      by (cases "0 < push_bit ?lg (arr_size arr)") simp_all
    then show ?thesis by (simp add: st')
  qed
  ultimately show ?thesis
    using gs mw len' ptr' lg' by (auto simp: arr'_def)
qed

lemma length_upb_array_elems [simp]: "length (upb_array_elems st arr) = arr_len arr"
  by (simp add: upb_array_elems_def)

lemma upb_array_geometry_len [simp]:
  "upb_array_slot (arr\<lparr>arr_len := n\<rparr>) = upb_array_slot arr"
  "upb_array_elem_size (arr\<lparr>arr_len := n\<rparr>) = upb_array_elem_size arr"
  "upb_array_ptr (arr\<lparr>arr_len := n\<rparr>) = upb_array_ptr arr"
  "upb_array_lg2 (arr\<lparr>arr_len := n\<rparr>) = upb_array_lg2 arr"
  by (simp_all add: upb_array_slot_def upb_array_elem_size_def upb_array_ptr_def upb_array_lg2_def fun_eq_iff)

lemma upb_array_elems_mem [simp]:
  "upb_array_elems (st\<lparr>st_arrays := x\<rparr>) arr = upb_array_elems st arr"
  "upb_array_elems (st\<lparr>st_arena := y\<rparr>) arr = upb_array_elems st arr"
  "upb_array_elems (st\<lparr>st_maps := z\<rparr>) arr = upb_array_elems st arr"
  by (simp_all add: upb_array_elems_def)

lemma upb_array_elems_snoc:
  "arr_len arr = n \<Longrightarrow> upb_array_elems st (arr\<lparr>arr_len := Suc n\<rparr>) =
     upb_array_elems st arr @ [mem_read (st_mem st) (upb_array_slot arr n) (upb_array_elem_size arr)]"
  by (simp add: upb_array_elems_def)

lemma upb_array_slots_disjoint:
  assumes "i \<noteq> j"
  shows "disjoint_range (upb_array_slot arr j) (upb_array_elem_size arr)
                               (upb_array_slot arr i) (upb_array_elem_size arr)"
proof (cases "j < i")
  case True
  then have "j * 2 ^ upb_array_lg2 arr + 2 ^ upb_array_lg2 arr \<le> i * 2 ^ upb_array_lg2 arr"
    by (rule mult_succ_le)
  then show ?thesis
    by (simp add: disjoint_range_def upb_array_slot_def upb_array_elem_size_def push_bit_eq_mult)
next
  case False
  with assms have "i < j" by simp
  then have "i * 2 ^ upb_array_lg2 arr + 2 ^ upb_array_lg2 arr \<le> j * 2 ^ upb_array_lg2 arr"
    by (rule mult_succ_le)
  then show ?thesis
    by (simp add: disjoint_range_def upb_array_slot_def upb_array_elem_size_def push_bit_eq_mult)
qed

lemma upb_array_elems_write_slot:
  assumes "i < arr_len arr" "length bs = upb_array_elem_size arr"
    and "st_mem st' = mem_write (st_mem st) (upb_array_slot arr i) bs"
  shows "upb_array_elems st' arr = (upb_array_elems st arr)[i := bs]"
proof (rule nth_equalityI)
  fix j assume "j < length (upb_array_elems st' arr)"
  then have j: "j < arr_len arr" by simp
  show "upb_array_elems st' arr ! j = (upb_array_elems st arr)[i := bs] ! j"
  proof (cases "j = i")
    case True
    then show ?thesis using assms by (simp add: upb_array_elems_def mem_read_write_same)
  next
    case False
    then have "i \<noteq> j" by simp
    then show ?thesis
      using assms j upb_array_slots_disjoint[of i j arr]
      by (simp add: upb_array_elems_def mem_read_write_disjoint)
  qed
qed simp

lemma upb_array_set_Inr:
  assumes "upb_array_set st a i v = Inr st'" "st_arrays st a = Some arr"
  shows "i < arr_len arr"
    "st' = st\<lparr>st_mem := mem_write (st_mem st) (upb_array_slot arr i) (take (upb_array_elem_size arr) v)\<rparr>"
  using assms
  by (auto simp: upb_array_set_def upb_array_slot_def upb_array_elem_size_def Let_def split: if_splits)

lemma upb_array_append_True:
  assumes "upb_array_append st a v = Inr (True, st')" "st_arrays st a = Some arr"
  obtains st1 arr1 where "upb_array_realloc st a (arr_len arr + 1) = Inr (True, st1)"
    "st_arrays st1 a = Some arr1"
    "upb_array_set (st1\<lparr>st_arrays := (st_arrays st1)(a \<mapsto> arr1\<lparr>arr_len := arr_len arr1 + 1\<rparr>)\<rparr>) a
        (arr_len arr1) v = Inr st'"
  using assms
  by (auto simp: upb_array_append_def Let_def split: sum.splits prod.splits option.splits bool.splits)

lemma upb_array_append_False:
  "upb_array_append st a v = Inr (False, st') \<Longrightarrow> st' = st"
  by (auto simp: upb_array_append_def Let_def
      split: option.splits sum.splits prod.splits bool.splits dest: upb_array_realloc_False)

lemma upb_array_realloc_live:
  assumes "st_arrays st a = Some arr"
  shows "upb_array_realloc st a m = Inr (False, st) \<or>
         (\<exists>st' arr'. upb_array_realloc st a m = Inr (True, st') \<and> st_arrays st' a = Some arr')"
proof -
  have "0 < max (arr_size arr) 4" by simp
  from upb_array_grow_Some[OF this, of m] obtain r
    where "upb_array_grow (max (arr_size arr) 4) m = Some r" by blast
  with assms show ?thesis
    by (auto simp: upb_array_realloc_def Let_def split: option.splits)
qed

lemma array_wf_mono: "array_wf l arr \<Longrightarrow> l \<le> l' \<Longrightarrow> array_wf l' arr"
  by (auto simp: array_wf_def)

lemma upb_array_realloc_wf:
  assumes "upb_array_realloc st a m = Inr (True, st')" "st_arrays st a = Some arr"
    and "arena_wf (st_arena st)" "arrays_wf st"
  shows "arena_wf (st_arena st') \<and> arrays_wf st'"
proof -
  have awf: "array_wf (ar_top (st_arena st)) arr" using assms(2,4) by (simp add: arrays_wf_def)
  then have len: "arr_len arr \<le> arr_size arr" by (simp add: array_wf_def)
  obtain arr' where f: "st_arrays st' = (st_arrays st)(a \<mapsto> arr')"
    "arr_len arr' = arr_len arr" "upb_array_lg2 arr' = upb_array_lg2 arr" "m \<le> arr_size arr'"
    "upb_array_ptr arr' mod 8 = 0" "ar_top (st_arena st) \<le> upb_array_ptr arr'"
    "upb_array_ptr arr' + push_bit (upb_array_lg2 arr') (arr_size arr') \<le> ar_top (st_arena st')"
    "arena_wf (st_arena st')" "max (arr_size arr) 4 \<le> arr_size arr'"
    using upb_array_realloc_True_facts[OF assms(1,2,3) len] by (elim exE conjE) (rule that; assumption)
  have mono: "ar_top (st_arena st) \<le> ar_top (st_arena st')"
    using f(6,7) by linarith
  have lg: "upb_array_lg2 arr' \<le> 4" using awf f(3) by (simp add: array_wf_def)
  have "arr_len arr' \<le> arr_size arr'" using f(2,9) len by linarith
  then have new: "array_wf (ar_top (st_arena st')) arr'"
    using lg f(5,7) unfolding array_wf_def by blast
  have old: "array_wf (ar_top (st_arena st')) x" if "st_arrays st b = Some x" for b x
    using assms(4) that mono array_wf_mono unfolding arrays_wf_def by blast
  have "arrays_wf st'"
    unfolding arrays_wf_def f(1) using new old by auto
  then show ?thesis using f(8) by blast
qed

lemma upb_array_set_wf:
  "upb_array_set st a i v = Inr st' \<Longrightarrow> st_arrays st' = st_arrays st \<and> st_arena st' = st_arena st \<and> st_maps st' = st_maps st"
  by (auto simp: upb_array_set_def Let_def split: option.splits if_splits)

subsection \<open>Owned bytes and frames\<close>

text \<open>
  \<open>upb_array_new\<close> either fails and changes nothing, or adds one empty, well-formed
  array whose header is the block just allocated at the old arena top.
\<close>

lemma upb_array_new_facts:
  assumes new: "upb_array_new st t = (p, st')" and wf: "arena_wf (st_arena st)"
  shows "arena_wf (st_arena st') \<and> upb_state_grows st st' \<and> st_maps st' = st_maps st"
    and "p \<noteq> 0 \<Longrightarrow> p = ar_top (st_arena st) \<and> p + sizeof_upb_array \<le> ar_top (st_arena st') \<and>
           st_arrays st' = (st_arrays st)(p \<mapsto> \<lparr>arr_data = upb_tag_arrptr 0 (upb_fieldtype_to_sizelg2 t),
                                                 arr_len = 0, arr_size = 0\<rparr>)"
    and "p = 0 \<Longrightarrow> st' = st"
    and "arrays_wf st \<Longrightarrow> arrays_wf st'"
proof -
  define hdr where "hdr = \<lparr>arr_data = upb_tag_arrptr 0 (upb_fieldtype_to_sizelg2 t), arr_len = 0, arr_size = 0\<rparr>"
  have hwf: "array_wf l hdr" for l
    using upb_fieldtype_to_sizelg2_le_4[of t] upb_array_lg2_tag[of hdr 0 "upb_fieldtype_to_sizelg2 t"]
      upb_array_ptr_tag[of hdr 0 "upb_fieldtype_to_sizelg2 t"]
    by (simp add: array_wf_def hdr_def)
  consider (fail) "p = 0" "st' = st"
    | (ok) st1 where "upb_malloc st sizeof_upb_array = Some (p, st1)"
        "st' = st1\<lparr>st_arrays := (st_arrays st1)(p \<mapsto> hdr)\<rparr>"
    using new by (auto simp: upb_array_new_def hdr_def split: option.splits)
  then have all: "(arena_wf (st_arena st') \<and> upb_state_grows st st' \<and> st_maps st' = st_maps st) \<and>
    (p \<noteq> 0 \<longrightarrow> p = ar_top (st_arena st) \<and> p + sizeof_upb_array \<le> ar_top (st_arena st') \<and>
       st_arrays st' = (st_arrays st)(p \<mapsto> hdr)) \<and> (p = 0 \<longrightarrow> st' = st) \<and> (arrays_wf st \<longrightarrow> arrays_wf st')"
  proof cases
    case fail
    then show ?thesis using wf by simp
  next
    case ok
    note mw = upb_malloc_wf[OF ok(1) wf]
    have g: "upb_state_grows st st'" using upb_malloc_grows[OF ok(1)] by (simp add: ok(2))
    have "arrays_wf st \<Longrightarrow> arrays_wf st'"
      using mw(7,9) hwf by (auto simp: ok(2) arrays_wf_def intro: array_wf_mono)
    then show ?thesis using mw g by (simp add: ok(2))
  qed
  then show "arena_wf (st_arena st') \<and> upb_state_grows st st' \<and> st_maps st' = st_maps st"
    "p = 0 \<Longrightarrow> st' = st" "arrays_wf st \<Longrightarrow> arrays_wf st'"
    "p \<noteq> 0 \<Longrightarrow> p = ar_top (st_arena st) \<and> p + sizeof_upb_array \<le> ar_top (st_arena st') \<and>
           st_arrays st' = (st_arrays st)(p \<mapsto> \<lparr>arr_data = upb_tag_arrptr 0 (upb_fieldtype_to_sizelg2 t),
                                                 arr_len = 0, arr_size = 0\<rparr>)"
    by (simp_all add: hdr_def)
qed

lemma upb_array_bytes_state [simp]:
  "upb_array_bytes (st\<lparr>st_mem := m\<rparr>) = upb_array_bytes st"
  "upb_array_bytes (st\<lparr>st_maps := M\<rparr>) = upb_array_bytes st"
  "upb_array_bytes (st\<lparr>st_arena := A\<rparr>) = upb_array_bytes st"
  "arrays_apart (st\<lparr>st_mem := m\<rparr>) = arrays_apart st"
  "arrays_apart (st\<lparr>st_maps := M\<rparr>) = arrays_apart st"
  "arrays_wf (st\<lparr>st_mem := m\<rparr>) = arrays_wf st"
  "arrays_wf (st\<lparr>st_maps := M\<rparr>) = arrays_wf st"
  by (simp_all add: upb_array_bytes_def arrays_apart_def arrays_wf_def fun_eq_iff)

lemma upb_array_buf_len [simp]: "upb_array_buf (arr\<lparr>arr_len := n\<rparr>) = upb_array_buf arr"
  by (simp add: upb_array_buf_def fun_eq_iff)

lemma upb_array_buf_below: "array_wf l arr \<Longrightarrow> upb_array_buf arr x \<Longrightarrow> x < l"
  by (auto simp: upb_array_buf_def array_wf_def upb_array_slot_def)

lemma upb_array_bytes_below: "arrays_wf st \<Longrightarrow> upb_array_bytes st x \<Longrightarrow> x < ar_top (st_arena st)"
  by (auto simp: upb_array_bytes_def arrays_wf_def dest: upb_array_buf_below)

text \<open>Slot \<open>i\<close> of an array lies in its buffer when \<open>i\<close> is below the capacity.\<close>

lemma upb_array_slot_in_buf:
  assumes "i < arr_size arr"
  shows "upb_array_ptr arr \<le> upb_array_slot arr i"
    "upb_array_slot arr i + upb_array_elem_size arr \<le> upb_array_slot arr (arr_size arr)"
proof -
  have "i * 2 ^ upb_array_lg2 arr + 2 ^ upb_array_lg2 arr \<le> arr_size arr * 2 ^ upb_array_lg2 arr"
    using assms by (rule mult_succ_le)
  then show "upb_array_ptr arr \<le> upb_array_slot arr i"
    "upb_array_slot arr i + upb_array_elem_size arr \<le> upb_array_slot arr (arr_size arr)"
    by (simp_all add: upb_array_slot_def upb_array_elem_size_def push_bit_eq_mult)
qed

text \<open>The contents of an array depend only on the bytes of its buffer.\<close>

lemma upb_array_elems_cong:
  assumes "arr_len arr \<le> arr_size arr" "\<And>x. upb_array_buf arr x \<Longrightarrow> st_mem st' x = st_mem st x"
  shows "upb_array_elems st' arr = upb_array_elems st arr"
  unfolding upb_array_elems_def
proof (rule map_cong[OF refl])
  fix i assume "i \<in> set [0..<arr_len arr]"
  then have "i < arr_size arr" using assms(1) by simp
  note b = upb_array_slot_in_buf[OF this]
  show "mem_read (st_mem st') (upb_array_slot arr i) (upb_array_elem_size arr) =
        mem_read (st_mem st) (upb_array_slot arr i) (upb_array_elem_size arr)"
    by (rule mem_read_cong) (use b assms(2) in \<open>auto simp: upb_array_buf_def\<close>)
qed

lemma upb_array_elems_grows:
  "array_wf (ar_top (st_arena st)) arr \<Longrightarrow> upb_state_grows st st' \<Longrightarrow>
     upb_array_elems st' arr = upb_array_elems st arr"
proof (rule upb_array_elems_cong)
  assume wf: "array_wf (ar_top (st_arena st)) arr" and g: "upb_state_grows st st'"
  show "arr_len arr \<le> arr_size arr" using wf by (simp add: array_wf_def)
  fix x assume "upb_array_buf arr x"
  then have "x < ar_top (st_arena st)" by (rule upb_array_buf_below[OF wf])
  then show "st_mem st' x = st_mem st x" using g by (simp add: upb_state_grows_def)
qed

lemma arrays_wf_grows:
  "arrays_wf st \<Longrightarrow> upb_state_grows st st' \<Longrightarrow> st_arrays st' = st_arrays st \<Longrightarrow> arrays_wf st'"
  by (auto simp: arrays_wf_def upb_state_grows_def intro: array_wf_mono)

text \<open>
  Replacing one array by one whose buffer starts at or above the old arena top adds
  only bytes at or above that top and keeps the buffers apart.
\<close>

lemma arrays_update_fresh:
  assumes wf: "arrays_wf st" and A: "st_arrays st' = (st_arrays st)(a \<mapsto> arr')"
    and top: "ar_top (st_arena st) \<le> upb_array_ptr arr'"
  shows "upb_array_bytes st' x \<Longrightarrow> upb_array_bytes st x \<or> ar_top (st_arena st) \<le> x"
    and "arrays_apart st \<Longrightarrow> arrays_apart st'"
proof -
  have old: "x < ar_top (st_arena st)" if "st_arrays st b = Some brr" "upb_array_buf brr x" for b brr x
    using wf that by (auto simp: arrays_wf_def dest: upb_array_buf_below)
  have new: "ar_top (st_arena st) \<le> x" if "upb_array_buf arr' x" for x
    using that top by (simp add: upb_array_buf_def)
  show "upb_array_bytes st' x \<Longrightarrow> upb_array_bytes st x \<or> ar_top (st_arena st) \<le> x"
    using new by (auto simp: upb_array_bytes_def A split: if_splits)
  show "arrays_apart st \<Longrightarrow> arrays_apart st'"
    unfolding arrays_apart_def A using old new by (metis fun_upd_other fun_upd_same leD option.inject)
qed

text \<open>
  \<open>_upb_array_realloc\<close> and \<open>upb_array_append\<close> only allocate and write fresh memory:
  they keep the arena and the arrays well formed, change no map, and either keep the
  array store or replace the one array by one with a fresh buffer.
\<close>

lemma upb_array_realloc_frame:
  assumes re: "upb_array_realloc st a m = Inr (b, st')" and wf: "arena_wf (st_arena st)" "arrays_wf st"
  shows "arena_wf (st_arena st') \<and> arrays_wf st' \<and> upb_state_grows st st' \<and> st_maps st' = st_maps st \<and>
         (st_arrays st' = st_arrays st \<or>
          (\<exists>arr'. st_arrays st' = (st_arrays st)(a \<mapsto> arr') \<and> ar_top (st_arena st) \<le> upb_array_ptr arr'))"
proof (cases b)
  case False
  then have "st' = st" using re upb_array_realloc_False[of st a m st'] by simp
  then show ?thesis using wf by simp
next
  case True
  then have re': "upb_array_realloc st a m = Inr (True, st')" using re by simp
  obtain arr where arr: "st_arrays st a = Some arr"
    using re by (auto simp: upb_array_realloc_def split: option.splits)
  have len: "arr_len arr \<le> arr_size arr" using wf(2) arr by (simp add: arrays_wf_def array_wf_def)
  show ?thesis
    using upb_array_realloc_True_facts[OF re' arr wf(1) len] upb_array_realloc_wf[OF re' arr wf] by blast
qed

lemma upb_array_append_frame:
  assumes wf: "arena_wf (st_arena st)" "arrays_wf st" and ap: "upb_array_append st a v = Inr (b, st')"
  shows "arena_wf (st_arena st') \<and> arrays_wf st' \<and> upb_state_grows st st' \<and> st_maps st' = st_maps st \<and>
         (st_arrays st' = st_arrays st \<or>
          (\<exists>arr'. st_arrays st' = (st_arrays st)(a \<mapsto> arr') \<and> ar_top (st_arena st) \<le> upb_array_ptr arr'))"
proof (cases b)
  case False
  with ap have "st' = st" by (simp add: upb_array_append_False)
  with wf show ?thesis by simp
next
  case True
  from ap True have ap': "upb_array_append st a v = Inr (True, st')" by simp
  from ap obtain arr where arr: "st_arrays st a = Some arr"
    by (auto simp: upb_array_append_def split: option.splits)
  obtain st1 arr1 where re: "upb_array_realloc st a (arr_len arr + 1) = Inr (True, st1)"
    and a1: "st_arrays st1 a = Some arr1"
    and se: "upb_array_set (st1\<lparr>st_arrays := (st_arrays st1)(a \<mapsto> arr1\<lparr>arr_len := arr_len arr1 + 1\<rparr>)\<rparr>) a
               (arr_len arr1) v = Inr st'"
    using upb_array_append_True[OF ap' arr] by blast
  have len: "arr_len arr \<le> arr_size arr" using wf(2) arr by (simp add: arrays_wf_def array_wf_def)
  obtain arr' where f: "st_arrays st1 = (st_arrays st)(a \<mapsto> arr')" "arr_len arr' = arr_len arr"
    "arr_len arr + 1 \<le> arr_size arr'" "ar_top (st_arena st) \<le> upb_array_ptr arr'"
    "upb_state_grows st st1" "arena_wf (st_arena st1)" "st_maps st1 = st_maps st"
    using upb_array_realloc_True_facts[OF re arr wf(1) len] by (elim exE conjE) (rule that; assumption)
  have w1: "arrays_wf st1" using upb_array_realloc_wf[OF re arr wf] by simp
  have arr1: "arr1 = arr'" using a1 f(1) by simp
  define arr2 where "arr2 = arr1\<lparr>arr_len := arr_len arr1 + 1\<rparr>"
  define st2 where "st2 = st1\<lparr>st_arrays := (st_arrays st1)(a \<mapsto> arr2)\<rparr>"
  have st': "st' = st2\<lparr>st_mem := mem_write (st_mem st2) (upb_array_slot arr2 (arr_len arr1))
                 (take (upb_array_elem_size arr2) v)\<rparr>"
    using upb_array_set_Inr(2)[of st2 a "arr_len arr1" v st' arr2] se by (simp add: st2_def arr2_def)
  have "array_wf (ar_top (st_arena st1)) arr1" using w1 a1 by (simp add: arrays_wf_def)
  then have "array_wf (ar_top (st_arena st1)) arr2"
    using f(2,3) arr1 by (auto simp: array_wf_def arr2_def)
  then have w2: "arrays_wf st2" using w1 by (auto simp: arrays_wf_def st2_def)
  have "upb_state_grows st st'"
    using f(5) f(4) arr1 unfolding upb_state_grows_def
    by (auto simp: st' st2_def arr2_def upb_array_slot_def mem_write_outside)
  moreover have "st_arrays st' = (st_arrays st)(a \<mapsto> arr2)" by (simp add: st' st2_def f(1))
  moreover have "ar_top (st_arena st) \<le> upb_array_ptr arr2" using f(4) arr1 by (simp add: arr2_def)
  ultimately show ?thesis using w2 f(6,7) by (auto simp: st' st2_def)
qed

text \<open>\<open>upb_array_set\<close> changes memory only, and only inside the array's buffer.\<close>

lemma upb_array_set_frame:
  assumes se: "upb_array_set st a i v = Inr st'" and wf: "arrays_wf st"
  obtains arr where "st_arrays st a = Some arr" "st' = st\<lparr>st_mem := st_mem st'\<rparr>"
    "\<And>x. \<not> upb_array_buf arr x \<Longrightarrow> st_mem st' x = st_mem st x"
proof -
  obtain arr where arr: "st_arrays st a = Some arr"
    using se by (auto simp: upb_array_set_def split: option.splits)
  note s = upb_array_set_Inr[OF se arr]
  have "arr_len arr \<le> arr_size arr" using wf arr unfolding arrays_wf_def array_wf_def by blast
  then have "i < arr_size arr" using s(1) by linarith
  note b = upb_array_slot_in_buf[OF this]
  have "st_mem st' x = st_mem st x" if "\<not> upb_array_buf arr x" for x
  proof -
    have "x < upb_array_slot arr i \<or> upb_array_slot arr i + length (take (upb_array_elem_size arr) v) \<le> x"
      using that b by (auto simp: upb_array_buf_def)
    then show ?thesis using s(2) by (simp add: mem_write_outside)
  qed
  then show thesis using arr s(2) that by simp
qed

lemma ex_array_facts:
  "upb_array_lg2 ex_array = 2" "upb_array_ptr ex_array = 128"
  "arr_size ex_array = 4" "arr_len ex_array = 4"
  "st_arrays ex_array_state = [64 \<mapsto> ex_array]"
  "st_arena ex_array_state = \<lparr>ar_top = 256, ar_end = 4096\<rparr>"
  "st_arrays ex_array_full_arena = [64 \<mapsto> ex_array]"
  "st_arena ex_array_full_arena = \<lparr>ar_top = 256, ar_end = 256\<rparr>"
  by (simp_all add: ex_array_def upb_array_lg2_def upb_array_ptr_def upb_tag_arrptr_def
      ex_array_state_def ex_array_full_arena_def)

lemma ex_array_wf:
  "arena_wf (st_arena ex_array_state)" "array_wf (ar_top (st_arena ex_array_state)) ex_array"
  "arrays_wf ex_array_state" "upb_array_elem_size ex_array = 4"
  by (simp_all add: arena_wf_def array_wf_def arrays_wf_def ex_array_facts upb_array_elem_size_def)

lemma ex_array_grow: "upb_array_grow 4 5 = Some 8" "upb_array_grow 4 10 = Some 16"
  by (simp_all add: upb_array_grow.simps)

lemma ex_array_malloc:
  "upb_malloc ex_array_state 32 = Some (256, ex_array_state\<lparr>st_arena := \<lparr>ar_top = 288, ar_end = 4096\<rparr>\<rparr>)"
  "upb_malloc ex_array_state 64 = Some (256, ex_array_state\<lparr>st_arena := \<lparr>ar_top = 320, ar_end = 4096\<rparr>\<rparr>)"
  "upb_malloc ex_array_full_arena 32 = None"
  by (simp_all add: upb_malloc_def upb_arena_malloc_def upb_align_malloc_def ex_array_facts)

lemma ex_array_runs:
  "\<exists>st'. upb_array_append ex_array_state 64 (mv_int32 5) = Inr (True, st')"
  "\<exists>st'. upb_array_set ex_array_state 64 1 (mv_int32 99) = Inr st'"
  "\<exists>st'. upb_array_resize ex_array_state 64 10 = Inr (True, st')"
  "upb_array_append ex_array_full_arena 64 (mv_int32 5) = Inr (False, ex_array_full_arena)"
  by (simp_all add: upb_array_append_def upb_array_resize_def upb_array_realloc_def upb_arena_realloc_def
      upb_array_set_def Let_def ex_array_facts ex_array_grow ex_array_malloc)


section \<open>Properties of the array container\<close>

text \<open>
  C12. \<open>upb_array_append\<close> refines snoc: on a well-formed array in a well-formed
  arena, a successful append leaves the contents equal to the old contents followed
  by the element-width prefix of the value.  The growth reallocates and copies the
  buffer; the proof shows the copy keeps every element.
\<close>

theorem upb_array_append_refines:
  assumes wf: "arena_wf (st_arena st)" and arr: "st_arrays st a = Some arr"
    and awf: "array_wf (ar_top (st_arena st)) arr" and v: "upb_array_elem_size arr \<le> length v"
    and ap: "upb_array_append st a v = Inr (True, st')"
  shows "upb_array_contents st' a = Some (upb_array_elems st arr @ [take (upb_array_elem_size arr) v])"
proof -
  obtain st1 arr1 where re: "upb_array_realloc st a (arr_len arr + 1) = Inr (True, st1)"
    and a1: "st_arrays st1 a = Some arr1"
    and se: "upb_array_set (st1\<lparr>st_arrays := (st_arrays st1)(a \<mapsto> arr1\<lparr>arr_len := arr_len arr1 + 1\<rparr>)\<rparr>) a
               (arr_len arr1) v = Inr st'"
    using upb_array_append_True[OF ap arr] by blast
  have len: "arr_len arr \<le> arr_size arr" using awf by (simp add: array_wf_def)
  obtain arr' where f: "st_arrays st1 = (st_arrays st)(a \<mapsto> arr')"
    "upb_array_elems st1 arr' = upb_array_elems st arr" "arr_len arr' = arr_len arr"
    "upb_array_lg2 arr' = upb_array_lg2 arr"
    using upb_array_realloc_True_facts[OF re arr wf len] by blast
  have a': "arr1 = arr'" using a1 f(1) by simp
  let ?st2 = "st1\<lparr>st_arrays := (st_arrays st1)(a \<mapsto> arr'\<lparr>arr_len := arr_len arr' + 1\<rparr>)\<rparr>"
  let ?arr2 = "arr'\<lparr>arr_len := arr_len arr' + 1\<rparr>"
  have a2: "st_arrays ?st2 a = Some ?arr2" by simp
  note s = upb_array_set_Inr[OF se[unfolded a'] a2]
  have w: "upb_array_elem_size ?arr2 = upb_array_elem_size arr"
    using f(4) by (simp add: upb_array_elem_size_def)
  have "upb_array_elems st' ?arr2 =
          (upb_array_elems ?st2 ?arr2)[arr_len arr' := take (upb_array_elem_size arr) v]"
    using s v w by (intro upb_array_elems_write_slot) simp_all
  also have "\<dots> = upb_array_elems st arr @ [take (upb_array_elem_size arr) v]"
    using f list_update_length[of "upb_array_elems st arr" _ "[]" "take (upb_array_elem_size arr) v"]
    by (simp add: upb_array_elems_snoc)
  finally show ?thesis using s(2) by (simp add: upb_array_contents_def)
qed

theorem upb_array_append_refines_witness:
  "arena_wf (st_arena ex_array_state) \<and> st_arrays ex_array_state 64 = Some ex_array \<and>
   array_wf (ar_top (st_arena ex_array_state)) ex_array \<and>
   upb_array_elem_size ex_array \<le> length (mv_int32 5) \<and>
   (\<exists>st'. upb_array_append ex_array_state 64 (mv_int32 5) = Inr (True, st') \<and>
      upb_array_contents st' 64 =
        Some (upb_array_elems ex_array_state ex_array @ [take (upb_array_elem_size ex_array) (mv_int32 5)]))"
proof -
  have h: "arena_wf (st_arena ex_array_state)" "st_arrays ex_array_state 64 = Some ex_array"
    "array_wf (ar_top (st_arena ex_array_state)) ex_array" "upb_array_elem_size ex_array \<le> length (mv_int32 5)"
    using ex_array_wf by (simp_all add: ex_array_facts)
  obtain st' where ap: "upb_array_append ex_array_state 64 (mv_int32 5) = Inr (True, st')"
    using ex_array_runs(1) by blast
  show ?thesis using h ap upb_array_append_refines[OF h ap] by blast
qed

text \<open>
  C13. \<open>upb_array_set\<close> refines list update: a successful set at index \<open>i\<close>
  replaces element \<open>i\<close> by the element-width prefix of the value and keeps the others.
\<close>

theorem upb_array_set_refines:
  assumes "st_arrays st a = Some arr" "upb_array_elem_size arr \<le> length v"
    and "upb_array_set st a i v = Inr st'"
  shows "upb_array_contents st' a = Some ((upb_array_elems st arr)[i := take (upb_array_elem_size arr) v])"
proof -
  note s = upb_array_set_Inr[OF assms(3,1)]
  have "upb_array_elems st' arr = (upb_array_elems st arr)[i := take (upb_array_elem_size arr) v]"
    using s assms(2) by (intro upb_array_elems_write_slot) simp_all
  moreover have "st_arrays st' a = Some arr" using s assms(1) by simp
  ultimately show ?thesis by (simp add: upb_array_contents_def)
qed

theorem upb_array_set_refines_witness:
  "st_arrays ex_array_state 64 = Some ex_array \<and> upb_array_elem_size ex_array \<le> length (mv_int32 99) \<and>
   (\<exists>st'. upb_array_set ex_array_state 64 1 (mv_int32 99) = Inr st' \<and>
      upb_array_contents st' 64 =
        Some ((upb_array_elems ex_array_state ex_array)[1 := take (upb_array_elem_size ex_array) (mv_int32 99)]))"
proof -
  have h: "st_arrays ex_array_state 64 = Some ex_array" "upb_array_elem_size ex_array \<le> length (mv_int32 99)"
    using ex_array_wf by (simp_all add: ex_array_facts)
  obtain st' where se: "upb_array_set ex_array_state 64 1 (mv_int32 99) = Inr st'"
    using ex_array_runs(2) by blast
  show ?thesis using h se upb_array_set_refines[OF h se] by blast
qed

text \<open>
  C14. \<open>upb_array_get\<close> is indexing into the contents, and an index past the length
  is the failed \<open>UPB_ASSERT(i < arr->len)\<close>.
\<close>

theorem upb_array_get_refines:
  assumes "st_arrays st a = Some arr"
  shows "upb_array_get st a i =
           (if i < arr_len arr then Inr (upb_array_elems st arr ! i) else Inl UPB_ASSERT_FAILED)"
  using assms
  by (simp add: upb_array_get_def upb_array_elems_def upb_array_slot_def upb_array_elem_size_def Let_def)

theorem upb_array_get_refines_witness:
  "st_arrays ex_array_state 64 = Some ex_array \<and>
   upb_array_get ex_array_state 64 1 = Inr (upb_array_elems ex_array_state ex_array ! 1) \<and>
   upb_array_get ex_array_state 64 7 = Inl UPB_ASSERT_FAILED"
proof -
  have h: "st_arrays ex_array_state 64 = Some ex_array" by (simp add: ex_array_facts)
  show ?thesis using h upb_array_get_refines[OF h, of 1] upb_array_get_refines[OF h, of 7]
    by (simp add: ex_array_facts)
qed

text \<open>
  C15. \<open>upb_array_append\<close> on a live array always returns: the doubling loop of
  \<open>_upb_array_realloc\<close> starts from \<open>max(size, 4) > 0\<close> and terminates, and the
  assertion of the final \<open>upb_array_set\<close> holds.
\<close>

theorem upb_array_append_total:
  assumes "st_arrays st a \<noteq> None"
  shows "\<exists>b st'. upb_array_append st a v = Inr (b, st')"
proof -
  obtain arr where arr: "st_arrays st a = Some arr" using assms by auto
  show ?thesis
    using upb_array_realloc_live[OF arr, of "arr_len arr + 1"] arr
    by (auto simp: upb_array_append_def upb_array_set_def Let_def)
qed

theorem upb_array_append_total_witness:
  "st_arrays ex_array_state 64 \<noteq> None \<and> (\<exists>b st'. upb_array_append ex_array_state 64 (mv_int32 5) = Inr (b, st'))"
proof -
  have h: "st_arrays ex_array_state 64 \<noteq> None" by (simp add: ex_array_facts)
  show ?thesis using h upb_array_append_total[OF h] by blast
qed

text \<open>
  C16. \<open>upb_array_append\<close> returns \<open>false\<close> only when the arena cannot supply the
  grown buffer, and then the state is unchanged (spec section 7).
\<close>

theorem upb_array_append_fail_unchanged:
  assumes "upb_array_append st a v = Inr (False, st')"
  shows "st' = st \<and>
         (\<exists>arr new_size. st_arrays st a = Some arr \<and>
            upb_array_grow (max (arr_size arr) 4) (arr_len arr + 1) = Some new_size \<and>
            upb_malloc st (push_bit (upb_array_lg2 arr) new_size) = None)"
  using assms
  by (auto simp: upb_array_append_def upb_array_realloc_def upb_arena_realloc_def Let_def
      split: option.splits sum.splits prod.splits bool.splits)

theorem upb_array_append_fail_unchanged_witness:
  "upb_array_append ex_array_full_arena 64 (mv_int32 5) = Inr (False, ex_array_full_arena) \<and>
   (\<exists>arr new_size. st_arrays ex_array_full_arena 64 = Some arr \<and>
      upb_array_grow (max (arr_size arr) 4) (arr_len arr + 1) = Some new_size \<and>
      upb_malloc ex_array_full_arena (push_bit (upb_array_lg2 arr) new_size) = None)"
  using ex_array_runs(4) upb_array_append_fail_unchanged[OF ex_array_runs(4)] by blast

text \<open>
  C17. \<open>upb_array_resize\<close> never changes the logical length or the contents: it is
  \<open>_upb_array_realloc\<close>, which only grows the capacity.  Resizing the 4-element array
  to 10 leaves \<open>upb_array_size\<close> at 4.
\<close>

theorem upb_array_resize_keeps_contents:
  assumes wf: "arena_wf (st_arena st)" and arr: "st_arrays st a = Some arr"
    and awf: "array_wf (ar_top (st_arena st)) arr"
    and rs: "upb_array_resize st a n = Inr (b, st')"
  shows "upb_array_contents st' a = Some (upb_array_elems st arr) \<and> upb_array_size st' a = Inr (arr_len arr)"
proof (cases b)
  case True
  have len: "arr_len arr \<le> arr_size arr" using awf by (simp add: array_wf_def)
  from rs True have "upb_array_realloc st a n = Inr (True, st')" by (simp add: upb_array_resize_def)
  from upb_array_realloc_True_facts[OF this arr wf len] obtain arr' where
    "st_arrays st' = (st_arrays st)(a \<mapsto> arr')" "upb_array_elems st' arr' = upb_array_elems st arr"
    "arr_len arr' = arr_len arr" by blast
  then show ?thesis by (simp add: upb_array_contents_def upb_array_size_def)
next
  case False
  with rs have "st' = st" by (simp add: upb_array_resize_def upb_array_realloc_False)
  with arr show ?thesis by (simp add: upb_array_contents_def upb_array_size_def)
qed

theorem upb_array_resize_keeps_contents_witness:
  "arena_wf (st_arena ex_array_state) \<and> st_arrays ex_array_state 64 = Some ex_array \<and>
   array_wf (ar_top (st_arena ex_array_state)) ex_array \<and>
   (\<exists>st'. upb_array_resize ex_array_state 64 10 = Inr (True, st') \<and>
      upb_array_contents st' 64 = Some (upb_array_elems ex_array_state ex_array) \<and>
      upb_array_size st' 64 = Inr 4)"
proof -
  have h: "arena_wf (st_arena ex_array_state)" "st_arrays ex_array_state 64 = Some ex_array"
    "array_wf (ar_top (st_arena ex_array_state)) ex_array"
    using ex_array_wf by (simp_all add: ex_array_facts)
  obtain st' where rs: "upb_array_resize ex_array_state 64 10 = Inr (True, st')"
    using ex_array_runs(3) by blast
  show ?thesis using h rs upb_array_resize_keeps_contents[OF h rs] by (simp add: ex_array_facts)
qed

text \<open>
  C18. Growth is geometric: after a successful append the capacity holds the new
  length and is at least 4, and when a full array of capacity at least 4 grows, the
  capacity at least doubles (amortised O(1) append, spec section 4.2).
\<close>

theorem upb_array_append_capacity:
  assumes wf: "arena_wf (st_arena st)" and arr: "st_arrays st a = Some arr"
    and awf: "array_wf (ar_top (st_arena st)) arr"
    and ap: "upb_array_append st a v = Inr (True, st')"
  shows "\<exists>arr'. st_arrays st' a = Some arr' \<and> arr_len arr' = arr_len arr + 1 \<and>
           arr_len arr' \<le> arr_size arr' \<and> 4 \<le> arr_size arr' \<and>
           (arr_len arr = arr_size arr \<and> 4 \<le> arr_size arr \<longrightarrow> 2 * arr_size arr \<le> arr_size arr')"
proof -
  obtain st1 arr1 where re: "upb_array_realloc st a (arr_len arr + 1) = Inr (True, st1)"
    and a1: "st_arrays st1 a = Some arr1"
    and se: "upb_array_set (st1\<lparr>st_arrays := (st_arrays st1)(a \<mapsto> arr1\<lparr>arr_len := arr_len arr1 + 1\<rparr>)\<rparr>) a
               (arr_len arr1) v = Inr st'"
    using upb_array_append_True[OF ap arr] by blast
  have len: "arr_len arr \<le> arr_size arr" using awf by (simp add: array_wf_def)
  obtain arr' where f: "st_arrays st1 = (st_arrays st)(a \<mapsto> arr')" "arr_len arr' = arr_len arr"
    "arr_len arr + 1 \<le> arr_size arr'" "max (arr_size arr) 4 \<le> arr_size arr'"
    "max (arr_size arr) 4 < arr_len arr + 1 \<longrightarrow> 2 * max (arr_size arr) 4 \<le> arr_size arr'"
    using upb_array_realloc_True_facts[OF re arr wf len] by (elim exE conjE) (rule that; assumption)
  have "st_arrays st' a = Some (arr'\<lparr>arr_len := arr_len arr + 1\<rparr>)"
    using upb_array_set_wf[OF se] a1 f(1,2) by simp
  then show ?thesis using f by auto
qed

theorem upb_array_append_capacity_witness:
  "arena_wf (st_arena ex_array_state) \<and> st_arrays ex_array_state 64 = Some ex_array \<and>
   array_wf (ar_top (st_arena ex_array_state)) ex_array \<and>
   arr_len ex_array = arr_size ex_array \<and> 4 \<le> arr_size ex_array \<and>
   (\<exists>st' arr'. upb_array_append ex_array_state 64 (mv_int32 5) = Inr (True, st') \<and>
      st_arrays st' 64 = Some arr' \<and> 8 \<le> arr_size arr')"
proof -
  have h: "arena_wf (st_arena ex_array_state)" "st_arrays ex_array_state 64 = Some ex_array"
    "array_wf (ar_top (st_arena ex_array_state)) ex_array"
    using ex_array_wf by (simp_all add: ex_array_facts)
  obtain st' where ap: "upb_array_append ex_array_state 64 (mv_int32 5) = Inr (True, st')"
    using ex_array_runs(1) by blast
  show ?thesis using h ap upb_array_append_capacity[OF h ap] by (auto simp: ex_array_facts)
qed

text \<open>
  C19. Appending keeps the arena and every array of the state well formed (buffers
  aligned and inside the allocated part of the arena, length within capacity).
\<close>

theorem upb_array_append_preserves_wf:
  assumes "arena_wf (st_arena st)" "arrays_wf st" "upb_array_append st a v = Inr (b, st')"
  shows "arena_wf (st_arena st') \<and> arrays_wf st'"
  using upb_array_append_frame[OF assms] by simp

theorem upb_array_append_preserves_wf_witness:
  "arena_wf (st_arena ex_array_state) \<and> arrays_wf ex_array_state \<and>
   (\<exists>st'. upb_array_append ex_array_state 64 (mv_int32 5) = Inr (True, st') \<and>
      arena_wf (st_arena st') \<and> arrays_wf st')"
proof -
  obtain st' where ap: "upb_array_append ex_array_state 64 (mv_int32 5) = Inr (True, st')"
    using ex_array_runs(1) by blast
  show ?thesis using ex_array_wf ap upb_array_append_preserves_wf[OF ex_array_wf(1,3) ap] by blast
qed

text \<open>
  C20. The tagged data pointer round-trips: tagging an 8-aligned address with an
  exponent below 8 and reading it back with \<open>& 7\<close> and \<open>& ~7\<close> gives both back.
\<close>

theorem upb_array_tag_roundtrip:
  assumes "p mod 8 = 0" "p < 2 ^ 64" "l < 8"
  shows "upb_array_ptr (arr\<lparr>arr_data := upb_tag_arrptr p l\<rparr>) = p \<and>
         upb_array_lg2 (arr\<lparr>arr_data := upb_tag_arrptr p l\<rparr>) = l"
  using assms upb_array_ptr_tag[of "arr\<lparr>arr_data := upb_tag_arrptr p l\<rparr>" p l]
    upb_array_lg2_tag[of "arr\<lparr>arr_data := upb_tag_arrptr p l\<rparr>" p l]
  by simp

theorem upb_array_tag_roundtrip_witness:
  "(128::nat) mod 8 = 0 \<and> (128::nat) < 2 ^ 64 \<and> (2::nat) < 8 \<and>
   upb_array_ptr (ex_array\<lparr>arr_data := upb_tag_arrptr 128 2\<rparr>) = 128 \<and>
   upb_array_lg2 (ex_array\<lparr>arr_data := upb_tag_arrptr 128 2\<rparr>) = 2"
  using upb_array_tag_roundtrip[of 128 2 ex_array] by simp

end
