(* ===== verification/Map_Container.thy ===== *)
theory Map_Container
  imports Store
begin

text \<open>
  The map container of \<^verbatim>\<open>src/upb/reflection.c\<close> (\<open>upb_map_*\<close>, \<open>upb_mapiter_*\<close>,
  lines 199--243) and what it is built on.  The public functions are thin wrappers
  over the inline helpers \<open>_upb_map_*\<close> of \<^verbatim>\<open>msg.h\<close> and the string table
  \<open>upb_strtable\<close> of \<^verbatim>\<open>table.int.h\<close>; neither file is under \<^verbatim>\<open>src/\<close>, so both
  are modelled from the spec (sections 4.3 and 6).  A helper \<open>_upb_map_f\<close> is the
  definition \<open>priv_upb_map_f\<close>.

  The table is the list of its live entries in iteration order; deleting an entry
  removes it from the list, inserting appends it.  An entry keeps the key bytes, the
  address of the table's own copy of them (made by \<open>strcopy\<close> from the arena: a
  4-byte length, the bytes, a NUL) and the 8-byte \<open>upb_value\<close>.  The bucket array
  and its rehashing are not modelled.  A map converts keys and values to and from
  table form by its two widths: a width of \<open>0\<close> (\<open>UPB_MAPTYPE_STRING\<close>) means the
  key or value is a string view; a string key is looked up by its bytes, and a
  string value is stored as a pointer to an arena copy of the 16-byte view.
\<close>

section \<open>The string table\<close>

definition UPB_MAPTYPE_STRING :: nat where
  "UPB_MAPTYPE_STRING = 0"

definition upb_strtable_lookup :: "upb_strtable \<Rightarrow> byte list \<Rightarrow> 64 word option" where
  "upb_strtable_lookup t k = map_option ent_val (find (\<lambda>e. ent_key e = k) t)"

text \<open>\<open>upb_strtable_remove3\<close>: whether the key was present, and the table without it.\<close>

definition upb_strtable_remove :: "upb_strtable \<Rightarrow> byte list \<Rightarrow> bool \<times> upb_strtable" where
  "upb_strtable_remove t k = (list_ex (\<lambda>e. ent_key e = k) t, filter (\<lambda>e. ent_key e \<noteq> k) t)"

text \<open>
  \<open>upb_strtable_insert3\<close>: asserts that the key is absent, then makes the table's own
  copy of the key (\<open>strcopy\<close>: a 4-byte length, the bytes, a NUL, allocated from the
  arena); fails (\<open>None\<close>) when that allocation fails.
\<close>

definition upb_strtable_insert ::
  "upb_state \<Rightarrow> upb_strtable \<Rightarrow> byte list \<Rightarrow> 64 word \<Rightarrow> upb_error + (upb_strtable \<times> upb_state) option" where
  "upb_strtable_insert st t k v =
     (if upb_strtable_lookup t k \<noteq> None then Inl UPB_ASSERT_FAILED
      else case upb_malloc st (length k + 4 + 1) of
             None \<Rightarrow> Inr None
           | Some (p, st') \<Rightarrow>
               Inr (Some (t @ [\<lparr>ent_key = k, ent_keyptr = p + 4, ent_val = v\<rparr>],
                          st'\<lparr>st_mem := mem_write (st_mem st') p
                                   (le_bytes 4 (word_of_nat (length k) :: 32 word) @ k @ [0])\<rparr>)))"

section \<open>Conversions between values and table form\<close>

definition upb_map_tokey :: "memory \<Rightarrow> upb_msgval \<Rightarrow> nat \<Rightarrow> byte list" where
  "upb_map_tokey m key sz =
     (if sz = UPB_MAPTYPE_STRING then (case mv_get_str key of (p, n) \<Rightarrow> mem_read m p n)
      else take sz key)"

definition upb_map_fromkey :: "memory \<Rightarrow> addr \<times> nat \<Rightarrow> nat \<Rightarrow> upb_msgval" where
  "upb_map_fromkey m key sz =
     (if sz = UPB_MAPTYPE_STRING then mv_str key else mem_read m (fst key) sz)"

definition upb_map_tovalue :: "upb_state \<Rightarrow> upb_msgval \<Rightarrow> nat \<Rightarrow> (64 word \<times> upb_state) option" where
  "upb_map_tovalue st v sz =
     (if sz = UPB_MAPTYPE_STRING then
        (case upb_malloc st sizeof_strview of
           None \<Rightarrow> None
         | Some (p, st') \<Rightarrow>
             Some (word_of_nat p, st'\<lparr>st_mem := mem_write (st_mem st') p (take sizeof_strview v)\<rparr>))
      else Some (le_word (take sz v), st))"

definition upb_map_fromvalue :: "memory \<Rightarrow> 64 word \<Rightarrow> nat \<Rightarrow> upb_msgval" where
  "upb_map_fromvalue m v sz =
     (if sz = UPB_MAPTYPE_STRING then mem_read m (unat v) sizeof_strview else le_bytes sz v)"

section \<open>The map operations\<close>

definition priv_upb_map_new :: "upb_state \<Rightarrow> nat \<Rightarrow> nat \<Rightarrow> addr \<times> upb_state" where
  "priv_upb_map_new st key_size value_size =
     (case upb_malloc st sizeof_upb_map of
        None \<Rightarrow> (0, st)
      | Some (p, st') \<Rightarrow>
          (p, st'\<lparr>st_maps := (st_maps st')(p \<mapsto>
                \<lparr>map_key_size = key_size, map_val_size = value_size, map_table = []\<rparr>)\<rparr>))"

definition upb_map_new :: "upb_state \<Rightarrow> upb_fieldtype \<Rightarrow> upb_fieldtype \<Rightarrow> addr \<times> upb_state" where
  "upb_map_new st key_type value_type =
     priv_upb_map_new st (upb_fieldtype_to_mapsize key_type) (upb_fieldtype_to_mapsize value_type)"

definition priv_upb_map_size :: "upb_map \<Rightarrow> nat" where
  "priv_upb_map_size mp = length (map_table mp)"

definition upb_map_size :: "upb_state \<Rightarrow> addr \<Rightarrow> upb_error + nat" where
  "upb_map_size st m =
     (case st_maps st m of None \<Rightarrow> Inl UPB_INVALID_HANDLE | Some mp \<Rightarrow> Inr (priv_upb_map_size mp))"

definition priv_upb_map_get ::
  "memory \<Rightarrow> upb_map \<Rightarrow> upb_msgval \<Rightarrow> nat \<Rightarrow> nat \<Rightarrow> upb_msgval option" where
  "priv_upb_map_get m mp key key_size val_size =
     (case upb_strtable_lookup (map_table mp) (upb_map_tokey m key key_size) of
        None \<Rightarrow> None
      | Some tabval \<Rightarrow> Some (upb_map_fromvalue m tabval val_size))"

definition upb_map_get :: "upb_state \<Rightarrow> addr \<Rightarrow> upb_msgval \<Rightarrow> upb_error + upb_msgval option" where
  "upb_map_get st m key =
     (case st_maps st m of
        None \<Rightarrow> Inl UPB_INVALID_HANDLE
      | Some mp \<Rightarrow> Inr (priv_upb_map_get (st_mem st) mp key (map_key_size mp) (map_val_size mp)))"

text \<open>
  \<open>_upb_map_set\<close>: converts key and value, removes any entry for the key, then
  inserts.  The table header is updated in place (\<open>map->table\<close>), so the removal is
  visible even when the insertion then fails.
\<close>

definition priv_upb_map_set ::
  "upb_state \<Rightarrow> addr \<Rightarrow> upb_map \<Rightarrow> upb_msgval \<Rightarrow> nat \<Rightarrow> upb_msgval \<Rightarrow> nat \<Rightarrow>
     upb_error + (bool \<times> upb_state)" where
  "priv_upb_map_set st m mp key key_size val val_size =
     (let strkey = upb_map_tokey (st_mem st) key key_size in
      case upb_map_tovalue st val val_size of
        None \<Rightarrow> Inr (False, st)
      | Some (tabval, st1) \<Rightarrow>
          (let t = snd (upb_strtable_remove (map_table mp) strkey);
               st2 = st1\<lparr>st_maps := (st_maps st1)(m \<mapsto> mp\<lparr>map_table := t\<rparr>)\<rparr> in
           case upb_strtable_insert st2 t strkey tabval of
             Inl e \<Rightarrow> Inl e
           | Inr None \<Rightarrow> Inr (False, st2)
           | Inr (Some (t', st3)) \<Rightarrow>
               Inr (True, st3\<lparr>st_maps := (st_maps st3)(m \<mapsto> mp\<lparr>map_table := t'\<rparr>)\<rparr>)))"

definition upb_map_set ::
  "upb_state \<Rightarrow> addr \<Rightarrow> upb_msgval \<Rightarrow> upb_msgval \<Rightarrow> upb_error + (bool \<times> upb_state)" where
  "upb_map_set st m key val =
     (case st_maps st m of
        None \<Rightarrow> Inl UPB_INVALID_HANDLE
      | Some mp \<Rightarrow> priv_upb_map_set st m mp key (map_key_size mp) val (map_val_size mp))"

definition priv_upb_map_delete :: "memory \<Rightarrow> upb_map \<Rightarrow> upb_msgval \<Rightarrow> nat \<Rightarrow> bool \<times> upb_map" where
  "priv_upb_map_delete m mp key key_size =
     (case upb_strtable_remove (map_table mp) (upb_map_tokey m key key_size) of
        (found, t) \<Rightarrow> (found, mp\<lparr>map_table := t\<rparr>))"

definition upb_map_delete :: "upb_state \<Rightarrow> addr \<Rightarrow> upb_msgval \<Rightarrow> upb_error + (bool \<times> upb_state)" where
  "upb_map_delete st m key =
     (case st_maps st m of
        None \<Rightarrow> Inl UPB_INVALID_HANDLE
      | Some mp \<Rightarrow>
          (case priv_upb_map_delete (st_mem st) mp key (map_key_size mp) of
             (found, mp') \<Rightarrow> Inr (found, st\<lparr>st_maps := (st_maps st)(m \<mapsto> mp')\<rparr>)))"

text \<open>
  \<open>_upb_map_next\<close> with \<open>upb_strtable_next\<close>: step the cursor to the next live entry
  (\<open>++i\<close> on a \<open>size_t\<close>), or to the end cursor \<open>SIZE_MAX - 1\<close> when there is
  none.  Cursors are \<open>size_t\<close>: \<open>UPB_MAP_BEGIN\<close> is \<open>-1\<close>, so the first step wraps
  to index 0, and the end cursor is distinct from it.
\<close>

definition priv_upb_map_next :: "upb_map \<Rightarrow> 64 word \<Rightarrow> bool \<times> 64 word" where
  "priv_upb_map_next mp iter =
     (let i = iter + 1 in
      if unat i < length (map_table mp) then (True, i) else (False, - 2))"

definition upb_mapiter_next :: "upb_state \<Rightarrow> addr \<Rightarrow> 64 word \<Rightarrow> upb_error + (bool \<times> 64 word)" where
  "upb_mapiter_next st m iter =
     (case st_maps st m of None \<Rightarrow> Inl UPB_INVALID_HANDLE | Some mp \<Rightarrow> Inr (priv_upb_map_next mp iter))"

text \<open>
  \<open>upb_mapiter_key\<close>/\<open>upb_mapiter_value\<close>: \<open>upb_strtable_iter_key\<close> and
  \<open>upb_strtable_iter_value\<close> assert that the cursor is not done; the key is the view
  of the table's copy.
\<close>

definition upb_mapiter_key :: "upb_state \<Rightarrow> addr \<Rightarrow> 64 word \<Rightarrow> upb_error + upb_msgval" where
  "upb_mapiter_key st m iter =
     (case st_maps st m of
        None \<Rightarrow> Inl UPB_INVALID_HANDLE
      | Some mp \<Rightarrow>
          if unat iter < length (map_table mp) then
            (let e = map_table mp ! unat iter in
             Inr (upb_map_fromkey (st_mem st) (ent_keyptr e, length (ent_key e)) (map_key_size mp)))
          else Inl UPB_ASSERT_FAILED)"

definition upb_mapiter_value :: "upb_state \<Rightarrow> addr \<Rightarrow> 64 word \<Rightarrow> upb_error + upb_msgval" where
  "upb_mapiter_value st m iter =
     (case st_maps st m of
        None \<Rightarrow> Inl UPB_INVALID_HANDLE
      | Some mp \<Rightarrow>
          if unat iter < length (map_table mp) then
            Inr (upb_map_fromvalue (st_mem st) (ent_val (map_table mp ! unat iter)) (map_val_size mp))
          else Inl UPB_ASSERT_FAILED)"

section \<open>Abstraction and invariant\<close>

text \<open>The partial function from key bytes to values that a map represents.\<close>

definition upb_map_abs :: "memory \<Rightarrow> upb_map \<Rightarrow> byte list \<Rightarrow> upb_msgval option" where
  "upb_map_abs m mp =
     map_of (map (\<lambda>e. (ent_key e, upb_map_fromvalue m (ent_val e) (map_val_size mp))) (map_table mp))"

text \<open>
  A map is well formed in a state when its keys are distinct, its widths are at most
  8 bytes, a fixed-width map's keys have exactly that width, and every key copy and
  string-value box lies in the allocated part of the arena, the key copy holding the
  key.
\<close>

definition upb_tabent_wf :: "upb_state \<Rightarrow> upb_map \<Rightarrow> upb_tabent \<Rightarrow> bool" where
  "upb_tabent_wf st mp e \<longleftrightarrow>
     ent_keyptr e + length (ent_key e) < ar_top (st_arena st) \<and>
     mem_read (st_mem st) (ent_keyptr e) (length (ent_key e)) = ent_key e \<and>
     (if map_key_size mp = UPB_MAPTYPE_STRING then True else length (ent_key e) = map_key_size mp) \<and>
     (if map_val_size mp = UPB_MAPTYPE_STRING
      then unat (ent_val e) + sizeof_strview \<le> ar_top (st_arena st) else True)"

definition map_wf :: "upb_state \<Rightarrow> upb_map \<Rightarrow> bool" where
  "map_wf st mp \<longleftrightarrow>
     distinct (map ent_key (map_table mp)) \<and> map_key_size mp \<le> 8 \<and> map_val_size mp \<le> 8 \<and>
     list_all (upb_tabent_wf st mp) (map_table mp)"

text \<open>
  Every map of the store is well formed, and its header lies in the allocated part of
  the arena.
\<close>

definition maps_wf :: "upb_state \<Rightarrow> bool" where
  "maps_wf st \<longleftrightarrow>
     (\<forall>m mp. st_maps st m = Some mp \<longrightarrow> 0 < m \<and> m + sizeof_upb_map \<le> ar_top (st_arena st) \<and> map_wf st mp)"

text \<open>
  The bytes an entry owns: its key copy and, in a map with string values, the 16-byte
  view its value points to.  The bytes the maps of a state own.
\<close>

definition upb_tabent_bytes :: "upb_map \<Rightarrow> upb_tabent \<Rightarrow> addr \<Rightarrow> bool" where
  "upb_tabent_bytes mp e x \<longleftrightarrow>
     ent_keyptr e \<le> x \<and> x < ent_keyptr e + length (ent_key e) \<or>
     map_val_size mp = UPB_MAPTYPE_STRING \<and> unat (ent_val e) \<le> x \<and> x < unat (ent_val e) + sizeof_strview"

definition upb_map_bytes :: "upb_state \<Rightarrow> addr \<Rightarrow> bool" where
  "upb_map_bytes st x \<longleftrightarrow>
     (\<exists>m mp. st_maps st m = Some mp \<and> (\<exists>e\<in>set (map_table mp). upb_tabent_bytes mp e x))"

text \<open>Width of the value \<open>get\<close> returns: the view for strings, the map width otherwise.\<close>

definition upb_map_val_width :: "nat \<Rightarrow> nat" where
  "upb_map_val_width sz = (if sz = UPB_MAPTYPE_STRING then sizeof_strview else sz)"

text \<open>
  A string key's bytes lie in the allocated part of the arena, so operations that only
  write fresh blocks do not change what the key denotes.
\<close>

definition upb_map_key_allocated :: "upb_state \<Rightarrow> upb_map \<Rightarrow> upb_msgval \<Rightarrow> bool" where
  "upb_map_key_allocated st mp key \<longleftrightarrow>
     (if map_key_size mp = UPB_MAPTYPE_STRING
      then fst (mv_get_str key) + snd (mv_get_str key) \<le> ar_top (st_arena st) else True)"

section \<open>Sequences of map operations\<close>

text \<open>
  The state-changing map operations as a step function, and the callers' contract for
  them: a \<open>upb_msgval\<close> passed to \<open>upb_map_set\<close> carries at least the map's key and
  value widths.  Theory \<open>System\<close> composes these steps with those of the other parts.
\<close>

datatype upb_map_op =
    MapNew upb_fieldtype upb_fieldtype
  | MapSet addr upb_msgval upb_msgval
  | MapDelete addr upb_msgval

fun upb_map_step :: "upb_state \<Rightarrow> upb_map_op \<Rightarrow> upb_error + upb_state" where
  "upb_map_step st (MapNew kt vt) = Inr (snd (upb_map_new st kt vt))"
| "upb_map_step st (MapSet m k v) = map_sum id snd (upb_map_set st m k v)"
| "upb_map_step st (MapDelete m k) = map_sum id snd (upb_map_delete st m k)"

fun upb_map_op_ok :: "upb_state \<Rightarrow> upb_map_op \<Rightarrow> bool" where
  "upb_map_op_ok st (MapSet m k v) =
     (case st_maps st m of
        None \<Rightarrow> True
      | Some mp \<Rightarrow> map_key_size mp \<le> length k \<and> upb_map_val_width (map_val_size mp) \<le> length v)"
| "upb_map_op_ok st _ = True"

text \<open>The map an operation acts on; \<open>MapNew\<close> acts on a fresh one.\<close>

fun upb_map_op_handle :: "upb_map_op \<Rightarrow> addr option" where
  "upb_map_op_handle (MapSet m k v) = Some m"
| "upb_map_op_handle (MapDelete m k) = Some m"
| "upb_map_op_handle (MapNew kt vt) = None"


text \<open>
  The iteration loop of spec section 8, \<open>while (upb_mapiter_next(map, &iter))\<close>
  reading \<open>upb_mapiter_key(map, iter)\<close> at each live cursor, with the number of
  rounds bounded by \<open>n\<close>: the keys it reads, or \<open>None\<close> when the rounds run out or a
  call fails.
\<close>

fun upb_mapiter_keys :: "nat \<Rightarrow> upb_state \<Rightarrow> addr \<Rightarrow> 64 word \<Rightarrow> upb_msgval list option" where
  "upb_mapiter_keys 0 st m iter = None"
| "upb_mapiter_keys (Suc n) st m iter =
     (case upb_mapiter_next st m iter of
        Inl e \<Rightarrow> None
      | Inr (False, iter') \<Rightarrow> Some []
      | Inr (True, iter') \<Rightarrow>
          (case upb_mapiter_key st m iter' of
             Inl e \<Rightarrow> None
           | Inr k \<Rightarrow> map_option (Cons k) (upb_mapiter_keys n st m iter')))"

section \<open>Examples\<close>

text \<open>
  An int32-to-int32 map at 64 holding \<open>5 \<mapsto> 7\<close>, exactly as \<open>upb_map_new\<close> and one
  \<open>upb_map_set\<close> leave it from \<open>ex_state\<close> (header at 64--103, key copy at 104--112),
  once with room in the arena and once with the arena exhausted.
\<close>

definition ex_map :: upb_map where
  "ex_map = \<lparr>map_key_size = 4, map_val_size = 4,
             map_table = [\<lparr>ent_key = [5, 0, 0, 0], ent_keyptr = 108, ent_val = 7\<rparr>]\<rparr>"

definition ex_map_state :: upb_state where
  "ex_map_state = \<lparr>st_mem = mem_write (\<lambda>_. 0) 104 [4, 0, 0, 0, 5, 0, 0, 0, 0],
                    st_arrays = Map.empty, st_maps = [64 \<mapsto> ex_map],
                    st_arena = \<lparr>ar_top = 120, ar_end = 4096\<rparr>\<rparr>"

definition ex_map_full_state :: upb_state where
  "ex_map_full_state = ex_map_state\<lparr>st_arena := \<lparr>ar_top = 120, ar_end = 120\<rparr>\<rparr>"

section \<open>Lemmas on the table and the conversions\<close>

lemma map_of_ent_find:
  "map_of (map (\<lambda>e. (ent_key e, f e)) t) k = map_option f (find (\<lambda>e. ent_key e = k) t)"
  by (induction t) auto

lemma map_of_ent_filter:
  "map_of (map (\<lambda>e. (ent_key e, f e)) (filter (\<lambda>e. ent_key e \<noteq> k) t)) =
     (map_of (map (\<lambda>e. (ent_key e, f e)) t))(k := None)"
  by (induction t) auto

lemma upb_map_abs_lookup:
  "upb_map_abs m mp k =
     map_option (\<lambda>v. upb_map_fromvalue m v (map_val_size mp)) (upb_strtable_lookup (map_table mp) k)"
  by (simp add: upb_map_abs_def upb_strtable_lookup_def map_of_ent_find option.map_comp comp_def)

lemma dom_upb_map_abs: "dom (upb_map_abs m mp) = set (map ent_key (map_table mp))"
  by (simp add: upb_map_abs_def dom_map_of_conv_image_fst image_image)

lemma upb_strtable_remove_found:
  "fst (upb_strtable_remove t k) \<longleftrightarrow> k \<in> set (map ent_key t)"
  by (auto simp: upb_strtable_remove_def list_ex_iff)

lemma upb_strtable_lookup_remove:
  "upb_strtable_lookup (snd (upb_strtable_remove t k)) k = None"
  by (simp add: upb_strtable_lookup_def upb_strtable_remove_def find_None_iff)

lemma upb_strtable_keycopy:
  assumes mal: "upb_malloc st (length k + 4 + 1) = Some (p, st1)" and wf: "arena_wf (st_arena st)"
    and st': "st' = st1\<lparr>st_mem := mem_write (st_mem st1) p
                        (le_bytes 4 (word_of_nat (length k) :: 32 word) @ k @ [0])\<rparr>"
  shows "upb_state_grows st st'" "arena_wf (st_arena st')" "p = ar_top (st_arena st)"
    and "p + 4 + length k < ar_top (st_arena st')"
    and "mem_read (st_mem st') (p + 4) (length k) = k"
    and "st_maps st' = st_maps st" "st_arrays st' = st_arrays st"
proof -
  note mw = upb_malloc_wf[OF mal wf]
  show "upb_state_grows st st'"
    using upb_malloc_grows[OF mal] mw(2) by (simp add: st' upb_state_grows_write)
  show "arena_wf (st_arena st')" "p = ar_top (st_arena st)" "st_maps st' = st_maps st"
    "st_arrays st' = st_arrays st"
    using mw by (simp_all add: st')
  show "p + 4 + length k < ar_top (st_arena st')" using mw(3) by (simp add: st')
  show "mem_read (st_mem st') (p + 4) (length k) = k"
    using mem_read_write_inside[of 4 "length k" "le_bytes 4 (word_of_nat (length k) :: 32 word) @ k @ [0]"
        "st_mem st1" p]
    by (simp add: st')
qed

lemma upb_map_tovalue_fixed:
  "sz \<noteq> UPB_MAPTYPE_STRING \<Longrightarrow> upb_map_tovalue st v sz = Some (le_word (take sz v), st)"
  by (simp add: upb_map_tovalue_def)

lemma upb_map_tovalue_None:
  "upb_map_tovalue st v sz = None \<longleftrightarrow> sz = UPB_MAPTYPE_STRING \<and> upb_malloc st sizeof_strview = None"
  by (auto simp: upb_map_tovalue_def split: option.splits)

lemma upb_map_tovalue_string:
  assumes "upb_map_tovalue st v UPB_MAPTYPE_STRING = Some (w, st')" "arena_wf (st_arena st)"
  shows "upb_state_grows st st'" "arena_wf (st_arena st')"
    and "ar_top (st_arena st) \<le> unat w" "unat w + sizeof_strview \<le> ar_top (st_arena st')"
    and "sizeof_strview \<le> length v \<Longrightarrow> mem_read (st_mem st') (unat w) sizeof_strview = take sizeof_strview v"
    and "st_maps st' = st_maps st" "st_arrays st' = st_arrays st"
proof -
  obtain p st1 where mal: "upb_malloc st sizeof_strview = Some (p, st1)"
    and w: "w = word_of_nat p"
    and st': "st' = st1\<lparr>st_mem := mem_write (st_mem st1) p (take sizeof_strview v)\<rparr>"
    using assms(1) by (auto simp: upb_map_tovalue_def split: option.splits)
  note mw = upb_malloc_wf[OF mal assms(2)]
  have "p < 2 ^ 64"
    using mw(1,3) by (simp add: arena_wf_def sizeof_strview_def)
  then have p: "unat w = p" by (simp add: w unat_of_nat take_bit_nat_eq_self)
  show "upb_state_grows st st'"
    using upb_malloc_grows[OF mal] mw(2) by (simp add: st' upb_state_grows_write)
  show "arena_wf (st_arena st')" "st_maps st' = st_maps st" "st_arrays st' = st_arrays st"
    using mw by (simp_all add: st')
  show "ar_top (st_arena st) \<le> unat w" "unat w + sizeof_strview \<le> ar_top (st_arena st')"
    using mw(2,3) by (simp_all add: p st')
  show "sizeof_strview \<le> length v \<Longrightarrow> mem_read (st_mem st') (unat w) sizeof_strview = take sizeof_strview v"
    by (simp add: p st' mem_read_write_same)
qed

lemma upb_map_fromvalue_fixed:
  "sz \<noteq> UPB_MAPTYPE_STRING \<Longrightarrow> sz \<le> 8 \<Longrightarrow> sz \<le> length v \<Longrightarrow>
     upb_map_fromvalue m (le_word (take sz v)) sz = take sz v"
  by (simp add: upb_map_fromvalue_def le_bytes_le_word)

lemma upb_tabent_wf_grows:
  "upb_tabent_wf st mp e \<Longrightarrow> upb_state_grows st st' \<Longrightarrow> upb_tabent_wf st' mp e"
  by (auto simp: upb_tabent_wf_def upb_state_grows_mem_read dest: upb_state_grows_def[THEN iffD1]
           split: if_splits)

lemma upb_map_fromvalue_grows:
  "upb_tabent_wf st mp e \<Longrightarrow> upb_state_grows st st' \<Longrightarrow>
     upb_map_fromvalue (st_mem st') (ent_val e) (map_val_size mp) =
     upb_map_fromvalue (st_mem st) (ent_val e) (map_val_size mp)"
  by (simp add: upb_tabent_wf_def upb_map_fromvalue_def upb_state_grows_mem_read)

lemma upb_tabent_wf_table [simp]:
  "upb_tabent_wf st (mp\<lparr>map_table := t\<rparr>) = upb_tabent_wf st mp"
  by (simp add: upb_tabent_wf_def fun_eq_iff)

lemma upb_tabent_wf_maps [simp]:
  "upb_tabent_wf (st\<lparr>st_maps := M\<rparr>) = upb_tabent_wf st"
  by (simp add: upb_tabent_wf_def fun_eq_iff)

lemma upb_map_tovalue_Some:
  assumes "upb_map_tovalue st v sz = Some (w, st1)" "arena_wf (st_arena st)"
  shows "upb_state_grows st st1" "arena_wf (st_arena st1)"
    and "st_maps st1 = st_maps st" "st_arrays st1 = st_arrays st"
    and "if sz = UPB_MAPTYPE_STRING then unat w + sizeof_strview \<le> ar_top (st_arena st1) else True"
  using assms upb_map_tovalue_string[of st v w st1] upb_map_tovalue_fixed[of sz st v]
  by (cases "sz = UPB_MAPTYPE_STRING"; simp)+

lemma upb_map_tovalue_fromvalue:
  assumes "upb_map_tovalue st v sz = Some (w, st1)" "arena_wf (st_arena st)"
    and "sz \<le> 8" "upb_map_val_width sz \<le> length v" "upb_state_grows st1 st'"
  shows "upb_map_fromvalue (st_mem st') w sz = take (upb_map_val_width sz) v"
proof (cases "sz = UPB_MAPTYPE_STRING")
  case True
  note tv = upb_map_tovalue_string[OF assms(1)[unfolded True] assms(2)]
  have "mem_read (st_mem st') (unat w) sizeof_strview = mem_read (st_mem st1) (unat w) sizeof_strview"
    using tv(4) assms(5) by (simp add: upb_state_grows_mem_read)
  with tv(5) assms(4) True show ?thesis
    by (simp add: upb_map_fromvalue_def upb_map_val_width_def)
next
  case False
  then have "w = le_word (take sz v)" using assms(1) by (simp add: upb_map_tovalue_fixed)
  with False assms(3,4) show ?thesis
    by (simp add: upb_map_fromvalue_fixed upb_map_val_width_def)
qed

lemma upb_map_set_True_facts:
  assumes set: "upb_map_set st m key val = Inr (True, st')" and mp: "st_maps st m = Some mp"
    and wf: "map_wf st mp" "arena_wf (st_arena st)"
    and ksz: "map_key_size mp \<le> length key" and vsz: "upb_map_val_width (map_val_size mp) \<le> length val"
  defines "k \<equiv> upb_map_tokey (st_mem st) key (map_key_size mp)"
  obtains e where
    "st_maps st' = (st_maps st)(m \<mapsto> mp\<lparr>map_table := filter (\<lambda>e. ent_key e \<noteq> k) (map_table mp) @ [e]\<rparr>)"
    "ent_key e = k" "upb_tabent_wf st' mp e"
    "upb_map_fromvalue (st_mem st') (ent_val e) (map_val_size mp) = take (upb_map_val_width (map_val_size mp)) val"
    "upb_state_grows st st'" "arena_wf (st_arena st')" "st_arrays st' = st_arrays st"
    "ar_top (st_arena st) \<le> ent_keyptr e"
    "map_val_size mp = UPB_MAPTYPE_STRING \<Longrightarrow> ar_top (st_arena st) \<le> unat (ent_val e)"
proof -
  define t where "t = filter (\<lambda>e. ent_key e \<noteq> k) (map_table mp)"
  obtain w st1 where tv: "upb_map_tovalue st val (map_val_size mp) = Some (w, st1)"
    using set mp by (auto simp: upb_map_set_def priv_upb_map_set_def Let_def split: option.splits)
  define st2 where "st2 = st1\<lparr>st_maps := (st_maps st1)(m \<mapsto> mp\<lparr>map_table := t\<rparr>)\<rparr>"
  have look: "upb_strtable_lookup t k = None"
    using upb_strtable_lookup_remove[of "map_table mp" k] by (simp add: t_def upb_strtable_remove_def)
  obtain p st3a where sc: "upb_malloc st2 (length k + 4 + 1) = Some (p, st3a)"
    and st': "st' = (st3a\<lparr>st_mem := mem_write (st_mem st3a) p
                 (le_bytes 4 (word_of_nat (length k) :: 32 word) @ k @ [0])\<rparr>)\<lparr>st_maps := (st_maps st3a)(m \<mapsto> mp\<lparr>map_table := t @
                 [\<lparr>ent_key = k, ent_keyptr = p + 4, ent_val = w\<rparr>]\<rparr>)\<rparr>"
    using set mp tv look
    by (auto simp: upb_map_set_def priv_upb_map_set_def upb_strtable_insert_def k_def t_def st2_def
             upb_strtable_remove_def Let_def split: option.splits)
  note tf = upb_map_tovalue_Some[OF tv wf(2)]
  have wf2: "arena_wf (st_arena st2)" using tf(2) by (simp add: st2_def)
  note cf = upb_strtable_keycopy[OF sc wf2 refl]
  have g12: "upb_state_grows st1 st'"
    using cf(1) by (simp add: st' st2_def upb_state_grows_def)
  have g: "upb_state_grows st st'" using upb_state_grows_trans[OF tf(1) g12] .
  have msz: "map_val_size mp \<le> 8" "map_key_size mp \<le> 8" using wf(1) by (simp_all add: map_wf_def)
  have klen: "map_key_size mp \<noteq> UPB_MAPTYPE_STRING \<Longrightarrow> length k = map_key_size mp"
    using ksz by (simp add: k_def upb_map_tokey_def)
  have top13: "ar_top (st_arena st1) \<le> ar_top (st_arena st')"
    using g12 by (simp add: upb_state_grows_def)
  have kp: "ar_top (st_arena st) \<le> p + 4"
    using cf(3) tf(1) by (simp add: st2_def upb_state_grows_def)
  have vb: "map_val_size mp = UPB_MAPTYPE_STRING \<Longrightarrow> ar_top (st_arena st) \<le> unat w"
    using upb_map_tovalue_string(3)[of st val w st1] tv wf(2) by simp
  show thesis
  proof (rule that[of "\<lparr>ent_key = k, ent_keyptr = p + 4, ent_val = w\<rparr>"])
    show "st_maps st' = (st_maps st)(m \<mapsto> mp\<lparr>map_table := filter (\<lambda>e. ent_key e \<noteq> k) (map_table mp) @
            [\<lparr>ent_key = k, ent_keyptr = p + 4, ent_val = w\<rparr>]\<rparr>)"
      using cf(6) tf(3) by (simp add: st' st2_def t_def)
    show "upb_tabent_wf st' mp \<lparr>ent_key = k, ent_keyptr = p + 4, ent_val = w\<rparr>"
      using cf(4,5) klen tf(5) top13 by (auto simp: upb_tabent_wf_def st' add.commute split: if_splits)
    show "upb_map_fromvalue (st_mem st') (ent_val \<lparr>ent_key = k, ent_keyptr = p + 4, ent_val = w\<rparr>) (map_val_size mp) =
          take (upb_map_val_width (map_val_size mp)) val"
      using upb_map_tovalue_fromvalue[OF tv wf(2) msz(1) vsz g12] by simp
    show "upb_state_grows st st'" by (rule g)
    show "arena_wf (st_arena st')" "st_arrays st' = st_arrays st"
      using cf(2,7) tf(4) by (simp_all add: st' st2_def)
  qed (simp_all add: kp vb)
qed

lemma map_wf_grows: "map_wf st mp \<Longrightarrow> upb_state_grows st st' \<Longrightarrow> map_wf st' mp"
  by (auto simp: map_wf_def list_all_iff intro: upb_tabent_wf_grows)

lemma upb_map_abs_grows:
  assumes "map_wf st mp" "upb_state_grows st st'"
  shows "upb_map_abs (st_mem st') mp = upb_map_abs (st_mem st) mp"
proof -
  have "\<forall>e\<in>set (map_table mp). upb_tabent_wf st mp e"
    using assms(1) by (simp add: map_wf_def list_all_iff)
  then show ?thesis
    unfolding upb_map_abs_def using upb_map_fromvalue_grows[OF _ assms(2)]
    by (simp cong: map_cong)
qed

lemma upb_map_set_True_abs:
  assumes set: "upb_map_set st m key val = Inr (True, st')" and mp: "st_maps st m = Some mp"
    and wf: "map_wf st mp" "arena_wf (st_arena st)"
    and ksz: "map_key_size mp \<le> length key" and vsz: "upb_map_val_width (map_val_size mp) \<le> length val"
  shows "\<exists>mp'. st_maps st' = (st_maps st)(m \<mapsto> mp') \<and> map_wf st' mp' \<and>
           map_key_size mp' = map_key_size mp \<and> map_val_size mp' = map_val_size mp \<and>
           upb_state_grows st st' \<and> arena_wf (st_arena st') \<and> st_arrays st' = st_arrays st \<and>
           upb_map_abs (st_mem st') mp' = (upb_map_abs (st_mem st) mp)
             (upb_map_tokey (st_mem st) key (map_key_size mp) \<mapsto> take (upb_map_val_width (map_val_size mp)) val)"
proof -
  define k where "k = upb_map_tokey (st_mem st) key (map_key_size mp)"
  define t where "t = filter (\<lambda>e. ent_key e \<noteq> k) (map_table mp)"
  obtain e where f: "st_maps st' = (st_maps st)(m \<mapsto> mp\<lparr>map_table := t @ [e]\<rparr>)"
    "ent_key e = k" "upb_tabent_wf st' mp e"
    "upb_map_fromvalue (st_mem st') (ent_val e) (map_val_size mp) = take (upb_map_val_width (map_val_size mp)) val"
    "upb_state_grows st st'" "arena_wf (st_arena st')" "st_arrays st' = st_arrays st"
    by (rule upb_map_set_True_facts[OF set mp wf ksz vsz, folded k_def, folded t_def]) (rule that; assumption)
  have old: "map_wf st' mp" using map_wf_grows[OF wf(1) f(5)] .
  have abs_t: "upb_map_abs (st_mem st') (mp\<lparr>map_table := t\<rparr>) = (upb_map_abs (st_mem st) mp)(k := None)"
    using upb_map_abs_grows[OF wf(1) f(5)] by (simp add: upb_map_abs_def t_def map_of_ent_filter)
  have "map_wf st' (mp\<lparr>map_table := t @ [e]\<rparr>)"
    using old f(2,3) by (auto simp: map_wf_def t_def distinct_map_filter list_all_iff)
  moreover have "upb_map_abs (st_mem st') (mp\<lparr>map_table := t @ [e]\<rparr>) =
      (upb_map_abs (st_mem st) mp)(k \<mapsto> take (upb_map_val_width (map_val_size mp)) val)"
    using abs_t f(2,4) by (simp add: upb_map_abs_def fun_eq_iff map_add_def split: option.splits)
  ultimately show ?thesis using f by (auto simp: k_def)
qed

lemma map_wf_maps [simp]: "map_wf (st\<lparr>st_maps := M\<rparr>) = map_wf st"
  by (simp add: map_wf_def fun_eq_iff)

lemma upb_map_get_abs:
  "st_maps st m = Some mp \<Longrightarrow>
     upb_map_get st m key = Inr (upb_map_abs (st_mem st) mp (upb_map_tokey (st_mem st) key (map_key_size mp)))"
  by (simp add: upb_map_get_def priv_upb_map_get_def upb_map_abs_lookup split: option.splits)

lemma upb_map_delete_abs:
  fixes key :: upb_msgval
  assumes mp: "st_maps st m = Some mp" and wf: "map_wf st mp"
  defines "k \<equiv> upb_map_tokey (st_mem st) key (map_key_size mp)"
  shows "\<exists>mp'. upb_map_delete st m key =
                 Inr (k \<in> dom (upb_map_abs (st_mem st) mp), st\<lparr>st_maps := (st_maps st)(m \<mapsto> mp')\<rparr>) \<and>
               map_wf st mp' \<and> map_key_size mp' = map_key_size mp \<and> map_val_size mp' = map_val_size mp \<and>
               upb_map_abs (st_mem st) mp' = (upb_map_abs (st_mem st) mp)(k := None)"
proof -
  let ?mp' = "mp\<lparr>map_table := filter (\<lambda>e. ent_key e \<noteq> k) (map_table mp)\<rparr>"
  have "upb_map_delete st m key =
          Inr (fst (upb_strtable_remove (map_table mp) k), st\<lparr>st_maps := (st_maps st)(m \<mapsto> ?mp')\<rparr>)"
    using mp by (simp add: upb_map_delete_def priv_upb_map_delete_def upb_strtable_remove_def k_def)
  then have "upb_map_delete st m key =
          Inr (k \<in> dom (upb_map_abs (st_mem st) mp), st\<lparr>st_maps := (st_maps st)(m \<mapsto> ?mp')\<rparr>)"
    by (simp only: upb_strtable_remove_found dom_upb_map_abs)
  moreover have "map_wf st ?mp'"
    using wf by (auto simp: map_wf_def distinct_map_filter list_all_iff)
  moreover have "upb_map_abs (st_mem st) ?mp' = (upb_map_abs (st_mem st) mp)(k := None)"
    by (simp add: upb_map_abs_def map_of_ent_filter)
  ultimately show ?thesis by auto
qed

lemma upb_map_set_False_facts:
  assumes set: "upb_map_set st m key val = Inr (False, st')" and mp: "st_maps st m = Some mp"
    and wf: "arena_wf (st_arena st)"
  defines "k \<equiv> upb_map_tokey (st_mem st) key (map_key_size mp)"
  obtains t where "st_maps st' = (st_maps st)(m \<mapsto> mp\<lparr>map_table := t\<rparr>)"
    "t = map_table mp \<or> t = filter (\<lambda>e. ent_key e \<noteq> k) (map_table mp)"
    "upb_state_grows st st'" "arena_wf (st_arena st')" "st_arrays st' = st_arrays st"
proof (cases "upb_map_tovalue st val (map_val_size mp)")
  case None
  then have "st' = st" using set mp by (simp add: upb_map_set_def priv_upb_map_set_def)
  then show thesis using mp wf by (intro that[of "map_table mp"]) auto
next
  case (Some r)
  then obtain w st1 where tv: "upb_map_tovalue st val (map_val_size mp) = Some (w, st1)"
    by (cases r) auto
  note tf = upb_map_tovalue_Some[OF tv wf]
  have st': "st' = st1\<lparr>st_maps := (st_maps st1)(m \<mapsto> mp\<lparr>map_table := filter (\<lambda>e. ent_key e \<noteq> k) (map_table mp)\<rparr>)\<rparr>"
    using set mp tv upb_strtable_lookup_remove
    by (auto simp: upb_map_set_def priv_upb_map_set_def upb_strtable_insert_def upb_strtable_remove_def
             k_def Let_def split: option.splits)
  show thesis
    by (rule that[of "filter (\<lambda>e. ent_key e \<noteq> k) (map_table mp)"]) (use tf in \<open>simp_all add: st'\<close>)
qed

lemma upb_fieldtype_to_mapsize_le_8: "upb_fieldtype_to_mapsize t \<le> 8"
  by (cases t) (simp_all add: sizeof_ptr_def)

lemma map_wf_filter: "map_wf st mp \<Longrightarrow> map_wf st (mp\<lparr>map_table := filter P (map_table mp)\<rparr>)"
  by (auto simp: map_wf_def distinct_map_filter list_all_iff)

lemma maps_wf_update:
  assumes "maps_wf st" "upb_state_grows st st'" "st_maps st m = Some mp"
    and "map_wf st' mp'" "st_maps st' = (st_maps st)(m \<mapsto> mp')"
  shows "maps_wf st'"
  using assms map_wf_grows[OF _ assms(2)]
  unfolding maps_wf_def upb_state_grows_def by (auto split: if_splits) fastforce+

lemma upb_map_set_maps_wf:
  assumes set: "upb_map_set st m key val = Inr (b, st')" and mp: "st_maps st m = Some mp"
    and wf: "maps_wf st" "arena_wf (st_arena st)"
    and ksz: "map_key_size mp \<le> length key" and vsz: "upb_map_val_width (map_val_size mp) \<le> length val"
  shows "maps_wf st' \<and> arena_wf (st_arena st')"
proof -
  have mwf: "map_wf st mp" using wf(1) mp by (simp add: maps_wf_def)
  show ?thesis
  proof (cases b)
    case True
    then have s: "upb_map_set st m key val = Inr (True, st')" using set by simp
    show ?thesis
      using upb_map_set_True_abs[OF s mp mwf wf(2) ksz vsz]
      by (auto intro: maps_wf_update[OF wf(1) _ mp])
  next
    case False
    then have s: "upb_map_set st m key val = Inr (False, st')" using set by simp
    obtain t where f: "st_maps st' = (st_maps st)(m \<mapsto> mp\<lparr>map_table := t\<rparr>)"
      "t = map_table mp \<or> t = filter (\<lambda>e. ent_key e \<noteq> upb_map_tokey (st_mem st) key (map_key_size mp)) (map_table mp)"
      "upb_state_grows st st'" "arena_wf (st_arena st')"
      by (rule upb_map_set_False_facts[OF s mp wf(2)])
    have "map_wf st (mp\<lparr>map_table := t\<rparr>)" using f(2) mwf map_wf_filter by auto
    then have "map_wf st' (mp\<lparr>map_table := t\<rparr>)" using map_wf_grows f(3) by blast
    then show ?thesis using maps_wf_update[OF wf(1) f(3) mp _ f(1)] f(4) by simp
  qed
qed

lemma upb_map_delete_maps_wf:
  assumes del: "upb_map_delete st m key = Inr (b, st')" and wf: "maps_wf st"
  shows "maps_wf st' \<and> st_arena st' = st_arena st \<and> st_mem st' = st_mem st"
proof -
  obtain mp where mp: "st_maps st m = Some mp" using del by (auto simp: upb_map_delete_def split: option.splits)
  have mwf: "map_wf st mp" using wf mp by (simp add: maps_wf_def)
  obtain mp' where "st' = st\<lparr>st_maps := (st_maps st)(m \<mapsto> mp')\<rparr>" "map_wf st mp'"
    using upb_map_delete_abs[OF mp mwf, of key] del by auto
  then show ?thesis using maps_wf_update[OF wf _ mp] by simp
qed

lemma upb_map_new_facts:
  assumes new: "upb_map_new st kt vt = (p, st')" and wf: "maps_wf st" "arena_wf (st_arena st)"
  shows "maps_wf st' \<and> arena_wf (st_arena st') \<and> upb_state_grows st st' \<and> st_arrays st' = st_arrays st"
    and "p \<noteq> 0 \<Longrightarrow> st_maps st p = None \<and>
           st_maps st' = (st_maps st)(p \<mapsto> \<lparr>map_key_size = upb_fieldtype_to_mapsize kt,
                                           map_val_size = upb_fieldtype_to_mapsize vt, map_table = []\<rparr>)"
    and "p = 0 \<Longrightarrow> st' = st"
proof -
  let ?mp = "\<lparr>map_key_size = upb_fieldtype_to_mapsize kt, map_val_size = upb_fieldtype_to_mapsize vt, map_table = []\<rparr>"
  have "(upb_malloc st sizeof_upb_map = None \<and> p = 0 \<and> st' = st) \<or>
        (\<exists>st1. upb_malloc st sizeof_upb_map = Some (p, st1) \<and> st' = st1\<lparr>st_maps := (st_maps st1)(p \<mapsto> ?mp)\<rparr>)"
    using new by (auto simp: upb_map_new_def priv_upb_map_new_def split: option.splits)
  then consider "upb_malloc st sizeof_upb_map = None" "p = 0" "st' = st"
    | st1 where "upb_malloc st sizeof_upb_map = Some (p, st1)" "st' = st1\<lparr>st_maps := (st_maps st1)(p \<mapsto> ?mp)\<rparr>"
    by (elim disjE exE conjE) fast+
  then have "(maps_wf st' \<and> arena_wf (st_arena st') \<and> upb_state_grows st st' \<and> st_arrays st' = st_arrays st) \<and>
    (p \<noteq> 0 \<longrightarrow> st_maps st p = None \<and> st_maps st' = (st_maps st)(p \<mapsto> ?mp)) \<and> (p = 0 \<longrightarrow> st' = st)"
  proof cases
    case 1
    then show ?thesis using wf by simp
  next
    case (2 st1)
    note mw = upb_malloc_wf[OF 2(1) wf(2)]
    have g: "upb_state_grows st st1" using upb_malloc_grows[OF 2(1)] .
    have fresh: "st_maps st p = None"
    proof (rule ccontr)
      assume "st_maps st p \<noteq> None"
      then obtain mp where "st_maps st p = Some mp" by auto
      then show False using wf(1) mw(2) by (fastforce simp: maps_wf_def sizeof_upb_map_def)
    qed
    have "map_wf st1 ?mp" by (simp add: map_wf_def upb_fieldtype_to_mapsize_le_8)
    moreover have "0 < p" "p + sizeof_upb_map \<le> ar_top (st_arena st1)" using mw(3,4) by simp_all
    ultimately have "maps_wf st'"
      using wf(1) map_wf_grows[OF _ g] g mw(10)
      by (auto simp: maps_wf_def 2(2) upb_state_grows_def) (fastforce intro: le_trans)
    then show ?thesis using mw fresh g by (simp add: 2(2))
  qed
  then show "maps_wf st' \<and> arena_wf (st_arena st') \<and> upb_state_grows st st' \<and> st_arrays st' = st_arrays st"
    "p \<noteq> 0 \<Longrightarrow> st_maps st p = None \<and> st_maps st' = (st_maps st)(p \<mapsto> ?mp)" "p = 0 \<Longrightarrow> st' = st"
    by simp_all
qed

lemma unat_of_nat_lt: "i < 2 ^ 64 \<Longrightarrow> unat (word_of_nat i :: 64 word) = i"
  by (simp add: unat_of_nat take_bit_nat_eq_self)

lemma upb_mapiter_next_index:
  assumes "st_maps st m = Some mp" "i \<le> length (map_table mp)" "length (map_table mp) < 2 ^ 64 - 1"
  shows "upb_mapiter_next st m (word_of_nat i - 1) =
           Inr (if i < length (map_table mp) then (True, word_of_nat i) else (False, - 2))"
  using assms unat_of_nat_lt[of i]
  by (simp add: upb_mapiter_next_def priv_upb_map_next_def)

lemma upb_mapiter_entry:
  assumes mp: "st_maps st m = Some mp" and wf: "map_wf st mp" "arena_wf (st_arena st)"
    and i: "i < length (map_table mp)" "length (map_table mp) < 2 ^ 64 - 1"
  shows "\<exists>k. upb_mapiter_key st m (word_of_nat i) = Inr k \<and>
             upb_map_tokey (st_mem st) k (map_key_size mp) = ent_key (map_table mp ! i)"
    and "upb_mapiter_value st m (word_of_nat i) =
           Inr (upb_map_fromvalue (st_mem st) (ent_val (map_table mp ! i)) (map_val_size mp))"
proof -
  have u: "unat (word_of_nat i :: 64 word) = i" using i by (simp add: unat_of_nat_lt)
  define e where "e = map_table mp ! i"
  have ewf: "upb_tabent_wf st mp e"
    using wf(1) i(1) by (simp add: map_wf_def list_all_iff e_def)
  have bnd: "ent_keyptr e + length (ent_key e) < 2 ^ 64"
    using ewf wf(2) by (simp add: upb_tabent_wf_def arena_wf_def)
  show "upb_mapiter_value st m (word_of_nat i) =
           Inr (upb_map_fromvalue (st_mem st) (ent_val (map_table mp ! i)) (map_val_size mp))"
    using mp i u by (simp add: upb_mapiter_value_def)
  have "upb_map_tokey (st_mem st) (upb_map_fromkey (st_mem st) (ent_keyptr e, length (ent_key e)) (map_key_size mp))
          (map_key_size mp) = ent_key e"
    using ewf bnd by (auto simp: upb_map_tokey_def upb_map_fromkey_def upb_tabent_wf_def split: if_splits)
  then show "\<exists>k. upb_mapiter_key st m (word_of_nat i) = Inr k \<and>
             upb_map_tokey (st_mem st) k (map_key_size mp) = ent_key (map_table mp ! i)"
    using mp i u by (simp add: upb_mapiter_key_def e_def Let_def)
qed

lemma map_of_ent_nth:
  "distinct (map ent_key t) \<Longrightarrow> i < length t \<Longrightarrow>
     map_of (map (\<lambda>e. (ent_key e, f e)) t) (ent_key (t ! i)) = Some (f (t ! i))"
proof (induction t arbitrary: i)
  case (Cons a t)
  then show ?case
  proof (cases i)
    case (Suc j)
    then have "ent_key (t ! j) \<in> ent_key ` set t" using Cons.prems(2) by simp
    then have "ent_key (t ! j) \<noteq> ent_key a" using Cons.prems(1) by auto
    then show ?thesis using Cons Suc by simp
  qed simp
qed simp

lemma upb_map_abs_nth:
  "map_wf st mp \<Longrightarrow> i < length (map_table mp) \<Longrightarrow>
     upb_map_abs m mp (ent_key (map_table mp ! i)) =
       Some (upb_map_fromvalue m (ent_val (map_table mp ! i)) (map_val_size mp))"
  unfolding upb_map_abs_def map_wf_def by (simp add: map_of_ent_nth)

lemma upb_map_abs_Some_nth:
  assumes "upb_map_abs m mp k = Some v"
  obtains i where "i < length (map_table mp)" "ent_key (map_table mp ! i) = k"
    "upb_map_fromvalue m (ent_val (map_table mp ! i)) (map_val_size mp) = v"
proof -
  obtain e where e: "e \<in> set (map_table mp)" "ent_key e = k"
      "upb_map_fromvalue m (ent_val e) (map_val_size mp) = v"
    using map_of_SomeD[OF assms[unfolded upb_map_abs_def]] by auto
  then obtain i where "i < length (map_table mp)" "map_table mp ! i = e"
    by (auto simp: in_set_conv_nth)
  then show thesis using that e by blast
qed

text \<open>The size of a map is the number of keys it denotes.\<close>

lemma upb_map_size_card:
  "st_maps st m = Some mp \<Longrightarrow> map_wf st mp \<Longrightarrow>
     upb_map_size st m = Inr (card (dom (upb_map_abs (st_mem st) mp)))"
  using distinct_card[of "map ent_key (map_table mp)"]
  by (simp add: upb_map_size_def priv_upb_map_size_def dom_upb_map_abs map_wf_def)

lemma card_dom_upd_Some:
  "finite (dom f) \<Longrightarrow> card (insert k (dom f)) = (if f k = None then Suc (card (dom f)) else card (dom f))"
  by (auto simp: card_insert_if domIff)

lemma card_dom_upd_None:
  "finite (dom f) \<Longrightarrow> card (dom f - {k}) = (if f k = None then card (dom f) else card (dom f) - 1)"
  by (auto simp: card_Diff_singleton_if domIff)

lemma finite_dom_upb_map_abs [simp]: "finite (dom (upb_map_abs m mp))"
  by (simp add: dom_upb_map_abs)

lemma upb_mapiter_keys_drop:
  assumes mp: "st_maps st m = Some mp" and wf: "map_wf st mp" "arena_wf (st_arena st)"
    and n: "length (map_table mp) < 2 ^ 64 - 1" and j: "j \<le> length (map_table mp)"
  shows "\<exists>ks. upb_mapiter_keys (Suc j) st m (word_of_nat (length (map_table mp) - j) - 1) = Some ks \<and>
           map (\<lambda>k. upb_map_tokey (st_mem st) k (map_key_size mp)) ks =
             map ent_key (drop (length (map_table mp) - j) (map_table mp))"
  using j
proof (induction j)
  case 0
  then show ?case using upb_mapiter_next_index[OF mp _ n, of "length (map_table mp)"] by simp
next
  case (Suc j)
  define i where "i = length (map_table mp) - Suc j"
  have i: "i < length (map_table mp)" "length (map_table mp) - j = Suc i"
    using Suc.prems by (simp_all add: i_def)
  obtain ks where ks: "upb_mapiter_keys (Suc j) st m (word_of_nat i) = Some ks"
      "map (\<lambda>k. upb_map_tokey (st_mem st) k (map_key_size mp)) ks = map ent_key (drop (Suc i) (map_table mp))"
    using Suc i by auto
  obtain k where k: "upb_mapiter_key st m (word_of_nat i) = Inr k"
      "upb_map_tokey (st_mem st) k (map_key_size mp) = ent_key (map_table mp ! i)"
    using upb_mapiter_entry(1)[OF mp wf i(1) n] by auto
  have "upb_mapiter_next st m (word_of_nat i - 1) = Inr (True, word_of_nat i)"
    using upb_mapiter_next_index[OF mp _ n, of i] i(1) by simp
  then show ?case
    using ks k i by (simp add: i_def[symmetric] Cons_nth_drop_Suc[OF i(1), symmetric])
qed

lemma ex_map_facts:
  "st_maps ex_map_state = [64 \<mapsto> ex_map]" "st_arena ex_map_state = \<lparr>ar_top = 120, ar_end = 4096\<rparr>"
  "st_maps ex_map_full_state = [64 \<mapsto> ex_map]" "st_arena ex_map_full_state = \<lparr>ar_top = 120, ar_end = 120\<rparr>"
  "st_mem ex_map_full_state = st_mem ex_map_state"
  "map_key_size ex_map = 4" "map_val_size ex_map = 4"
  by (simp_all add: ex_map_state_def ex_map_full_state_def ex_map_def)

lemma ex_map_wf:
  "map_wf ex_map_state ex_map" "maps_wf ex_map_state" "arena_wf (st_arena ex_map_state)"
  "map_wf ex_map_full_state ex_map" "maps_wf ex_map_full_state" "arena_wf (st_arena ex_map_full_state)"
  by (simp_all add: map_wf_def maps_wf_def upb_tabent_wf_def arena_wf_def ex_map_def
        ex_map_state_def ex_map_full_state_def mem_read_def UPB_MAPTYPE_STRING_def sizeof_upb_map_def)

lemma ex_mv_int32: "mv_int32 5 = [5, 0, 0, 0]" "mv_int32 6 = [6, 0, 0, 0]" "mv_int32 7 = [7, 0, 0, 0]" "mv_int32 9 = [9, 0, 0, 0]"
  "le_bytes 4 (4 :: 32 word) = [4, 0, 0, 0]"
  "le_bytes 4 (7 :: 64 word) = [7, 0, 0, 0]" "le_bytes 4 (9 :: 64 word) = [9, 0, 0, 0]"
  by (simp_all add: mv_int32_def le_bytes_def upt_rec drop_bit_eq_div)
lemma ex_le_word: "(le_word [9, 0, 0, 0] :: 64 word) = 9" "(le_word [7, 0, 0, 0] :: 64 word) = 7"
  by simp_all

lemma ex_map_runs:
  "upb_map_set ex_map_state 64 (mv_int32 5) (mv_int32 9) = Inr (True,
     ex_map_state\<lparr>st_mem := mem_write (st_mem ex_map_state) 120 [4, 0, 0, 0, 5, 0, 0, 0, 0],
       st_maps := [64 \<mapsto> ex_map\<lparr>map_table := [\<lparr>ent_key = [5, 0, 0, 0], ent_keyptr = 124, ent_val = 9\<rparr>]\<rparr>],
       st_arena := \<lparr>ar_top = 136, ar_end = 4096\<rparr>\<rparr>)"
  by (simp add: upb_map_set_def priv_upb_map_set_def ex_map_facts ex_map_def upb_map_tokey_def
       upb_map_tovalue_def UPB_MAPTYPE_STRING_def ex_mv_int32 ex_le_word upb_strtable_remove_def
       upb_strtable_insert_def upb_strtable_lookup_def upb_malloc_def
       upb_arena_malloc_def upb_align_malloc_def ex_map_state_def)


lemma upb_map_tokey_grows:
  "upb_map_key_allocated st mp key \<Longrightarrow> upb_state_grows st st' \<Longrightarrow>
     upb_map_tokey (st_mem st') key (map_key_size mp) = upb_map_tokey (st_mem st) key (map_key_size mp)"
  by (auto simp: upb_map_key_allocated_def upb_map_tokey_def upb_state_grows_mem_read split: prod.splits)

lemma map_sum_snd_Inr:
  "map_sum id snd r = Inr st' \<Longrightarrow> \<exists>b. r = Inr (b, st')"
  by (cases r) auto

subsection \<open>Owned bytes and frames\<close>

lemma upb_tabent_bytes_table [simp]: "upb_tabent_bytes (mp\<lparr>map_table := t\<rparr>) = upb_tabent_bytes mp"
  by (simp add: upb_tabent_bytes_def fun_eq_iff)

lemma upb_tabent_wf_arrays [simp]: "upb_tabent_wf (st\<lparr>st_arrays := A\<rparr>) = upb_tabent_wf st"
  by (simp add: upb_tabent_wf_def fun_eq_iff)

lemma upb_map_bytes_state [simp]:
  "upb_map_bytes (st\<lparr>st_mem := m\<rparr>) = upb_map_bytes st"
  "upb_map_bytes (st\<lparr>st_arrays := A\<rparr>) = upb_map_bytes st"
  "upb_map_bytes (st\<lparr>st_arena := R\<rparr>) = upb_map_bytes st"
  "maps_wf (st\<lparr>st_arrays := A\<rparr>) = maps_wf st"
  by (simp_all add: upb_map_bytes_def maps_wf_def map_wf_def fun_eq_iff)

lemma upb_tabent_bytes_below:
  "upb_tabent_wf st mp e \<Longrightarrow> upb_tabent_bytes mp e x \<Longrightarrow> x < ar_top (st_arena st)"
  by (auto simp: upb_tabent_wf_def upb_tabent_bytes_def split: if_splits)

lemma maps_wf_grows:
  "maps_wf st \<Longrightarrow> upb_state_grows st st' \<Longrightarrow> st_maps st' = st_maps st \<Longrightarrow> maps_wf st'"
  unfolding maps_wf_def by (metis map_wf_grows order_trans upb_state_grows_def)

lemma upb_map_bytes_below: "maps_wf st \<Longrightarrow> upb_map_bytes st x \<Longrightarrow> x < ar_top (st_arena st)"
  unfolding upb_map_bytes_def maps_wf_def map_wf_def list_all_iff
  by (blast dest: upb_tabent_bytes_below)

text \<open>An entry's well-formedness and decoded value depend only on the bytes it owns.\<close>

lemma upb_tabent_mem:
  assumes "\<And>x. upb_tabent_bytes mp e x \<Longrightarrow> m' x = st_mem st x"
  shows "upb_tabent_wf (st\<lparr>st_mem := m'\<rparr>) mp e = upb_tabent_wf st mp e"
    and "upb_map_fromvalue m' (ent_val e) (map_val_size mp) =
         upb_map_fromvalue (st_mem st) (ent_val e) (map_val_size mp)"
proof -
  have "mem_read m' (ent_keyptr e) (length (ent_key e)) = mem_read (st_mem st) (ent_keyptr e) (length (ent_key e))"
    by (rule mem_read_cong) (simp add: assms upb_tabent_bytes_def)
  then show "upb_tabent_wf (st\<lparr>st_mem := m'\<rparr>) mp e = upb_tabent_wf st mp e"
    by (simp add: upb_tabent_wf_def)
  have "map_val_size mp = UPB_MAPTYPE_STRING \<Longrightarrow>
      mem_read m' (unat (ent_val e)) sizeof_strview = mem_read (st_mem st) (unat (ent_val e)) sizeof_strview"
    by (rule mem_read_cong) (simp add: assms upb_tabent_bytes_def)
  then show "upb_map_fromvalue m' (ent_val e) (map_val_size mp) =
      upb_map_fromvalue (st_mem st) (ent_val e) (map_val_size mp)"
    by (simp add: upb_map_fromvalue_def)
qed

text \<open>A write that avoids the bytes the maps own keeps every map and what it denotes.\<close>

lemma maps_wf_mem:
  assumes wf: "maps_wf st" and m: "\<And>x. upb_map_bytes st x \<Longrightarrow> m' x = st_mem st x"
  shows "maps_wf (st\<lparr>st_mem := m'\<rparr>)"
    and "st_maps st k = Some mp \<Longrightarrow> upb_map_abs m' mp = upb_map_abs (st_mem st) mp"
proof -
  have e: "upb_tabent_bytes mp e x \<Longrightarrow> m' x = st_mem st x"
    if "st_maps st k = Some mp" "e \<in> set (map_table mp)" for k mp e x
    using m that unfolding upb_map_bytes_def by blast
  show "maps_wf (st\<lparr>st_mem := m'\<rparr>)"
    unfolding maps_wf_def
  proof (intro allI impI)
    fix k mp assume "st_maps (st\<lparr>st_mem := m'\<rparr>) k = Some mp"
    then have k: "st_maps st k = Some mp" by simp
    have "upb_tabent_wf (st\<lparr>st_mem := m'\<rparr>) mp e = upb_tabent_wf st mp e" if "e \<in> set (map_table mp)" for e
      using upb_tabent_mem(1) e[OF k that] by blast
    then show "0 < k \<and> k + sizeof_upb_map \<le> ar_top (st_arena (st\<lparr>st_mem := m'\<rparr>)) \<and>
        map_wf (st\<lparr>st_mem := m'\<rparr>) mp"
      using wf k unfolding maps_wf_def map_wf_def list_all_iff by simp
  qed
  assume k: "st_maps st k = Some mp"
  have "upb_map_fromvalue m' (ent_val e) (map_val_size mp) =
      upb_map_fromvalue (st_mem st) (ent_val e) (map_val_size mp)" if "e \<in> set (map_table mp)" for e
    using upb_tabent_mem(2) e[OF k that] by blast
  then show "upb_map_abs m' mp = upb_map_abs (st_mem st) mp"
    by (simp add: upb_map_abs_def cong: map_cong)
qed

text \<open>
  A map step keeps the maps and the arena well formed, only allocates and writes fresh
  memory, leaves the arrays alone, adds owned bytes only at or above the old arena
  top, and changes no map but the one it acts on.
\<close>

lemma upb_map_step_frame:
  assumes step: "upb_map_step st op = Inr st'" and ok: "upb_map_op_ok st op"
    and wf: "maps_wf st" "arena_wf (st_arena st)"
  shows "maps_wf st' \<and> arena_wf (st_arena st') \<and> upb_state_grows st st' \<and> st_arrays st' = st_arrays st \<and>
         (\<forall>x. upb_map_bytes st' x \<longrightarrow> upb_map_bytes st x \<or> ar_top (st_arena st) \<le> x) \<and>
         (\<forall>k mp. st_maps st k = Some mp \<longrightarrow> upb_map_op_handle op \<noteq> Some k \<longrightarrow> st_maps st' k = Some mp)"
proof (cases op)
  case (MapNew kt vt)
  then have "snd (upb_map_new st kt vt) = st'" using step by simp
  then have new: "upb_map_new st kt vt = (fst (upb_map_new st kt vt), st')" by (metis prod.collapse)
  note f = upb_map_new_facts[OF new wf]
  show ?thesis
  proof (cases "fst (upb_map_new st kt vt) = 0")
    case True
    then show ?thesis using f(3) wf by simp
  next
    case False
    then show ?thesis using f(1) f(2)[OF False] MapNew by (auto simp: upb_map_bytes_def split: if_splits)
  qed
next
  case (MapSet m k v)
  then obtain b where s: "upb_map_set st m k v = Inr (b, st')"
    using step map_sum_snd_Inr by fastforce
  obtain mp where mp: "st_maps st m = Some mp"
    using s by (cases "st_maps st m") (simp_all add: upb_map_set_def)
  have sz: "map_key_size mp \<le> length k" "upb_map_val_width (map_val_size mp) \<le> length v"
    using ok mp MapSet by simp_all
  have mwf: "map_wf st mp" using wf(1) mp by (simp add: maps_wf_def)
  note w = upb_map_set_maps_wf[OF s mp wf sz]
  show ?thesis
  proof (cases b)
    case True
    with s have sT: "upb_map_set st m k v = Inr (True, st')" by simp
    obtain e where f: "st_maps st' = (st_maps st)(m \<mapsto> mp\<lparr>map_table :=
        filter (\<lambda>e. ent_key e \<noteq> upb_map_tokey (st_mem st) k (map_key_size mp)) (map_table mp) @ [e]\<rparr>)"
      "upb_state_grows st st'" "st_arrays st' = st_arrays st"
      "ar_top (st_arena st) \<le> ent_keyptr e"
      "map_val_size mp = UPB_MAPTYPE_STRING \<Longrightarrow> ar_top (st_arena st) \<le> unat (ent_val e)"
      by (rule upb_map_set_True_facts[OF sT mp mwf wf(2) sz]) (rule that; assumption)
    have "ar_top (st_arena st) \<le> x" if "upb_tabent_bytes mp e x" for x
      using that f(4,5) by (auto simp: upb_tabent_bytes_def)
    then show ?thesis using w f(1,2,3) mp MapSet
      by (auto simp: upb_map_bytes_def split: if_splits)
  next
    case False
    with s have sF: "upb_map_set st m k v = Inr (False, st')" by simp
    obtain t where f: "st_maps st' = (st_maps st)(m \<mapsto> mp\<lparr>map_table := t\<rparr>)"
      "t = map_table mp \<or> t = filter (\<lambda>e. ent_key e \<noteq> upb_map_tokey (st_mem st) k (map_key_size mp)) (map_table mp)"
      "upb_state_grows st st'" "st_arrays st' = st_arrays st"
      by (rule upb_map_set_False_facts[OF sF mp wf(2)]) (rule that; assumption)
    have "set t \<subseteq> set (map_table mp)" using f(2) by auto
    then show ?thesis using w f(1,3,4) mp MapSet
      by (auto simp: upb_map_bytes_def split: if_splits)
  qed
next
  case (MapDelete m k)
  then obtain b where d: "upb_map_delete st m k = Inr (b, st')"
    using step map_sum_snd_Inr by fastforce
  obtain mp where mp: "st_maps st m = Some mp"
    using d by (cases "st_maps st m") (simp_all add: upb_map_delete_def)
  have st': "st' = st\<lparr>st_maps := (st_maps st)(m \<mapsto> mp\<lparr>map_table :=
      filter (\<lambda>e. ent_key e \<noteq> upb_map_tokey (st_mem st) k (map_key_size mp)) (map_table mp)\<rparr>)\<rparr>"
    using d mp by (auto simp: upb_map_delete_def priv_upb_map_delete_def upb_strtable_remove_def)
  show ?thesis
    using upb_map_delete_maps_wf[OF d wf(1)] wf(2) mp MapDelete
    by (auto simp: st' upb_map_bytes_def upb_state_grows_def split: if_splits)
qed

section \<open>Properties of the map container\<close>

text \<open>
  C21.  After a successful \<open>upb_map_set(map, key, val)\<close>, \<open>upb_map_get(map, key)\<close>
  finds the key and returns the value (spec section 8, map round trip).
\<close>

theorem upb_map_set_get:
  assumes set: "upb_map_set st m key val = Inr (True, st')" and mp: "st_maps st m = Some mp"
    and wf: "maps_wf st" "arena_wf (st_arena st)"
    and ksz: "map_key_size mp \<le> length key" and vsz: "upb_map_val_width (map_val_size mp) \<le> length val"
    and ka: "upb_map_key_allocated st mp key"
  shows "upb_map_get st' m key = Inr (Some (take (upb_map_val_width (map_val_size mp)) val))"
proof -
  have mwf: "map_wf st mp" using wf(1) mp by (simp add: maps_wf_def)
  obtain mp' where f: "st_maps st' m = Some mp'" "map_key_size mp' = map_key_size mp" "upb_state_grows st st'"
    "upb_map_abs (st_mem st') mp' = (upb_map_abs (st_mem st) mp)
       (upb_map_tokey (st_mem st) key (map_key_size mp) \<mapsto> take (upb_map_val_width (map_val_size mp)) val)"
    using upb_map_set_True_abs[OF set mp mwf wf(2) ksz vsz] by auto
  show ?thesis using upb_map_get_abs[OF f(1)] f(2,4) upb_map_tokey_grows[OF ka f(3)] by simp
qed

theorem upb_map_set_get_witness:
  "\<exists>st'. upb_map_set ex_map_state 64 (mv_int32 5) (mv_int32 9) = Inr (True, st') \<and>
     upb_map_get st' 64 (mv_int32 5) = Inr (Some (mv_int32 9))"
proof -
  obtain st' where s: "upb_map_set ex_map_state 64 (mv_int32 5) (mv_int32 9) = Inr (True, st')"
    using ex_map_runs by blast
  have h: "st_maps ex_map_state 64 = Some ex_map" "map_key_size ex_map \<le> length (mv_int32 5)"
    "upb_map_val_width (map_val_size ex_map) \<le> length (mv_int32 9)"
    "upb_map_key_allocated ex_map_state ex_map (mv_int32 5)"
    by (simp_all add: ex_map_facts upb_map_val_width_def UPB_MAPTYPE_STRING_def upb_map_key_allocated_def)
  show ?thesis
    using s upb_map_set_get[OF s h(1) ex_map_wf(2,3) h(2,3,4)]
    by (simp add: ex_map_facts upb_map_val_width_def UPB_MAPTYPE_STRING_def)
qed

text \<open>
  C22.  A successful \<open>upb_map_set\<close> leaves the entries of every other key as they
  were.
\<close>

theorem upb_map_set_other_keys:
  assumes set: "upb_map_set st m key val = Inr (True, st')" and mp: "st_maps st m = Some mp"
    and wf: "maps_wf st" "arena_wf (st_arena st)"
    and ksz: "map_key_size mp \<le> length key" and vsz: "upb_map_val_width (map_val_size mp) \<le> length val"
    and ka: "upb_map_key_allocated st mp key'"
    and ne: "upb_map_tokey (st_mem st) key' (map_key_size mp) \<noteq> upb_map_tokey (st_mem st) key (map_key_size mp)"
  shows "upb_map_get st' m key' = upb_map_get st m key'"
proof -
  have mwf: "map_wf st mp" using wf(1) mp by (simp add: maps_wf_def)
  obtain mp' where f: "st_maps st' m = Some mp'" "map_key_size mp' = map_key_size mp" "upb_state_grows st st'"
    "upb_map_abs (st_mem st') mp' = (upb_map_abs (st_mem st) mp)
       (upb_map_tokey (st_mem st) key (map_key_size mp) \<mapsto> take (upb_map_val_width (map_val_size mp)) val)"
    using upb_map_set_True_abs[OF set mp mwf wf(2) ksz vsz] by auto
  show ?thesis
    using upb_map_get_abs[OF f(1)] upb_map_get_abs[OF mp] f(2,4) upb_map_tokey_grows[OF ka f(3)] ne by simp
qed

theorem upb_map_set_other_keys_witness:
  "\<exists>st'. upb_map_set ex_map_state 64 (mv_int32 6) (mv_int32 9) = Inr (True, st') \<and>
     upb_map_get st' 64 (mv_int32 5) = upb_map_get ex_map_state 64 (mv_int32 5)"
proof -
  have "\<exists>st'. upb_map_set ex_map_state 64 (mv_int32 6) (mv_int32 9) = Inr (True, st')"
    by (simp add: upb_map_set_def priv_upb_map_set_def ex_map_facts ex_map_def upb_map_tokey_def
       upb_map_tovalue_def UPB_MAPTYPE_STRING_def ex_mv_int32 upb_strtable_remove_def
       upb_strtable_insert_def upb_strtable_lookup_def upb_malloc_def
       upb_arena_malloc_def upb_align_malloc_def ex_map_state_def)
  then obtain st' where s: "upb_map_set ex_map_state 64 (mv_int32 6) (mv_int32 9) = Inr (True, st')"
    by blast
  have h: "st_maps ex_map_state 64 = Some ex_map" "map_key_size ex_map \<le> length (mv_int32 6)"
    "upb_map_val_width (map_val_size ex_map) \<le> length (mv_int32 9)"
    "upb_map_key_allocated ex_map_state ex_map (mv_int32 5)"
    "upb_map_tokey (st_mem ex_map_state) (mv_int32 5) (map_key_size ex_map) \<noteq>
     upb_map_tokey (st_mem ex_map_state) (mv_int32 6) (map_key_size ex_map)"
    by (simp_all add: ex_map_facts upb_map_val_width_def UPB_MAPTYPE_STRING_def upb_map_key_allocated_def
          upb_map_tokey_def ex_mv_int32)
  show ?thesis using s upb_map_set_other_keys[OF s h(1) ex_map_wf(2,3) h(2,3,4,5)] by blast
qed

text \<open>
  C23.  \<open>upb_map_delete(map, key)\<close> reports whether the key was present, and
  afterwards \<open>upb_map_get(map, key)\<close> does not find it (spec section 8).
\<close>

theorem upb_map_delete_get:
  assumes del: "upb_map_delete st m key = Inr (b, st')" and wf: "maps_wf st"
  shows "(b \<longleftrightarrow> upb_map_get st m key \<noteq> Inr None) \<and> upb_map_get st' m key = Inr None"
proof -
  obtain mp where mp: "st_maps st m = Some mp" using del by (auto simp: upb_map_delete_def split: option.splits)
  have mwf: "map_wf st mp" using wf mp by (simp add: maps_wf_def)
  obtain mp' where f: "upb_map_delete st m key = Inr (upb_map_tokey (st_mem st) key (map_key_size mp)
                          \<in> dom (upb_map_abs (st_mem st) mp), st\<lparr>st_maps := (st_maps st)(m \<mapsto> mp')\<rparr>)"
    "map_key_size mp' = map_key_size mp"
    "upb_map_abs (st_mem st) mp' = (upb_map_abs (st_mem st) mp)(upb_map_tokey (st_mem st) key (map_key_size mp) := None)"
    using upb_map_delete_abs[OF mp mwf, of key] by auto
  have b: "b = (upb_map_tokey (st_mem st) key (map_key_size mp) \<in> dom (upb_map_abs (st_mem st) mp))"
    and st': "st' = st\<lparr>st_maps := (st_maps st)(m \<mapsto> mp')\<rparr>" using f(1) del by simp_all
  have "upb_map_get st' m key = Inr (upb_map_abs (st_mem st) mp' (upb_map_tokey (st_mem st) key (map_key_size mp')))"
    using upb_map_get_abs[of st' m mp' key] st' by simp
  then show ?thesis using b upb_map_get_abs[OF mp] f(2,3) by auto
qed

theorem upb_map_delete_get_witness:
  "maps_wf ex_map_state \<and>
   (\<exists>st'. upb_map_delete ex_map_state 64 (mv_int32 5) = Inr (True, st') \<and> upb_map_get st' 64 (mv_int32 5) = Inr None)"
proof -
  have "\<exists>st'. upb_map_delete ex_map_state 64 (mv_int32 5) = Inr (True, st')"
    by (simp add: upb_map_delete_def priv_upb_map_delete_def ex_map_facts ex_map_def upb_map_tokey_def
        UPB_MAPTYPE_STRING_def ex_mv_int32 upb_strtable_remove_def)
  then obtain st' where d: "upb_map_delete ex_map_state 64 (mv_int32 5) = Inr (True, st')" by blast
  show ?thesis using d upb_map_delete_get[OF d ex_map_wf(2)] ex_map_wf(2) by blast
qed

text \<open>
  C24.  A successful \<open>upb_map_set\<close> grows the map by one entry when the key was
  absent and keeps its size when the key was present: the old entry is removed
  before the new one is inserted, so a key never occupies two entries.
\<close>

theorem upb_map_set_size:
  assumes set: "upb_map_set st m key val = Inr (True, st')" and mp: "st_maps st m = Some mp"
    and wf: "map_wf st mp" "arena_wf (st_arena st)"
    and ksz: "map_key_size mp \<le> length key" and vsz: "upb_map_val_width (map_val_size mp) \<le> length val"
    and old: "upb_map_get st m key = Inr r" "upb_map_size st m = Inr n"
  shows "upb_map_size st' m = Inr (if r = None then Suc n else n)"
proof -
  obtain mp' where f: "st_maps st' = (st_maps st)(m \<mapsto> mp')" "map_wf st' mp'"
      "upb_map_abs (st_mem st') mp' = (upb_map_abs (st_mem st) mp)
         (upb_map_tokey (st_mem st) key (map_key_size mp) \<mapsto> take (upb_map_val_width (map_val_size mp)) val)"
    using upb_map_set_True_abs[OF set mp wf ksz vsz] by blast
  show ?thesis
    using upb_map_size_card[of st' m mp'] upb_map_size_card[OF mp wf(1)] f old
      upb_map_get_abs[OF mp, of key] by (simp add: card_dom_upd_Some)
qed

theorem upb_map_set_size_witness:
  "\<exists>st'. upb_map_set ex_map_state 64 (mv_int32 6) (mv_int32 9) = Inr (True, st') \<and>
     upb_map_get ex_map_state 64 (mv_int32 6) = Inr None \<and> upb_map_size ex_map_state 64 = Inr 1 \<and>
     upb_map_size st' 64 = Inr 2"
proof -
  have "\<exists>st'. upb_map_set ex_map_state 64 (mv_int32 6) (mv_int32 9) = Inr (True, st')"
    by (simp add: upb_map_set_def priv_upb_map_set_def ex_map_facts ex_map_def upb_map_tokey_def
       upb_map_tovalue_def UPB_MAPTYPE_STRING_def ex_mv_int32 upb_strtable_remove_def
       upb_strtable_insert_def upb_strtable_lookup_def upb_malloc_def
       upb_arena_malloc_def upb_align_malloc_def)
  then obtain st' where s: "upb_map_set ex_map_state 64 (mv_int32 6) (mv_int32 9) = Inr (True, st')"
    by blast
  have h: "st_maps ex_map_state 64 = Some ex_map" "map_key_size ex_map \<le> length (mv_int32 6)"
    "upb_map_val_width (map_val_size ex_map) \<le> length (mv_int32 9)"
    "upb_map_get ex_map_state 64 (mv_int32 6) = Inr None" "upb_map_size ex_map_state 64 = Inr 1"
    by (simp_all add: ex_map_facts ex_mv_int32 upb_map_val_width_def UPB_MAPTYPE_STRING_def
          upb_map_get_def priv_upb_map_get_def upb_map_tokey_def upb_strtable_lookup_def ex_map_def
          upb_map_size_def priv_upb_map_size_def)
  show ?thesis using s h upb_map_set_size[OF s h(1) ex_map_wf(1,3) h(2,3,4,5)] by simp
qed

text \<open>
  C25.  \<open>upb_map_set\<close> on a live map never fails the key-absent assertion of
  \<open>upb_strtable_insert3\<close>: it removes the key first, so the only outcomes are
  success and allocation failure.
\<close>

theorem upb_map_set_no_assert:
  "st_maps st m \<noteq> None \<Longrightarrow> \<exists>b st'. upb_map_set st m key val = Inr (b, st')"
  using upb_strtable_lookup_remove
  by (auto simp: upb_map_set_def priv_upb_map_set_def upb_strtable_insert_def Let_def
           split: option.splits)

theorem upb_map_set_no_assert_witness:
  "st_maps ex_map_full_state 64 \<noteq> None \<and>
   (\<exists>b st'. upb_map_set ex_map_full_state 64 (mv_int32 5) (mv_int32 9) = Inr (b, st'))"
  using upb_map_set_no_assert[of ex_map_full_state 64] ex_map_facts by simp

text \<open>
  C26.  When \<open>upb_map_set\<close> fails for lack of memory, the entries of all other keys
  are unchanged.
\<close>

theorem upb_map_set_fail_keeps_others:
  assumes set: "upb_map_set st m key val = Inr (False, st')" and mp: "st_maps st m = Some mp"
    and wf: "maps_wf st" "arena_wf (st_arena st)"
    and ka: "upb_map_key_allocated st mp key'"
    and ne: "upb_map_tokey (st_mem st) key' (map_key_size mp) \<noteq> upb_map_tokey (st_mem st) key (map_key_size mp)"
  shows "upb_map_get st' m key' = upb_map_get st m key'"
proof -
  define k where "k = upb_map_tokey (st_mem st) key (map_key_size mp)"
  have mwf: "map_wf st mp" using wf(1) mp by (simp add: maps_wf_def)
  obtain t where f: "st_maps st' = (st_maps st)(m \<mapsto> mp\<lparr>map_table := t\<rparr>)"
      "t = map_table mp \<or> t = filter (\<lambda>e. ent_key e \<noteq> k) (map_table mp)" "upb_state_grows st st'"
    by (rule upb_map_set_False_facts[OF set mp wf(2), folded k_def])
  have twf: "map_wf st (mp\<lparr>map_table := t\<rparr>)" using f(2) mwf map_wf_filter by auto
  have "upb_map_abs (st_mem st') (mp\<lparr>map_table := t\<rparr>) = upb_map_abs (st_mem st) (mp\<lparr>map_table := t\<rparr>)"
    using upb_map_abs_grows[OF twf f(3)] .
  moreover have "upb_map_abs (st_mem st) (mp\<lparr>map_table := t\<rparr>) = upb_map_abs (st_mem st) mp \<or>
      upb_map_abs (st_mem st) (mp\<lparr>map_table := t\<rparr>) = (upb_map_abs (st_mem st) mp)(k := None)"
    using f(2) by (auto simp: upb_map_abs_def map_of_ent_filter)
  ultimately show ?thesis
    using upb_map_get_abs[of st' m "mp\<lparr>map_table := t\<rparr>" key'] upb_map_get_abs[OF mp, of key'] f(1)
      upb_map_tokey_grows[OF ka f(3)] ne by (auto simp: k_def)
qed

theorem upb_map_set_fail_keeps_others_witness:
  "\<exists>st'. upb_map_set ex_map_full_state 64 (mv_int32 6) (mv_int32 9) = Inr (False, st') \<and>
     upb_map_get st' 64 (mv_int32 5) = upb_map_get ex_map_full_state 64 (mv_int32 5)"
proof -
  have "\<exists>st'. upb_map_set ex_map_full_state 64 (mv_int32 6) (mv_int32 9) = Inr (False, st')"
    by (simp add: upb_map_set_def priv_upb_map_set_def ex_map_facts ex_map_def upb_map_tokey_def
       upb_map_tovalue_def UPB_MAPTYPE_STRING_def ex_mv_int32 upb_strtable_remove_def
       upb_strtable_insert_def upb_strtable_lookup_def upb_malloc_def
       upb_arena_malloc_def upb_align_malloc_def)
  then obtain st' where s: "upb_map_set ex_map_full_state 64 (mv_int32 6) (mv_int32 9) = Inr (False, st')"
    by blast
  have h: "st_maps ex_map_full_state 64 = Some ex_map"
    "upb_map_key_allocated ex_map_full_state ex_map (mv_int32 5)"
    "upb_map_tokey (st_mem ex_map_full_state) (mv_int32 5) (map_key_size ex_map) \<noteq>
     upb_map_tokey (st_mem ex_map_full_state) (mv_int32 6) (map_key_size ex_map)"
    by (simp_all add: ex_map_facts UPB_MAPTYPE_STRING_def upb_map_key_allocated_def upb_map_tokey_def ex_mv_int32)
  show ?thesis using s upb_map_set_fail_keeps_others[OF s h(1) ex_map_wf(5,6) h(2,3)] by blast
qed

text \<open>
  C27.  A failed \<open>upb_map_set\<close> does not leave the map in its prior state when the
  key was present: unless the failure was the allocation of a string value's box
  (which happens before anything is changed), the key has no entry afterwards.
  \<open>_upb_map_set\<close> removes the old entry before \<open>upb_strtable_insert3\<close> allocates
  the key copy, and does not restore it when that allocation fails; spec section 7
  says the container is left in its prior state.  The witness is the map
  \<open>5 \<mapsto> 7\<close> in an exhausted arena, then \<open>set(5, 9)\<close>.
\<close>

theorem upb_map_set_fail_loses_entry:
  assumes set: "upb_map_set st m key val = Inr (False, st')" and mp: "st_maps st m = Some mp"
    and wf: "arena_wf (st_arena st)" and ka: "upb_map_key_allocated st mp key"
  shows "upb_map_get st' m key = Inr None \<or> (map_val_size mp = UPB_MAPTYPE_STRING \<and> st' = st)"
proof (cases "upb_map_tovalue st val (map_val_size mp)")
  case None
  then have "st' = st" using set mp by (simp add: upb_map_set_def priv_upb_map_set_def Let_def)
  then show ?thesis using None upb_map_tovalue_None by simp
next
  case (Some r)
  then obtain w st1 where tv: "upb_map_tovalue st val (map_val_size mp) = Some (w, st1)" by (cases r) auto
  define k where "k = upb_map_tokey (st_mem st) key (map_key_size mp)"
  note tf = upb_map_tovalue_Some[OF tv wf]
  have st': "st' = st1\<lparr>st_maps := (st_maps st1)(m \<mapsto> mp\<lparr>map_table := filter (\<lambda>e. ent_key e \<noteq> k) (map_table mp)\<rparr>)\<rparr>"
    using set mp tv upb_strtable_lookup_remove
    by (auto simp: upb_map_set_def priv_upb_map_set_def upb_strtable_insert_def upb_strtable_remove_def
             k_def Let_def split: option.splits)
  have g: "upb_state_grows st st'" using tf(1) by (simp add: st' upb_state_grows_def)
  have "upb_map_get st' m key = Inr None"
    using upb_map_get_abs[of st' m "mp\<lparr>map_table := filter (\<lambda>e. ent_key e \<noteq> k) (map_table mp)\<rparr>" key]
      upb_map_tokey_grows[OF ka g]
    by (simp add: st' k_def upb_map_abs_def map_of_ent_filter)
  then show ?thesis ..
qed

theorem upb_map_set_fail_loses_entry_witness:
  "upb_map_get ex_map_full_state 64 (mv_int32 5) = Inr (Some (mv_int32 7)) \<and>
   (\<exists>st'. upb_map_set ex_map_full_state 64 (mv_int32 5) (mv_int32 9) = Inr (False, st') \<and>
      (upb_map_get st' 64 (mv_int32 5) = Inr None \<or> (map_val_size ex_map = UPB_MAPTYPE_STRING \<and> st' = ex_map_full_state)))"
proof -
  have g: "upb_map_get ex_map_full_state 64 (mv_int32 5) = Inr (Some (mv_int32 7))"
    by (simp add: upb_map_get_def priv_upb_map_get_def ex_map_facts ex_map_def upb_map_tokey_def
       upb_map_fromvalue_def UPB_MAPTYPE_STRING_def ex_mv_int32 upb_strtable_lookup_def)
  have "\<exists>st'. upb_map_set ex_map_full_state 64 (mv_int32 5) (mv_int32 9) = Inr (False, st')"
    by (simp add: upb_map_set_def priv_upb_map_set_def ex_map_facts ex_map_def upb_map_tokey_def
       upb_map_tovalue_def UPB_MAPTYPE_STRING_def ex_mv_int32 upb_strtable_remove_def
       upb_strtable_insert_def upb_strtable_lookup_def upb_malloc_def
       upb_arena_malloc_def upb_align_malloc_def)
  then obtain st' where s: "upb_map_set ex_map_full_state 64 (mv_int32 5) (mv_int32 9) = Inr (False, st')"
    by blast
  have h: "st_maps ex_map_full_state 64 = Some ex_map" "upb_map_key_allocated ex_map_full_state ex_map (mv_int32 5)"
    by (simp_all add: ex_map_facts UPB_MAPTYPE_STRING_def upb_map_key_allocated_def)
  show ?thesis using g s upb_map_set_fail_loses_entry[OF s h(1) ex_map_wf(6) h(2)] by blast
qed

text \<open>
  C34.  The iteration loop ends and reads every key exactly once: from
  \<open>UPB_MAP_BEGIN = -1\<close>, with one round more than the size of the map, it returns
  as many keys as the size, no two of them the same key bytes, and together exactly
  the keys the map holds.
\<close>

theorem upb_mapiter_keys_exact:
  assumes mp: "st_maps st m = Some mp" and wf: "map_wf st mp" "arena_wf (st_arena st)"
    and n: "upb_map_size st m = Inr n" "n < 2 ^ 64 - 1"
  shows "\<exists>ks. upb_mapiter_keys (Suc n) st m (- 1) = Some ks \<and> length ks = n \<and>
           distinct (map (\<lambda>k. upb_map_tokey (st_mem st) k (map_key_size mp)) ks) \<and>
           set (map (\<lambda>k. upb_map_tokey (st_mem st) k (map_key_size mp)) ks) = dom (upb_map_abs (st_mem st) mp)"
proof -
  have len: "n = length (map_table mp)" using n(1) mp by (simp add: upb_map_size_def priv_upb_map_size_def)
  obtain ks where ks: "upb_mapiter_keys (Suc n) st m (- 1) = Some ks"
      and eq: "map (\<lambda>k. upb_map_tokey (st_mem st) k (map_key_size mp)) ks = map ent_key (map_table mp)"
    using upb_mapiter_keys_drop[OF mp wf, of n] n(2) len by auto
  have "length ks = n" using eq len by (metis length_map)
  then show ?thesis using ks wf(1) by (simp add: map_wf_def dom_upb_map_abs eq[symmetric])
qed

theorem upb_mapiter_keys_exact_witness:
  "\<exists>ks. upb_mapiter_keys 2 ex_map_state 64 (- 1) = Some ks \<and> length ks = 1 \<and>
     distinct (map (\<lambda>k. upb_map_tokey (st_mem ex_map_state) k 4) ks) \<and>
     set (map (\<lambda>k. upb_map_tokey (st_mem ex_map_state) k 4) ks) = {[5, 0, 0, 0]}"
proof -
  have h: "st_maps ex_map_state 64 = Some ex_map" "upb_map_size ex_map_state 64 = Inr 1"
    by (simp_all add: ex_map_facts ex_map_def upb_map_size_def priv_upb_map_size_def)
  have d: "dom (upb_map_abs (st_mem ex_map_state) ex_map) = {[5, 0, 0, 0]}"
    by (simp add: dom_upb_map_abs ex_map_def)
  have "(1::nat) < 2 ^ 64 - 1" by simp
  then show ?thesis using upb_mapiter_keys_exact[OF h(1) ex_map_wf(1,3) h(2)] d
    by (simp add: ex_map_facts numeral_2_eq_2 del: upb_mapiter_keys.simps)
qed

text \<open>
  C35.  Every cursor that \<open>upb_mapiter_next\<close> reports as live yields, through
  \<open>upb_mapiter_key\<close> and \<open>upb_mapiter_value\<close>, a key and value the map holds.
\<close>

theorem upb_mapiter_sound:
  assumes mp: "st_maps st m = Some mp" and wf: "map_wf st mp" "arena_wf (st_arena st)"
    and n: "length (map_table mp) < 2 ^ 64 - 1"
    and nx: "upb_mapiter_next st m c = Inr (True, c')"
  shows "\<exists>k v. upb_mapiter_key st m c' = Inr k \<and> upb_mapiter_value st m c' = Inr v \<and>
           upb_map_abs (st_mem st) mp (upb_map_tokey (st_mem st) k (map_key_size mp)) = Some v"
proof -
  have i: "unat c' < length (map_table mp)" and c': "word_of_nat (unat c') = c'"
    using nx mp by (auto simp: upb_mapiter_next_def priv_upb_map_next_def Let_def split: if_splits)
  obtain k where k: "upb_mapiter_key st m c' = Inr k"
      "upb_map_tokey (st_mem st) k (map_key_size mp) = ent_key (map_table mp ! unat c')"
    using upb_mapiter_entry(1)[OF mp wf i n] c' by auto
  show ?thesis
    using k upb_mapiter_entry(2)[OF mp wf i n] c' upb_map_abs_nth[OF wf(1) i] by auto
qed

theorem upb_mapiter_sound_witness:
  "upb_mapiter_next ex_map_state 64 (- 1) = Inr (True, 0) \<and>
   (\<exists>k v. upb_mapiter_key ex_map_state 64 0 = Inr k \<and> upb_mapiter_value ex_map_state 64 0 = Inr v \<and>
      upb_map_abs (st_mem ex_map_state) ex_map (upb_map_tokey (st_mem ex_map_state) k 4) = Some v)"
proof -
  have nx: "upb_mapiter_next ex_map_state 64 (- 1) = Inr (True, 0)"
    by (simp add: upb_mapiter_next_def priv_upb_map_next_def ex_map_facts ex_map_def)
  have h: "st_maps ex_map_state 64 = Some ex_map" "length (map_table ex_map) < 2 ^ 64 - 1"
    by (simp_all add: ex_map_facts ex_map_def)
  show ?thesis using nx upb_mapiter_sound[OF h(1) ex_map_wf(1,3) h(2) nx] by (simp add: ex_map_facts)
qed

text \<open>
  C36.  Conversely, iteration reaches every key of the map: for each key and value the
  map holds there is a cursor that \<open>upb_mapiter_next\<close> reaches from the one before it,
  at which \<open>upb_mapiter_key\<close> and \<open>upb_mapiter_value\<close> give that key and value.
\<close>

theorem upb_mapiter_complete:
  assumes mp: "st_maps st m = Some mp" and wf: "map_wf st mp" "arena_wf (st_arena st)"
    and n: "length (map_table mp) < 2 ^ 64 - 1"
    and kv: "upb_map_abs (st_mem st) mp kb = Some v"
  shows "\<exists>i k. upb_mapiter_next st m (word_of_nat i - 1) = Inr (True, word_of_nat i) \<and>
           upb_mapiter_key st m (word_of_nat i) = Inr k \<and>
           upb_map_tokey (st_mem st) k (map_key_size mp) = kb \<and>
           upb_mapiter_value st m (word_of_nat i) = Inr v"
proof -
  obtain i where i: "i < length (map_table mp)" "ent_key (map_table mp ! i) = kb"
      "upb_map_fromvalue (st_mem st) (ent_val (map_table mp ! i)) (map_val_size mp) = v"
    by (rule upb_map_abs_Some_nth[OF kv])
  obtain k where "upb_mapiter_key st m (word_of_nat i) = Inr k"
      "upb_map_tokey (st_mem st) k (map_key_size mp) = ent_key (map_table mp ! i)"
    using upb_mapiter_entry(1)[OF mp wf i(1) n] by auto
  moreover have "upb_mapiter_next st m (word_of_nat i - 1) = Inr (True, word_of_nat i)"
    using upb_mapiter_next_index[OF mp _ n, of i] i(1) by simp
  ultimately show ?thesis using upb_mapiter_entry(2)[OF mp wf i(1) n] i by auto
qed

theorem upb_mapiter_complete_witness:
  "upb_map_abs (st_mem ex_map_state) ex_map [5, 0, 0, 0] = Some [7, 0, 0, 0] \<and>
   (\<exists>i k. upb_mapiter_next ex_map_state 64 (word_of_nat i - 1) = Inr (True, word_of_nat i) \<and>
      upb_mapiter_key ex_map_state 64 (word_of_nat i) = Inr k \<and>
      upb_map_tokey (st_mem ex_map_state) k (map_key_size ex_map) = [5, 0, 0, 0] \<and>
      upb_mapiter_value ex_map_state 64 (word_of_nat i) = Inr [7, 0, 0, 0])"
proof -
  have a: "upb_map_abs (st_mem ex_map_state) ex_map [5, 0, 0, 0] = Some [7, 0, 0, 0]"
    by (simp add: upb_map_abs_def ex_map_def upb_map_fromvalue_def UPB_MAPTYPE_STRING_def ex_mv_int32)
  have h: "st_maps ex_map_state 64 = Some ex_map" "length (map_table ex_map) < 2 ^ 64 - 1"
    by (simp_all add: ex_map_facts ex_map_def)
  show ?thesis using a upb_mapiter_complete[OF h(1) ex_map_wf(1,3) h(2) a] by blast
qed

text \<open>
  C37.  \<open>upb_map_delete\<close> shrinks the map by one entry exactly when it reports the
  key as found, and keeps its size otherwise.
\<close>

theorem upb_map_delete_size:
  assumes del: "upb_map_delete st m key = Inr (found, st')" and wf: "maps_wf st"
    and n: "upb_map_size st m = Inr n"
  shows "upb_map_size st' m = Inr (if found then n - 1 else n)"
proof -
  obtain mp where mp: "st_maps st m = Some mp" using del by (auto simp: upb_map_delete_def split: option.splits)
  have mwf: "map_wf st mp" using wf mp by (simp add: maps_wf_def)
  obtain mp' where "upb_map_delete st m key =
        Inr (upb_map_tokey (st_mem st) key (map_key_size mp) \<in> dom (upb_map_abs (st_mem st) mp),
             st\<lparr>st_maps := (st_maps st)(m \<mapsto> mp')\<rparr>)" "map_wf st mp'"
      "upb_map_abs (st_mem st) mp' = (upb_map_abs (st_mem st) mp)(upb_map_tokey (st_mem st) key (map_key_size mp) := None)"
    using upb_map_delete_abs[OF mp mwf, of key] by blast
  then show ?thesis
    using del n upb_map_size_card[OF mp mwf] upb_map_size_card[of "st\<lparr>st_maps := (st_maps st)(m \<mapsto> mp')\<rparr>" m mp']
    by (auto simp: card_dom_upd_None)
qed

theorem upb_map_delete_size_witness:
  "upb_map_delete ex_map_state 64 (mv_int32 5) = Inr (True, ex_map_state\<lparr>st_maps := [64 \<mapsto> ex_map\<lparr>map_table := []\<rparr>]\<rparr>) \<and>
   upb_map_size ex_map_state 64 = Inr 1 \<and>
   upb_map_size (ex_map_state\<lparr>st_maps := [64 \<mapsto> ex_map\<lparr>map_table := []\<rparr>]\<rparr>) 64 = Inr 0"
proof -
  have d: "upb_map_delete ex_map_state 64 (mv_int32 5) = Inr (True, ex_map_state\<lparr>st_maps := [64 \<mapsto> ex_map\<lparr>map_table := []\<rparr>]\<rparr>)"
    and n: "upb_map_size ex_map_state 64 = Inr 1"
    by (simp_all add: upb_map_delete_def priv_upb_map_delete_def upb_strtable_remove_def ex_map_facts
          ex_map_def upb_map_tokey_def UPB_MAPTYPE_STRING_def ex_mv_int32 upb_map_size_def priv_upb_map_size_def)
  show ?thesis using d n upb_map_delete_size[OF d ex_map_wf(2) n] by simp
qed

end
