(* ===== verification/Mutable.thy ===== *)
theory Mutable
  imports Msg Array Map_Container
begin

text \<open>
  The part of the record accessor that creates containers: \<open>upb_msg_new\<close> (lines
  55--57) and \<open>upb_msg_mutable\<close> (lines 125--146) of \<^verbatim>\<open>src/upb/reflection.c\<close>.
  \<open>upb_msg_mutable\<close> reads the pointer stored in a map, repeated or sub-message field
  and, when it is NULL, creates an empty map (\<open>upb_map_new\<close>, with the key and value
  types of the map-entry message), array (\<open>upb_array_new\<close>) or message
  (\<open>upb_msg_new\<close>), and stores the new pointer back into the field.  A field of any
  other kind breaks \<open>UPB_ASSERT(upb_fielddef_issubmsg(f))\<close>.  \<open>_upb_msg_new\<close> of
  \<^verbatim>\<open>msg.c\<close> (not under \<^verbatim>\<open>src/\<close>) is modelled from the spec: it allocates the
  message block after a 24-byte internal header (\<open>upb_msg_internal\<close>, three machine
  words), zeroes both, and returns the address just past the header.
\<close>

section \<open>Definitions\<close>

definition priv_upb_msg_new :: "upb_state \<Rightarrow> nat \<Rightarrow> addr \<times> upb_state" where
  "priv_upb_msg_new st msg_size =
     (case upb_malloc st (msg_size + 24) of
        None \<Rightarrow> (0, st)
      | Some (p, st') \<Rightarrow> (p + 24, st'\<lparr>st_mem := mem_write (st_mem st') p (replicate (msg_size + 24) 0)\<rparr>))"

definition upb_msg_new :: "upb_state \<Rightarrow> upb_msgdef \<Rightarrow> addr \<times> upb_state" where
  "upb_msg_new st m = priv_upb_msg_new st (md_size m)"

text \<open>
  The container \<open>upb_msg_mutable\<close> creates for a field whose pointer is NULL (the
  \<open>if\<close>/\<open>else if\<close>/\<open>else\<close> chain of lines 131--142), or the failed assertion.
\<close>

definition upb_msg_mutable_new :: "upb_state \<Rightarrow> upb_fielddef \<Rightarrow> upb_error + (addr \<times> upb_state)" where
  "upb_msg_mutable_new st f =
     (if upb_fielddef_ismap f then
        (let entry = fd_msgsubdef f in
         Inr (upb_map_new st (md_key_type entry) (md_value_type entry)))
      else if upb_fielddef_isseq f then Inr (upb_array_new st (upb_fielddef_type f))
      else if upb_fielddef_issubmsg f then Inr (upb_msg_new st (fd_msgsubdef f))
      else Inl UPB_ASSERT_FAILED)"

text \<open>
  \<open>upb_msg_mutable\<close>: read the pointer in the field; if it is NULL, create the
  container and write its pointer (NULL when the arena is exhausted) into the field.
\<close>

definition upb_msg_mutable :: "upb_state \<Rightarrow> addr \<Rightarrow> upb_fielddef \<Rightarrow> upb_error + (addr \<times> upb_state)" where
  "upb_msg_mutable st msg f =
     (let field = fd_layout f;
          mem = PTR_AT msg (unat (offset field));
          ret = mv_get_ptr (mem_read (st_mem st) mem sizeof_ptr) in
      if ret \<noteq> 0 then Inr (ret, st)
      else
        (case upb_msg_mutable_new st f of
           Inl e \<Rightarrow> Inl e
         | Inr (p, st') \<Rightarrow> Inr (p, st'\<lparr>st_mem := mem_write (st_mem st') mem (mv_ptr p)\<rparr>)))"

text \<open>
  Example fields for witnesses, each at offset 0 of its message: a repeated int32
  field, a map field whose entry has int32 keys and string values, and a singular
  int32 field.
\<close>

definition ex_rep_field :: upb_fielddef where
  "ex_rep_field =
     \<lparr>fd_layout = \<lparr>number = 1, offset = 0, presence = 0, descriptortype = UPB_DESCRIPTOR_TYPE_INT32,
                    label = UPB_LABEL_REPEATED\<rparr>,
      fd_msgsubdef = ex_msgdef, fd_defaultval = 0, fd_defaultstr = (0, 0)\<rparr>"

definition ex_map_field :: upb_fielddef where
  "ex_map_field =
     \<lparr>fd_layout = \<lparr>number = 2, offset = 0, presence = 0, descriptortype = UPB_DESCRIPTOR_TYPE_MESSAGE,
                    label = UPB_LABEL_REPEATED\<rparr>,
      fd_msgsubdef = \<lparr>md_size = 16, md_mapentry = True, md_key_type = UPB_TYPE_INT32,
                      md_value_type = UPB_TYPE_STRING\<rparr>,
      fd_defaultval = 0, fd_defaultstr = (0, 0)\<rparr>"

section \<open>Lemmas\<close>

lemma mem_write_mem_read [simp]: "mem_write m a (mem_read m a n) = m"
  by (rule ext) (auto simp: mem_write_apply)

lemma mv_ptr_mv_get_ptr:
  "length v = sizeof_ptr \<Longrightarrow> mv_ptr (mv_get_ptr v) = v"
  by (simp add: mv_ptr_def mv_get_ptr_def sizeof_ptr_def le_bytes_le_word)

lemma upb_malloc_bound:
  assumes m: "upb_malloc st n = Some (p, st')" and w: "arena_wf (st_arena st)"
  shows "0 < p" "p + n \<le> ar_end (st_arena st)"
proof -
  note mw = upb_malloc_wf[OF m w]
  show "0 < p" by (rule mw(4))
  show "p + n \<le> ar_end (st_arena st)" using mw(1,3,6) by (simp add: arena_wf_def)
qed

lemma upb_map_new_result:
  assumes "upb_map_new st kt vt = (p, st1)" "arena_wf (st_arena st)"
  shows "p < ar_end (st_arena st) \<and> (p = 0 \<longrightarrow> st1 = st)"
proof (cases "upb_malloc st sizeof_upb_map")
  case None
  then show ?thesis using assms by (simp add: upb_map_new_def priv_upb_map_new_def arena_wf_def)
next
  case (Some r)
  then obtain q st2 where m: "upb_malloc st sizeof_upb_map = Some (q, st2)" by (cases r) auto
  then have "p = q" using assms(1) by (simp add: upb_map_new_def priv_upb_map_new_def)
  then show ?thesis using upb_malloc_bound[OF m assms(2)] by (simp add: sizeof_upb_map_def)
qed

lemma upb_array_new_result:
  assumes "upb_array_new st t = (p, st1)" "arena_wf (st_arena st)"
  shows "p < ar_end (st_arena st) \<and> (p = 0 \<longrightarrow> st1 = st)"
proof (cases "upb_malloc st sizeof_upb_array")
  case None
  then show ?thesis using assms by (simp add: upb_array_new_def arena_wf_def)
next
  case (Some r)
  then obtain q st2 where m: "upb_malloc st sizeof_upb_array = Some (q, st2)" by (cases r) auto
  then have "p = q" using assms(1) by (simp add: upb_array_new_def)
  then show ?thesis using upb_malloc_bound[OF m assms(2)] by (simp add: sizeof_upb_array_def)
qed

lemma upb_msg_new_result:
  assumes "upb_msg_new st md = (p, st1)" "arena_wf (st_arena st)"
  shows "p \<le> ar_end (st_arena st) \<and> (p = 0 \<longrightarrow> st1 = st)"
proof (cases "upb_malloc st (md_size md + 24)")
  case None
  then show ?thesis using assms by (simp add: upb_msg_new_def priv_upb_msg_new_def arena_wf_def)
next
  case (Some r)
  then obtain q st2 where m: "upb_malloc st (md_size md + 24) = Some (q, st2)" by (cases r) auto
  then have "p = q + 24" using assms(1) by (simp add: upb_msg_new_def priv_upb_msg_new_def)
  then show ?thesis using upb_malloc_bound[OF m assms(2)] by simp
qed

lemma upb_msg_mutable_new_result:
  assumes c: "upb_msg_mutable_new st f = Inr (p, st1)" and wf: "arena_wf (st_arena st)"
  shows "p \<le> ar_end (st_arena st) \<and> (p = 0 \<longrightarrow> st1 = st)"
proof -
  consider "upb_map_new st (md_key_type (fd_msgsubdef f)) (md_value_type (fd_msgsubdef f)) = (p, st1)"
    | "upb_array_new st (upb_fielddef_type f) = (p, st1)" | "upb_msg_new st (fd_msgsubdef f) = (p, st1)"
    using c by (simp add: upb_msg_mutable_new_def Let_def split: if_splits)
  then show ?thesis
    by cases (use upb_map_new_result[OF _ wf] upb_array_new_result[OF _ wf] upb_msg_new_result[OF _ wf]
              in \<open>fastforce+\<close>)
qed

lemma upb_msg_mutable_Inr:
  assumes mut: "upb_msg_mutable st msg f = Inr (p, st')"
    and wf: "arena_wf (st_arena st)" "ar_end (st_arena st) < 2 ^ 64"
  defines "mem \<equiv> PTR_AT msg (unat (offset (fd_layout f)))"
  shows "mem_read (st_mem st') mem sizeof_ptr = mv_ptr p" and "p = 0 \<Longrightarrow> st' = st" and "p < 2 ^ 64"
proof -
  define ret where "ret = mv_get_ptr (mem_read (st_mem st) mem sizeof_ptr)"
  have "mem_read (st_mem st') mem sizeof_ptr = mv_ptr p \<and> (p = 0 \<longrightarrow> st' = st) \<and> p < 2 ^ 64"
  proof (cases "ret = 0")
    case False
    then have "upb_msg_mutable st msg f = Inr (ret, st)"
      by (simp add: upb_msg_mutable_def ret_def mem_def Let_def)
    then have "p = ret" "st' = st" using mut by simp_all
    moreover have "mv_ptr ret = mem_read (st_mem st) mem sizeof_ptr" by (simp add: ret_def mv_ptr_mv_get_ptr)
    moreover have "ret < 2 ^ 64" using unsigned_less[of "le_word (take 8 (mem_read (st_mem st) mem sizeof_ptr)) :: 64 word"]
      by (simp add: ret_def mv_get_ptr_def)
    ultimately show ?thesis by simp
  next
    case True
    then obtain st1 where c: "upb_msg_mutable_new st f = Inr (p, st1)"
      and st': "st' = st1\<lparr>st_mem := mem_write (st_mem st1) mem (mv_ptr p)\<rparr>"
      using mut by (auto simp: upb_msg_mutable_def ret_def mem_def Let_def split: sum.splits)
    have r: "p < 2 ^ 64 \<and> (p = 0 \<longrightarrow> st1 = st)"
      using upb_msg_mutable_new_result[OF c wf(1)] wf(2) by simp
    have z: "mem_read (st_mem st) mem sizeof_ptr = mv_ptr 0"
      using True mv_ptr_mv_get_ptr[of "mem_read (st_mem st) mem sizeof_ptr"] by (simp add: ret_def)
    show ?thesis
    proof (intro conjI)
      show "mem_read (st_mem st') mem sizeof_ptr = mv_ptr p"
        by (simp add: st' mem_read_write_same sizeof_ptr_def)
      show "p = 0 \<longrightarrow> st' = st" using r by (simp add: st' z[symmetric])
      show "p < 2 ^ 64" using r by simp
    qed
  qed
  then show "mem_read (st_mem st') mem sizeof_ptr = mv_ptr p" "p = 0 \<Longrightarrow> st' = st" "p < 2 ^ 64"
    by simp_all
qed

lemma upb_msg_mutable_created:
  assumes mut: "upb_msg_mutable st msg f = Inr (p, st')"
    and null: "mv_get_ptr (mem_read (st_mem st) (PTR_AT msg (unat (offset (fd_layout f)))) sizeof_ptr) = 0"
  obtains st1 where "upb_msg_mutable_new st f = Inr (p, st1)"
    "st' = st1\<lparr>st_mem := mem_write (st_mem st1) (PTR_AT msg (unat (offset (fd_layout f)))) (mv_ptr p)\<rparr>"
  using mut null by (auto simp: upb_msg_mutable_def Let_def split: sum.splits)

text \<open>
  The creation step of \<open>upb_msg_mutable\<close> keeps the arena, arrays and maps well
  formed, only allocates and writes fresh memory, and adds at most one empty array
  (its header at the old arena top) or one empty map under a fresh handle.
\<close>

lemma upb_msg_new_facts:
  assumes new: "upb_msg_new st md = (p, st')" and wf: "arena_wf (st_arena st)"
  shows "arena_wf (st_arena st') \<and> upb_state_grows st st' \<and> st_arrays st' = st_arrays st \<and>
         st_maps st' = st_maps st"
proof (cases "upb_malloc st (md_size md + 24)")
  case None
  then show ?thesis using new wf by (simp add: upb_msg_new_def priv_upb_msg_new_def)
next
  case (Some r)
  then obtain q st1 where m: "upb_malloc st (md_size md + 24) = Some (q, st1)" by (cases r) auto
  then have st': "st' = st1\<lparr>st_mem := mem_write (st_mem st1) q (replicate (md_size md + 24) 0)\<rparr>"
    using new by (simp add: upb_msg_new_def priv_upb_msg_new_def)
  note mw = upb_malloc_wf[OF m wf]
  show ?thesis
    using upb_state_grows_write[OF upb_malloc_grows[OF m], of q] mw by (simp add: st')
qed

lemma upb_msg_mutable_new_frame:
  assumes c: "upb_msg_mutable_new st f = Inr (p, st1)"
    and wf: "arena_wf (st_arena st)" "arrays_wf st" "maps_wf st"
  shows "arena_wf (st_arena st1) \<and> arrays_wf st1 \<and> maps_wf st1 \<and> upb_state_grows st st1"
    and "st_arrays st1 = st_arrays st \<or>
         (\<exists>arr. st_arrays st1 = (st_arrays st)(ar_top (st_arena st) \<mapsto> arr) \<and> arr_size arr = 0 \<and>
                ar_top (st_arena st) + sizeof_upb_array \<le> ar_top (st_arena st1))"
    and "st_maps st1 = st_maps st \<or>
         (\<exists>q mp. st_maps st q = None \<and> st_maps st1 = (st_maps st)(q \<mapsto> mp) \<and> map_table mp = [])"
proof -
  consider (map) "upb_map_new st (md_key_type (fd_msgsubdef f)) (md_value_type (fd_msgsubdef f)) = (p, st1)"
    | (arr) "upb_array_new st (upb_fielddef_type f) = (p, st1)" | (msg) "upb_msg_new st (fd_msgsubdef f) = (p, st1)"
    using c by (simp add: upb_msg_mutable_new_def Let_def split: if_splits)
  then have "(arena_wf (st_arena st1) \<and> arrays_wf st1 \<and> maps_wf st1 \<and> upb_state_grows st st1) \<and>
    (st_arrays st1 = st_arrays st \<or>
         (\<exists>arr. st_arrays st1 = (st_arrays st)(ar_top (st_arena st) \<mapsto> arr) \<and> arr_size arr = 0 \<and>
                ar_top (st_arena st) + sizeof_upb_array \<le> ar_top (st_arena st1))) \<and>
    (st_maps st1 = st_maps st \<or>
         (\<exists>q mp. st_maps st q = None \<and> st_maps st1 = (st_maps st)(q \<mapsto> mp) \<and> map_table mp = []))"
  proof cases
    case map
    note f = upb_map_new_facts[OF map wf(3,1)]
    have "arrays_wf st1" using arrays_wf_grows[OF wf(2)] f(1) by blast
    moreover have "st_maps st1 = st_maps st \<or>
         (\<exists>q mp. st_maps st q = None \<and> st_maps st1 = (st_maps st)(q \<mapsto> mp) \<and> map_table mp = [])"
    proof (cases "p = 0")
      case False
      then have "st_maps st p = None" "st_maps st1 = (st_maps st)(p \<mapsto> \<lparr>map_key_size =
          upb_fieldtype_to_mapsize (md_key_type (fd_msgsubdef f)), map_val_size =
          upb_fieldtype_to_mapsize (md_value_type (fd_msgsubdef f)), map_table = []\<rparr>)"
        using f(2) by simp_all
      then show ?thesis by fastforce
    qed (use f(3) in simp)
    ultimately show ?thesis using f(1) by blast
  next
    case arr
    note f = upb_array_new_facts[OF arr wf(1)]
    have "maps_wf st1" using maps_wf_grows[OF wf(3)] f(1) by blast
    then show ?thesis using f wf(2) by (cases "p = 0") auto
  next
    case msg
    note f = upb_msg_new_facts[OF msg wf(1)]
    then show ?thesis using arrays_wf_grows[OF wf(2)] maps_wf_grows[OF wf(3)] by blast
  qed
  then show "arena_wf (st_arena st1) \<and> arrays_wf st1 \<and> maps_wf st1 \<and> upb_state_grows st st1"
    "st_arrays st1 = st_arrays st \<or>
         (\<exists>arr. st_arrays st1 = (st_arrays st)(ar_top (st_arena st) \<mapsto> arr) \<and> arr_size arr = 0 \<and>
                ar_top (st_arena st) + sizeof_upb_array \<le> ar_top (st_arena st1))"
    "st_maps st1 = st_maps st \<or>
         (\<exists>q mp. st_maps st q = None \<and> st_maps st1 = (st_maps st)(q \<mapsto> mp) \<and> map_table mp = [])"
    by blast+
qed

section \<open>Properties of lazy creation\<close>

text \<open>
  C30.  Lazy creation is idempotent (spec section 8): a second
  \<open>upb_msg_mutable(msg, f, a)\<close> right after the first returns the same handle and
  changes nothing, whether the first call found the container, created it, or failed
  to allocate it.
\<close>

theorem upb_msg_mutable_idempotent:
  assumes mut: "upb_msg_mutable st msg f = Inr (p, st')"
    and wf: "arena_wf (st_arena st)" "ar_end (st_arena st) < 2 ^ 64"
  shows "upb_msg_mutable st' msg f = Inr (p, st')"
proof (cases "p = 0")
  case True
  then show ?thesis using mut upb_msg_mutable_Inr(2)[OF mut wf] by simp
next
  case False
  have "mv_get_ptr (mem_read (st_mem st') (PTR_AT msg (unat (offset (fd_layout f)))) sizeof_ptr) = p"
    using upb_msg_mutable_Inr(1,3)[OF mut wf] by simp
  then show ?thesis using False by (simp add: upb_msg_mutable_def Let_def)
qed

theorem upb_msg_mutable_idempotent_witness:
  "\<exists>p st'. upb_msg_mutable ex_state 512 ex_rep_field = Inr (p, st') \<and> p \<noteq> 0 \<and>
     upb_msg_mutable st' 512 ex_rep_field = Inr (p, st')"
proof -
  have w: "arena_wf (st_arena ex_state)" "ar_end (st_arena ex_state) < 2 ^ 64"
    by (simp_all add: arena_wf_def ex_state_def)
  have "\<exists>st'. upb_msg_mutable ex_state 512 ex_rep_field = Inr (64, st')"
    by (simp add: upb_msg_mutable_def upb_msg_mutable_new_def ex_rep_field_def ex_state_def mem_read_def
        mv_get_ptr_def sizeof_ptr_def upb_fielddef_ismap_def upb_fielddef_isseq_def upb_array_new_def
        Let_def upb_fielddef_issubmsg_def upb_fielddef_type_def ex_msgdef_def
        upb_malloc_def upb_arena_malloc_def upb_align_malloc_def sizeof_upb_array_def)
  then obtain st' where m: "upb_msg_mutable ex_state 512 ex_rep_field = Inr (64, st')" by blast
  show ?thesis using m upb_msg_mutable_idempotent[OF m w] by fastforce
qed

text \<open>
  C31.  For a repeated non-map field whose pointer is NULL, \<open>upb_msg_mutable\<close>
  creates an empty array whose element width is that of the field's type.
\<close>

theorem upb_msg_mutable_creates_array:
  assumes mut: "upb_msg_mutable st msg f = Inr (p, st')" and p: "p \<noteq> 0"
    and null: "mv_get_ptr (mem_read (st_mem st) (PTR_AT msg (unat (offset (fd_layout f)))) sizeof_ptr) = 0"
    and seq: "upb_fielddef_isseq f" "\<not> upb_fielddef_ismap f"
  shows "upb_array_contents st' p = Some [] \<and>
         map_option upb_array_lg2 (st_arrays st' p) = Some (upb_fieldtype_to_sizelg2 (upb_fielddef_type f))"
proof -
  obtain st1 where c: "upb_msg_mutable_new st f = Inr (p, st1)"
    and st': "st' = st1\<lparr>st_mem := mem_write (st_mem st1) (PTR_AT msg (unat (offset (fd_layout f)))) (mv_ptr p)\<rparr>"
    by (rule upb_msg_mutable_created[OF mut null])
  have n: "upb_array_new st (upb_fielddef_type f) = (p, st1)" using c seq by (simp add: upb_msg_mutable_new_def)
  define A where "A = \<lparr>arr_data = upb_tag_arrptr 0 (upb_fieldtype_to_sizelg2 (upb_fielddef_type f)),
                        arr_len = 0, arr_size = 0\<rparr>"
  have "st_arrays st1 p = Some A"
  proof (cases "upb_malloc st sizeof_upb_array")
    case None
    then show ?thesis using n p by (simp add: upb_array_new_def)
  next
    case (Some r)
    then obtain q st2 where m: "upb_malloc st sizeof_upb_array = Some (q, st2)" by (cases r) auto
    have "(p, st1) = (q, st2\<lparr>st_arrays := (st_arrays st2)(q \<mapsto> A)\<rparr>)"
      using n m by (simp only: upb_array_new_def option.case prod.case A_def)
    then show ?thesis by simp
  qed
  then have arr: "st_arrays st' p = Some A" by (simp add: st')
  have "upb_fieldtype_to_sizelg2 (upb_fielddef_type f) < 8"
    using upb_fieldtype_to_sizelg2_le_4[of "upb_fielddef_type f"] by simp
  then have "upb_array_lg2 A = upb_fieldtype_to_sizelg2 (upb_fielddef_type f)"
    by (intro upb_array_lg2_tag[of A 0]) (simp_all add: A_def)
  then show ?thesis using arr by (simp add: upb_array_contents_def upb_array_elems_def A_def)
qed

theorem upb_msg_mutable_creates_array_witness:
  "\<exists>st'. upb_msg_mutable ex_state 512 ex_rep_field = Inr (64, st') \<and>
     upb_array_contents st' 64 = Some [] \<and>
     map_option upb_array_lg2 (st_arrays st' 64) = Some (upb_fieldtype_to_sizelg2 UPB_TYPE_INT32)"
proof -
  have "\<exists>st'. upb_msg_mutable ex_state 512 ex_rep_field = Inr (64, st')"
    by (simp add: upb_msg_mutable_def upb_msg_mutable_new_def ex_rep_field_def ex_state_def mem_read_def
        mv_get_ptr_def sizeof_ptr_def upb_fielddef_ismap_def upb_fielddef_isseq_def upb_array_new_def
        Let_def upb_fielddef_issubmsg_def upb_fielddef_type_def ex_msgdef_def
        upb_malloc_def upb_arena_malloc_def upb_align_malloc_def sizeof_upb_array_def)
  then obtain st' where m: "upb_msg_mutable ex_state 512 ex_rep_field = Inr (64, st')" by blast
  have h: "mv_get_ptr (mem_read (st_mem ex_state) (PTR_AT 512 (unat (offset (fd_layout ex_rep_field)))) sizeof_ptr) = 0"
    "upb_fielddef_isseq ex_rep_field" "\<not> upb_fielddef_ismap ex_rep_field"
    "upb_fielddef_type ex_rep_field = UPB_TYPE_INT32"
    by (simp_all add: ex_rep_field_def ex_state_def mem_read_def mv_get_ptr_def sizeof_ptr_def
        upb_fielddef_ismap_def upb_fielddef_isseq_def upb_fielddef_issubmsg_def upb_fielddef_type_def)
  have "upb_array_contents st' 64 = Some [] \<and>
     map_option upb_array_lg2 (st_arrays st' 64) = Some (upb_fieldtype_to_sizelg2 (upb_fielddef_type ex_rep_field))"
    using upb_msg_mutable_creates_array[OF m _ h(1,2,3)] by simp
  then show ?thesis using m h(4) by simp
qed

text \<open>
  C32.  For a map field whose pointer is NULL, \<open>upb_msg_mutable\<close> creates a fresh
  empty map whose key and value widths are those of the map-entry message's key and
  value types, and keeps the store invariant of the maps.
\<close>

theorem upb_msg_mutable_creates_map:
  assumes mut: "upb_msg_mutable st msg f = Inr (p, st')" and p: "p \<noteq> 0"
    and null: "mv_get_ptr (mem_read (st_mem st) (PTR_AT msg (unat (offset (fd_layout f)))) sizeof_ptr) = 0"
    and ismap: "upb_fielddef_ismap f" and wf: "maps_wf st" "arena_wf (st_arena st)"
  shows "st_maps st p = None \<and> upb_map_size st' p = Inr 0 \<and>
         map_option map_key_size (st_maps st' p) = Some (upb_fieldtype_to_mapsize (md_key_type (fd_msgsubdef f))) \<and>
         map_option map_val_size (st_maps st' p) = Some (upb_fieldtype_to_mapsize (md_value_type (fd_msgsubdef f)))"
proof -
  obtain st1 where c: "upb_msg_mutable_new st f = Inr (p, st1)"
    and st': "st' = st1\<lparr>st_mem := mem_write (st_mem st1) (PTR_AT msg (unat (offset (fd_layout f)))) (mv_ptr p)\<rparr>"
    by (rule upb_msg_mutable_created[OF mut null])
  have n: "upb_map_new st (md_key_type (fd_msgsubdef f)) (md_value_type (fd_msgsubdef f)) = (p, st1)"
    using c ismap by (simp add: upb_msg_mutable_new_def Let_def)
  note nf = upb_map_new_facts(2)[OF n wf p]
  then show ?thesis by (simp add: st' upb_map_size_def priv_upb_map_size_def)
qed

theorem upb_msg_mutable_creates_map_witness:
  "\<exists>st'. upb_msg_mutable ex_state 512 ex_map_field = Inr (64, st') \<and> upb_map_size st' 64 = Inr 0 \<and>
     map_option map_val_size (st_maps st' 64) = Some UPB_MAPTYPE_STRING"
proof -
  have w: "maps_wf ex_state" "arena_wf (st_arena ex_state)"
    by (simp_all add: maps_wf_def arena_wf_def ex_state_def)
  have "\<exists>st'. upb_msg_mutable ex_state 512 ex_map_field = Inr (64, st')"
    by (simp add: upb_msg_mutable_def upb_msg_mutable_new_def ex_map_field_def ex_state_def mem_read_def
        mv_get_ptr_def sizeof_ptr_def upb_fielddef_ismap_def upb_fielddef_isseq_def upb_map_new_def
        priv_upb_map_new_def Let_def upb_fielddef_issubmsg_def upb_fielddef_type_def
        upb_malloc_def upb_arena_malloc_def upb_align_malloc_def sizeof_upb_map_def)
  then obtain st' where m: "upb_msg_mutable ex_state 512 ex_map_field = Inr (64, st')" by blast
  have h: "mv_get_ptr (mem_read (st_mem ex_state) (PTR_AT 512 (unat (offset (fd_layout ex_map_field)))) sizeof_ptr) = 0"
    "upb_fielddef_ismap ex_map_field"
    "upb_fieldtype_to_mapsize (md_value_type (fd_msgsubdef ex_map_field)) = UPB_MAPTYPE_STRING"
    by (simp_all add: ex_map_field_def ex_state_def mem_read_def mv_get_ptr_def sizeof_ptr_def
        upb_fielddef_ismap_def upb_fielddef_isseq_def upb_fielddef_issubmsg_def upb_fielddef_type_def
        UPB_MAPTYPE_STRING_def)
  have "upb_map_size st' 64 = Inr 0 \<and>
     map_option map_val_size (st_maps st' 64) = Some (upb_fieldtype_to_mapsize (md_value_type (fd_msgsubdef ex_map_field)))"
    using upb_msg_mutable_creates_map[OF m _ h(1,2) w] by simp
  then show ?thesis using m h(3) by simp
qed

text \<open>
  C33.  On a field that is neither repeated nor a sub-message, \<open>upb_msg_mutable\<close>
  fails \<open>UPB_ASSERT(upb_fielddef_issubmsg(f))\<close> only when the field's first 8 bytes
  are zero; otherwise it returns those bytes as a handle without any check.
\<close>

theorem upb_msg_mutable_scalar:
  assumes "\<not> upb_fielddef_isseq f" "\<not> upb_fielddef_issubmsg f"
  shows "upb_msg_mutable st msg f =
           (let ret = mv_get_ptr (mem_read (st_mem st) (PTR_AT msg (unat (offset (fd_layout f)))) sizeof_ptr) in
            if ret = 0 then Inl UPB_ASSERT_FAILED else Inr (ret, st))"
  using assms by (simp add: upb_msg_mutable_def upb_msg_mutable_new_def upb_fielddef_ismap_def Let_def)

theorem upb_msg_mutable_scalar_witness:
  "\<not> upb_fielddef_isseq (ex_field 1 0 0 UPB_DESCRIPTOR_TYPE_INT32 0) \<and>
   \<not> upb_fielddef_issubmsg (ex_field 1 0 0 UPB_DESCRIPTOR_TYPE_INT32 0) \<and>
   upb_msg_mutable ex_state 512 (ex_field 1 0 0 UPB_DESCRIPTOR_TYPE_INT32 0) = Inl UPB_ASSERT_FAILED"
proof -
  have h: "\<not> upb_fielddef_isseq (ex_field 1 0 0 UPB_DESCRIPTOR_TYPE_INT32 0)"
    "\<not> upb_fielddef_issubmsg (ex_field 1 0 0 UPB_DESCRIPTOR_TYPE_INT32 0)"
    by (simp_all add: ex_field_def upb_fielddef_isseq_def upb_fielddef_issubmsg_def upb_fielddef_type_def)
  show ?thesis using h upb_msg_mutable_scalar[OF h, of ex_state 512]
    by (simp add: ex_field_def ex_state_def mem_read_def mv_get_ptr_def sizeof_ptr_def)
qed

end
