(* ===== verification/System.thy ===== *)
theory System
  imports Mutable
begin

text \<open>
  The three parts of \<^verbatim>\<open>src/upb/reflection.c\<close> acting on one state: every public
  operation that changes the state (\<open>upb_msg_set\<close>, \<open>upb_msg_mutable\<close>,
  \<open>upb_array_append\<close>, \<open>upb_array_set\<close>, \<open>upb_array_resize\<close>, and the map
  operations of \<open>upb_map_step\<close>) as one datatype of operations with one step
  function, the callers' contract for each, a state invariant \<open>upb_state_wf\<close> and
  the reachable states.  The invariant joins the invariants of the parts (arena,
  arrays, maps) with the separation the C code relies on without checking it: array
  headers lie in the allocated arena, the buffers of distinct arrays are disjoint,
  and no byte is owned both by an array and by a map.  The callers' contract for the
  accessor is that a message's bytes are not bytes a container owns.
\<close>

section \<open>Operations\<close>

datatype upb_op =
    MsgSet addr upb_fielddef upb_msgval
  | MsgMutable addr upb_fielddef
  | ArrayAppend addr upb_msgval
  | ArraySet addr nat upb_msgval
  | ArrayResize addr nat
  | MapOp upb_map_op

fun upb_step :: "upb_state \<Rightarrow> upb_op \<Rightarrow> upb_error + upb_state" where
  "upb_step st (MsgSet msg f v) = upb_msg_set st msg f v"
| "upb_step st (MsgMutable msg f) = map_sum id snd (upb_msg_mutable st msg f)"
| "upb_step st (ArrayAppend a v) = map_sum id snd (upb_array_append st a v)"
| "upb_step st (ArraySet a i v) = upb_array_set st a i v"
| "upb_step st (ArrayResize a n) = map_sum id snd (upb_array_resize st a n)"
| "upb_step st (MapOp op) = upb_map_step st op"

text \<open>The array and the map an operation acts on.\<close>

fun upb_op_array :: "upb_op \<Rightarrow> addr option" where
  "upb_op_array (ArrayAppend a v) = Some a"
| "upb_op_array (ArraySet a i v) = Some a"
| "upb_op_array (ArrayResize a n) = Some a"
| "upb_op_array _ = None"

fun upb_op_map :: "upb_op \<Rightarrow> addr option" where
  "upb_op_map (MapOp op) = upb_map_op_handle op"
| "upb_op_map _ = None"

section \<open>Owned bytes, contract and invariant\<close>

definition upb_owned_bytes :: "upb_state \<Rightarrow> addr \<Rightarrow> bool" where
  "upb_owned_bytes st x \<longleftrightarrow> upb_array_bytes st x \<or> upb_map_bytes st x"

text \<open>
  The bytes \<open>upb_msg_set\<close> writes (the field and, for a oneof member, the case word)
  and the pointer \<open>upb_msg_mutable\<close> may write.
\<close>

definition upb_msg_set_footprint :: "addr \<Rightarrow> upb_fielddef \<Rightarrow> addr \<Rightarrow> bool" where
  "upb_msg_set_footprint msg f x \<longleftrightarrow>
     field_addr msg f \<le> x \<and> x < field_addr msg f + upb_msg_field_size f \<or>
     in_oneof (fd_layout f) \<and> case_addr msg f \<le> x \<and> x < case_addr msg f + 4"

definition upb_msg_mutable_footprint :: "addr \<Rightarrow> upb_fielddef \<Rightarrow> addr \<Rightarrow> bool" where
  "upb_msg_mutable_footprint msg f x \<longleftrightarrow> field_addr msg f \<le> x \<and> x < field_addr msg f + sizeof_ptr"

fun upb_op_ok :: "upb_state \<Rightarrow> upb_op \<Rightarrow> bool" where
  "upb_op_ok st (MsgSet msg f v) \<longleftrightarrow> (\<forall>x. upb_msg_set_footprint msg f x \<longrightarrow> \<not> upb_owned_bytes st x)"
| "upb_op_ok st (MsgMutable msg f) \<longleftrightarrow> (\<forall>x. upb_msg_mutable_footprint msg f x \<longrightarrow> \<not> upb_owned_bytes st x)"
| "upb_op_ok st (MapOp op) \<longleftrightarrow> upb_map_op_ok st op"
| "upb_op_ok st (ArrayAppend a v) \<longleftrightarrow> True"
| "upb_op_ok st (ArraySet a i v) \<longleftrightarrow> True"
| "upb_op_ok st (ArrayResize a n) \<longleftrightarrow> True"

definition array_headers_wf :: "upb_state \<Rightarrow> bool" where
  "array_headers_wf st \<longleftrightarrow>
     (\<forall>a. st_arrays st a \<noteq> None \<longrightarrow> 0 < a \<and> a + sizeof_upb_array \<le> ar_top (st_arena st))"

definition upb_state_wf :: "upb_state \<Rightarrow> bool" where
  "upb_state_wf st \<longleftrightarrow>
     arena_wf (st_arena st) \<and> arrays_wf st \<and> maps_wf st \<and> array_headers_wf st \<and> arrays_apart st \<and>
     (\<forall>x. upb_array_bytes st x \<longrightarrow> \<not> upb_map_bytes st x)"

inductive upb_reach :: "upb_state \<Rightarrow> upb_state \<Rightarrow> bool" for st0 where
  upb_reach_refl: "upb_reach st0 st0"
| upb_reach_step: "upb_reach st0 st \<Longrightarrow> upb_op_ok st op \<Longrightarrow> upb_step st op = Inr st' \<Longrightarrow> upb_reach st0 st'"

text \<open>
  A step keeps every container it does not act on: the other arrays keep their header
  and contents, the other maps their header and the partial function they denote.
\<close>

abbreviation upb_step_keeps :: "upb_op \<Rightarrow> upb_state \<Rightarrow> upb_state \<Rightarrow> bool" where
  "upb_step_keeps op st st' \<equiv>
     (\<forall>a arr. st_arrays st a = Some arr \<longrightarrow> upb_op_array op \<noteq> Some a \<longrightarrow>
        st_arrays st' a = Some arr \<and> upb_array_elems st' arr = upb_array_elems st arr) \<and>
     (\<forall>m mp. st_maps st m = Some mp \<longrightarrow> upb_op_map op \<noteq> Some m \<longrightarrow>
        st_maps st' m = Some mp \<and> upb_map_abs (st_mem st') mp = upb_map_abs (st_mem st) mp)"

text \<open>
  Example states for witnesses: after \<open>upb_msg_mutable\<close> has created the array of a
  repeated int32 field at offset 0 of a message at 512, and after appending 1 to it.
\<close>

definition ex_sys_array :: upb_state where
  "ex_sys_array = ex_state\<lparr>st_mem := mem_write (\<lambda>_. 0) 512 (mv_ptr 64),
     st_arrays := [64 \<mapsto> \<lparr>arr_data = upb_tag_arrptr 0 2, arr_len = 0, arr_size = 0\<rparr>],
     st_arena := \<lparr>ar_top = 88, ar_end = 4096\<rparr>\<rparr>"

definition ex_sys_appended :: upb_state where
  "ex_sys_appended = ex_sys_array\<lparr>st_mem := mem_write (st_mem ex_sys_array) 88 [1,0,0,0],
     st_arrays := [64 \<mapsto> \<lparr>arr_data = upb_tag_arrptr 88 2, arr_len = 1, arr_size = 4\<rparr>],
     st_arena := \<lparr>ar_top = 104, ar_end = 4096\<rparr>\<rparr>"

section \<open>Frame lemmas\<close>

lemma upb_state_wf_parts:
  assumes "upb_state_wf st"
  shows "arena_wf (st_arena st)" "arrays_wf st" "maps_wf st" "array_headers_wf st" "arrays_apart st"
    "upb_array_bytes st x \<Longrightarrow> \<not> upb_map_bytes st x"
  using assms by (simp_all add: upb_state_wf_def)

text \<open>A write that avoids the bytes the maps own keeps the invariant and every map.\<close>

lemma upb_state_wf_mem:
  assumes wf: "upb_state_wf st" and m: "\<And>x. upb_map_bytes st x \<Longrightarrow> m' x = st_mem st x"
  shows "upb_state_wf (st\<lparr>st_mem := m'\<rparr>)"
    and "st_maps st k = Some mp \<Longrightarrow> upb_map_abs m' mp = upb_map_abs (st_mem st) mp"
  using maps_wf_mem[OF upb_state_wf_parts(3)[OF wf] m] wf
  by (simp_all add: upb_state_wf_def array_headers_wf_def)

text \<open>
  A step that only allocates and writes fresh memory keeps the invariant when it keeps
  the parts' invariants and adds owned bytes of one kind only, at or above the old top.
\<close>

lemma upb_state_wf_grows:
  assumes wf: "upb_state_wf st" and g: "upb_state_grows st st'"
    and w: "arena_wf (st_arena st')" "arrays_wf st'" "maps_wf st'" "array_headers_wf st'" "arrays_apart st'"
    and ab: "\<And>x. upb_array_bytes st' x \<Longrightarrow> upb_array_bytes st x \<or> ar_top (st_arena st) \<le> x"
    and mb: "\<And>x. upb_map_bytes st' x \<Longrightarrow> upb_map_bytes st x \<or> ar_top (st_arena st) \<le> x"
    and one: "(\<forall>x. upb_array_bytes st' x \<longrightarrow> upb_array_bytes st x) \<or> (\<forall>x. upb_map_bytes st' x \<longrightarrow> upb_map_bytes st x)"
  shows "upb_state_wf st'"
proof -
  note p = upb_state_wf_parts[OF wf]
  have "\<not> upb_map_bytes st' x" if a: "upb_array_bytes st' x" for x
  proof
    assume m: "upb_map_bytes st' x"
    from one show False
    proof
      assume "\<forall>x. upb_array_bytes st' x \<longrightarrow> upb_array_bytes st x"
      then have "upb_array_bytes st x" using a by blast
      then show False using mb[OF m] p(6) upb_array_bytes_below[OF p(2)] by fastforce
    next
      assume "\<forall>x. upb_map_bytes st' x \<longrightarrow> upb_map_bytes st x"
      then have "upb_map_bytes st x" using m by blast
      then show False using ab[OF a] p(6) upb_map_bytes_below[OF p(3)] by fastforce
    qed
  qed
  then show ?thesis using w by (simp add: upb_state_wf_def)
qed

lemma upb_state_grows_keeps:
  assumes wf: "upb_state_wf st" and g: "upb_state_grows st st'"
  shows "st_arrays st a = Some arr \<Longrightarrow> upb_array_elems st' arr = upb_array_elems st arr"
    and "st_maps st m = Some mp \<Longrightarrow> upb_map_abs (st_mem st') mp = upb_map_abs (st_mem st) mp"
proof -
  note p = upb_state_wf_parts[OF wf]
  show "st_arrays st a = Some arr \<Longrightarrow> upb_array_elems st' arr = upb_array_elems st arr"
    using p(2) upb_array_elems_grows[OF _ g] by (simp add: arrays_wf_def)
  show "st_maps st m = Some mp \<Longrightarrow> upb_map_abs (st_mem st') mp = upb_map_abs (st_mem st) mp"
    using p(3) upb_map_abs_grows[OF _ g] by (simp add: maps_wf_def)
qed

lemma upb_array_buf_owned:
  "st_arrays st a = Some arr \<Longrightarrow> upb_array_buf arr x \<Longrightarrow> upb_owned_bytes st x"
  by (auto simp: upb_owned_bytes_def upb_array_bytes_def)

lemma arrays_wf_len: "arrays_wf st \<Longrightarrow> st_arrays st a = Some arr \<Longrightarrow> arr_len arr \<le> arr_size arr"
  by (simp add: arrays_wf_def array_wf_def)

text \<open>A write that avoids every owned byte keeps the invariant and every container.\<close>

lemma upb_mem_keeps:
  assumes wf: "upb_state_wf st" and m: "\<And>x. upb_owned_bytes st x \<Longrightarrow> m' x = st_mem st x"
  shows "upb_state_wf (st\<lparr>st_mem := m'\<rparr>) \<and> upb_step_keeps op st (st\<lparr>st_mem := m'\<rparr>)"
proof -
  have mb: "\<And>x. upb_map_bytes st x \<Longrightarrow> m' x = st_mem st x" using m by (simp add: upb_owned_bytes_def)
  note w = upb_state_wf_mem[OF wf mb]
  have e: "upb_array_elems (st\<lparr>st_mem := m'\<rparr>) arr = upb_array_elems st arr" if a: "st_arrays st a = Some arr" for a arr
  proof (rule upb_array_elems_cong)
    show "arr_len arr \<le> arr_size arr" by (rule arrays_wf_len[OF upb_state_wf_parts(2)[OF wf] a])
    fix x assume "upb_array_buf arr x"
    then show "st_mem (st\<lparr>st_mem := m'\<rparr>) x = st_mem st x" using m upb_array_buf_owned[OF a] by simp
  qed
  show ?thesis
  proof (intro conjI allI impI)
    show "upb_state_wf (st\<lparr>st_mem := m'\<rparr>)" by (rule w(1))
  next
    fix a arr assume "st_arrays st a = Some arr"
    then show "st_arrays (st\<lparr>st_mem := m'\<rparr>) a = Some arr"
      "upb_array_elems (st\<lparr>st_mem := m'\<rparr>) arr = upb_array_elems st arr" using e by simp_all
  next
    fix k mp assume "st_maps st k = Some mp"
    then show "st_maps (st\<lparr>st_mem := m'\<rparr>) k = Some mp"
      "upb_map_abs (st_mem (st\<lparr>st_mem := m'\<rparr>)) mp = upb_map_abs (st_mem st) mp" using w(2) by simp_all
  qed
qed

lemma upb_msg_set_mem:
  assumes s: "upb_msg_set st msg f v = Inr st'"
  obtains m' where "st' = st\<lparr>st_mem := m'\<rparr>" "\<And>x. \<not> upb_msg_set_footprint msg f x \<Longrightarrow> m' x = st_mem st x"
proof (cases "in_oneof (fd_layout f)")
  case True
  then have "st' = st\<lparr>st_mem := mem_write (mem_write (st_mem st) (field_addr msg f) (take (upb_msg_field_size f) v))
                              (case_addr msg f) (le_bytes 4 (number (fd_layout f)))\<rparr>"
    using s by (simp add: upb_msg_set_oneof)
  then show thesis
    by (rule that) (use True in \<open>auto simp: upb_msg_set_footprint_def mem_write_outside\<close>)
next
  case False
  then have "st' = st\<lparr>st_mem := mem_write (st_mem st) (field_addr msg f) (take (upb_msg_field_size f) v)\<rparr>"
    using s by (simp add: upb_msg_set_plain)
  then show thesis
    by (rule that) (auto simp: upb_msg_set_footprint_def mem_write_outside)
qed

lemma upb_step_msg_set:
  assumes wf: "upb_state_wf st" and ok: "upb_op_ok st (MsgSet msg f v)"
    and s: "upb_msg_set st msg f v = Inr st'"
  shows "upb_state_wf st' \<and> upb_step_keeps (MsgSet msg f v) st st'"
proof -
  obtain m' where st': "st' = st\<lparr>st_mem := m'\<rparr>"
    and out: "\<And>x. \<not> upb_msg_set_footprint msg f x \<Longrightarrow> m' x = st_mem st x"
    by (rule upb_msg_set_mem[OF s]) blast
  have "m' x = st_mem st x" if "upb_owned_bytes st x" for x
    using ok that out by auto
  then show ?thesis unfolding st' by (rule upb_mem_keeps[OF wf])
qed

lemma upb_owned_state:
  "st_arrays st' = st_arrays st \<Longrightarrow> upb_array_bytes st' = upb_array_bytes st \<and> arrays_apart st' = arrays_apart st"
  "st_maps st' = st_maps st \<Longrightarrow> upb_map_bytes st' = upb_map_bytes st"
  by (simp_all add: upb_array_bytes_def arrays_apart_def upb_map_bytes_def fun_eq_iff)

lemma array_headers_wf_grows:
  assumes "array_headers_wf st" "ar_top (st_arena st) \<le> ar_top (st_arena st')"
    and "\<And>b. st_arrays st' b \<noteq> None \<Longrightarrow> st_arrays st b \<noteq> None"
  shows "array_headers_wf st'"
  unfolding array_headers_wf_def
proof (intro allI impI)
  fix b assume "st_arrays st' b \<noteq> None"
  then have "0 < b \<and> b + sizeof_upb_array \<le> ar_top (st_arena st)"
    using assms(1,3) unfolding array_headers_wf_def by blast
  then show "0 < b \<and> b + sizeof_upb_array \<le> ar_top (st_arena st')" using assms(2) by linarith
qed

lemma upb_step_keeps_trans:
  "upb_step_keeps op st st1 \<Longrightarrow> upb_step_keeps op st1 st' \<Longrightarrow> upb_step_keeps op st st'"
  by metis

lemma upb_step_array_set:
  assumes wf: "upb_state_wf st" and s: "upb_array_set st a i v = Inr st'"
  shows "upb_state_wf st' \<and> upb_step_keeps (ArraySet a i v) st st'"
proof -
  note p = upb_state_wf_parts[OF wf]
  obtain arr where arr: "st_arrays st a = Some arr" and st': "st' = st\<lparr>st_mem := st_mem st'\<rparr>"
    and out: "\<And>x. \<not> upb_array_buf arr x \<Longrightarrow> st_mem st' x = st_mem st x"
    by (rule upb_array_set_frame[OF s p(2)]) blast
  define m' where "m' = st_mem st'"
  have st'': "st' = st\<lparr>st_mem := m'\<rparr>" unfolding m'_def by (rule st')
  have mb: "m' x = st_mem st x" if "upb_map_bytes st x" for x
    using out p(6) that arr unfolding m'_def upb_array_bytes_def by blast
  note w = upb_state_wf_mem[OF wf mb]
  have e: "upb_array_elems (st\<lparr>st_mem := m'\<rparr>) brr = upb_array_elems st brr"
    if b: "st_arrays st b = Some brr" "b \<noteq> a" for b brr
  proof (rule upb_array_elems_cong)
    show "arr_len brr \<le> arr_size brr" by (rule arrays_wf_len[OF p(2) b(1)])
    fix x assume "upb_array_buf brr x"
    then have "\<not> upb_array_buf arr x" using p(5) b arr unfolding arrays_apart_def by blast
    then show "st_mem (st\<lparr>st_mem := m'\<rparr>) x = st_mem st x" using out by (simp add: m'_def)
  qed
  show ?thesis unfolding st''
  proof (intro conjI allI impI)
    show "upb_state_wf (st\<lparr>st_mem := m'\<rparr>)" by (rule w(1))
  next
    fix b brr assume "st_arrays st b = Some brr" "upb_op_array (ArraySet a i v) \<noteq> Some b"
    then show "st_arrays (st\<lparr>st_mem := m'\<rparr>) b = Some brr"
      "upb_array_elems (st\<lparr>st_mem := m'\<rparr>) brr = upb_array_elems st brr" using e by simp_all
  next
    fix k mp assume "st_maps st k = Some mp"
    then show "st_maps (st\<lparr>st_mem := m'\<rparr>) k = Some mp"
      "upb_map_abs (st_mem (st\<lparr>st_mem := m'\<rparr>)) mp = upb_map_abs (st_mem st) mp" using w(2) by simp_all
  qed
qed

text \<open>The steps that reallocate one array: \<open>upb_array_append\<close> and \<open>upb_array_resize\<close>.\<close>

lemma upb_step_array_grow:
  assumes wf: "upb_state_wf st" and a: "st_arrays st a \<noteq> None" and op: "upb_op_array op = Some a"
    and fr: "arena_wf (st_arena st') \<and> arrays_wf st' \<and> upb_state_grows st st' \<and> st_maps st' = st_maps st \<and>
         (st_arrays st' = st_arrays st \<or>
          (\<exists>arr'. st_arrays st' = (st_arrays st)(a \<mapsto> arr') \<and> ar_top (st_arena st) \<le> upb_array_ptr arr'))"
  shows "upb_state_wf st' \<and> upb_step_keeps op st st'"
proof -
  note p = upb_state_wf_parts[OF wf]
  have g: "upb_state_grows st st'" and M: "st_maps st' = st_maps st" using fr by simp_all
  have top: "ar_top (st_arena st) \<le> ar_top (st_arena st')" using g by (simp add: upb_state_grows_def)
  have dom: "st_arrays st' b \<noteq> None \<longleftrightarrow> st_arrays st b \<noteq> None" for b
    using fr a by (auto split: if_splits)
  have hd: "array_headers_wf st'" using array_headers_wf_grows[OF p(4) top] dom by blast
  have arr: "arrays_apart st' \<and> (\<forall>x. upb_array_bytes st' x \<longrightarrow> upb_array_bytes st x \<or> ar_top (st_arena st) \<le> x) \<and>
      (\<forall>b brr. st_arrays st b = Some brr \<longrightarrow> b \<noteq> a \<longrightarrow> st_arrays st' b = Some brr)"
    using fr p(5) upb_owned_state(1)[of st' st] arrays_update_fresh[OF p(2)] by auto
  have "upb_state_wf st'"
    using upb_state_wf_grows[OF wf g] fr hd arr maps_wf_grows[OF p(3) g M] upb_owned_state(2)[OF M] by auto
  moreover have "upb_step_keeps op st st'"
    using arr op M upb_state_grows_keeps[OF wf g] by auto
  ultimately show ?thesis by blast
qed

lemma upb_step_map:
  assumes wf: "upb_state_wf st" and ok: "upb_map_op_ok st op" and s: "upb_map_step st op = Inr st'"
  shows "upb_state_wf st' \<and> upb_step_keeps (MapOp op) st st'"
proof -
  note p = upb_state_wf_parts[OF wf]
  note fr = upb_map_step_frame[OF s ok p(3,1)]
  have g: "upb_state_grows st st'" and A: "st_arrays st' = st_arrays st" using fr by simp_all
  have top: "ar_top (st_arena st) \<le> ar_top (st_arena st')" using g by (simp add: upb_state_grows_def)
  have hd: "array_headers_wf st'" using array_headers_wf_grows[OF p(4) top] A by simp
  have "upb_state_wf st'"
    using upb_state_wf_grows[OF wf g] fr hd arrays_wf_grows[OF p(2) g A] upb_owned_state(1)[OF A] p(5) by auto
  moreover have "upb_step_keeps (MapOp op) st st'"
    using fr A upb_state_grows_keeps[OF wf g] by auto
  ultimately show ?thesis by blast
qed

lemma upb_msg_mutable_cases:
  assumes "upb_msg_mutable st msg f = Inr (p, st')"
  shows "st' = st \<or> (\<exists>st1. upb_msg_mutable_new st f = Inr (p, st1) \<and>
           st' = st1\<lparr>st_mem := mem_write (st_mem st1) (field_addr msg f) (mv_ptr p)\<rparr>)"
  using assms by (auto simp: upb_msg_mutable_def Let_def split: if_splits sum.splits)

lemma array_headers_below:
  "array_headers_wf st \<Longrightarrow> st_arrays st b \<noteq> None \<Longrightarrow> b < ar_top (st_arena st)"
  by (auto simp: array_headers_wf_def sizeof_upb_array_def)

lemma upb_step_msg_mutable:
  assumes wf: "upb_state_wf st" and ok: "upb_op_ok st (MsgMutable msg f)"
    and s: "upb_msg_mutable st msg f = Inr (p, st')"
  shows "upb_state_wf st' \<and> upb_step_keeps (MsgMutable msg f) st st'"
proof -
  note pt = upb_state_wf_parts[OF wf]
  consider (same) "st' = st"
    | (new) st1 where "upb_msg_mutable_new st f = Inr (p, st1)"
        "st' = st1\<lparr>st_mem := mem_write (st_mem st1) (field_addr msg f) (mv_ptr p)\<rparr>"
    using upb_msg_mutable_cases[OF s] by blast
  then show ?thesis
  proof cases
    case same
    then show ?thesis using wf by simp
  next
    case new
    note c = upb_msg_mutable_new_frame[OF new(1) pt(1,2,3)]
    have g: "upb_state_grows st st1" using c(1) by simp
    have top: "ar_top (st_arena st) \<le> ar_top (st_arena st1)" using g by (simp add: upb_state_grows_def)
    have A: "(\<forall>x. upb_array_bytes st1 x \<longrightarrow> upb_array_bytes st x) \<and> arrays_apart st1 \<and> array_headers_wf st1 \<and>
        (\<forall>b brr. st_arrays st b = Some brr \<longrightarrow> st_arrays st1 b = Some brr)"
      using c(2)
    proof
      assume A1: "st_arrays st1 = st_arrays st"
      then show ?thesis using upb_owned_state(1)[OF A1] pt(5) array_headers_wf_grows[OF pt(4) top] by simp
    next
      assume "\<exists>arr. st_arrays st1 = (st_arrays st)(ar_top (st_arena st) \<mapsto> arr) \<and> arr_size arr = 0 \<and>
                ar_top (st_arena st) + sizeof_upb_array \<le> ar_top (st_arena st1)"
      then obtain arr where A1: "st_arrays st1 = (st_arrays st)(ar_top (st_arena st) \<mapsto> arr)"
        and sz: "arr_size arr = 0" and hd: "ar_top (st_arena st) + sizeof_upb_array \<le> ar_top (st_arena st1)"
        by blast
      have nb: "\<not> upb_array_buf arr x" for x using sz by (simp add: upb_array_buf_def upb_array_slot_def)
      have fresh: "st_arrays st (ar_top (st_arena st)) = None"
        using array_headers_below[OF pt(4)] by blast
      have "array_headers_wf st1"
        unfolding array_headers_wf_def
      proof (intro allI impI)
        fix b assume "st_arrays st1 b \<noteq> None"
        then show "0 < b \<and> b + sizeof_upb_array \<le> ar_top (st_arena st1)"
          using pt(1,4) hd top unfolding A1 array_headers_wf_def arena_wf_def
          by (cases "b = ar_top (st_arena st)") (auto intro: order_trans)
      qed
      moreover have "arrays_apart st1"
        using pt(5) nb unfolding arrays_apart_def A1 by (auto split: if_splits)
      ultimately show ?thesis
        using nb fresh by (auto simp: upb_array_bytes_def A1 split: if_splits)
    qed
    have M: "(\<forall>x. upb_map_bytes st1 x \<longrightarrow> upb_map_bytes st x) \<and>
        (\<forall>k mp. st_maps st k = Some mp \<longrightarrow> st_maps st1 k = Some mp)"
      using c(3) unfolding upb_map_bytes_def by (auto split: if_splits) blast+
    have w1: "upb_state_wf st1" using upb_state_wf_grows[OF wf g] c(1) A M by blast
    have k1: "upb_step_keeps (MsgMutable msg f) st st1" using A M upb_state_grows_keeps[OF wf g] by auto
    have out: "mem_write (st_mem st1) (field_addr msg f) (mv_ptr p) x = st_mem st1 x"
      if "upb_owned_bytes st1 x" for x
    proof -
      have "upb_owned_bytes st x" using that A M by (auto simp: upb_owned_bytes_def)
      then have "\<not> upb_msg_mutable_footprint msg f x" using ok by auto
      then show ?thesis by (auto simp: upb_msg_mutable_footprint_def mem_write_outside sizeof_ptr_def)
    qed
    have "upb_state_wf st' \<and> upb_step_keeps (MsgMutable msg f) st1 st'"
      unfolding new(2) by (rule upb_mem_keeps[OF w1 out])
    then show ?thesis using upb_step_keeps_trans[OF k1] by blast
  qed
qed

lemma upb_step_frame:
  assumes wf: "upb_state_wf st" and ok: "upb_op_ok st op" and s: "upb_step st op = Inr st'"
  shows "upb_state_wf st' \<and> upb_step_keeps op st st'"
proof -
  note pt = upb_state_wf_parts[OF wf]
  show ?thesis
  proof (cases op)
    case (MsgSet msg f v)
    then show ?thesis using upb_step_msg_set[OF wf] ok s by simp
  next
    case (MsgMutable msg f)
    then obtain p where "upb_msg_mutable st msg f = Inr (p, st')" using s map_sum_snd_Inr by fastforce
    then show ?thesis using upb_step_msg_mutable[OF wf] ok MsgMutable by simp
  next
    case (ArrayAppend a v)
    then obtain b where ap: "upb_array_append st a v = Inr (b, st')" using s map_sum_snd_Inr by fastforce
    have "st_arrays st a \<noteq> None" using ap by (auto simp: upb_array_append_def split: option.splits)
    then show ?thesis using upb_step_array_grow[where op = op, OF wf _ _ upb_array_append_frame[OF pt(1,2) ap]] ArrayAppend by simp
  next
    case (ArraySet a i v)
    then show ?thesis using upb_step_array_set[OF wf] s by simp
  next
    case (ArrayResize a n)
    then obtain b where re: "upb_array_realloc st a n = Inr (b, st')"
      using s map_sum_snd_Inr by (fastforce simp: upb_array_resize_def)
    have "st_arrays st a \<noteq> None" using re by (auto simp: upb_array_realloc_def split: option.splits)
    then show ?thesis using upb_step_array_grow[where op = op, OF wf _ _ upb_array_realloc_frame[OF re pt(1,2)]] ArrayResize by simp
  next
    case (MapOp mop)
    then show ?thesis using upb_step_map[OF wf] ok s by simp
  qed
qed

lemmas array_scenario_defs = upb_array_append_def upb_array_realloc_def upb_arena_realloc_def upb_array_set_def
  upb_array_get_def upb_array_size_def Let_def upb_malloc_def upb_arena_malloc_def upb_align_malloc_def
  upb_array_lg2_def upb_array_ptr_def upb_tag_arrptr_def

lemma mv_int32_small: "mv_int32 1 = [1,0,0,0]" "mv_int32 2 = [2,0,0,0]" "mv_int32 3 = [3,0,0,0]"
  "mv_int32 99 = [99,0,0,0]"
  by (simp_all add: mv_int32_def le_bytes_def upt_rec drop_bit_eq_div)

lemma int32_header_tag: "upb_array_lg2 \<lparr>arr_data = upb_tag_arrptr p 2, arr_len = n, arr_size = k\<rparr> = 2"
  "upb_array_ptr \<lparr>arr_data = upb_tag_arrptr p 2, arr_len = n, arr_size = k\<rparr> = p"
  if "p mod 8 = 0" "p < 2 ^ 64" for p n k
  using that by (simp_all add: upb_array_lg2_tag upb_array_ptr_tag)

text \<open>
  The example run: \<open>upb_msg_mutable\<close> creates the array of the repeated int32 field
  at offset 0 of a message at 512 (header at 64), and one append stores 1 in a fresh
  four-slot buffer at 88.
\<close>

lemma ex_sys_steps:
  "upb_msg_mutable ex_state 512 ex_rep_field = Inr (64, ex_sys_array)"
  "upb_array_append ex_sys_array 64 (mv_int32 1) = Inr (True, ex_sys_appended)"
  "upb_state_wf ex_state"
  "upb_op_ok ex_state (MsgMutable 512 ex_rep_field)"
  by (simp_all add: upb_msg_mutable_def upb_msg_mutable_new_def ex_rep_field_def ex_state_def mem_read_def
        mv_get_ptr_def sizeof_ptr_def upb_fielddef_ismap_def upb_fielddef_isseq_def upb_array_new_def
        upb_fielddef_issubmsg_def upb_fielddef_type_def ex_msgdef_def sizeof_upb_array_def
        ex_sys_array_def ex_sys_appended_def array_scenario_defs int32_header_tag upb_array_grow.simps
        mv_int32_small upb_state_wf_def arena_wf_def arrays_wf_def maps_wf_def array_headers_wf_def
        arrays_apart_def upb_array_bytes_def upb_owned_bytes_def upb_map_bytes_def)

lemma ex_sys_reach: "upb_reach ex_state ex_sys_appended"
proof -
  have "upb_reach ex_state ex_sys_array"
    using upb_reach_step[OF upb_reach_refl ex_sys_steps(4)] ex_sys_steps(1) by simp
  then show ?thesis
    using upb_reach_step[of ex_state ex_sys_array "ArrayAppend 64 (mv_int32 1)"] ex_sys_steps(2) by simp
qed

section \<open>Properties of the composed system\<close>

text \<open>
  C29.  The state invariant holds in every state reachable from a well-formed state by
  operations of the three parts that respect the callers' contract: the arena,
  every array and every map stay well formed, array headers stay in the allocated
  arena, the buffers of distinct arrays stay disjoint, and no byte is owned by an
  array and a map at once.  In particular no sequence of accessor, array and map
  operations makes a map's key copies or string boxes overlap an array buffer.
\<close>

theorem upb_reach_wf:
  assumes "upb_reach st0 st" "upb_state_wf st0"
  shows "upb_state_wf st"
  using assms
proof (induction rule: upb_reach.induct)
  case (upb_reach_step st op st')
  then show ?case using upb_step_frame[of st op st'] by blast
qed

theorem upb_reach_wf_witness:
  "upb_reach ex_state ex_sys_appended \<and> upb_state_wf ex_state \<and> upb_state_wf ex_sys_appended"
  using ex_sys_reach ex_sys_steps(3) upb_reach_wf[OF ex_sys_reach ex_sys_steps(3)] by blast

text \<open>
  C28.  Every operation changes at most the container it acts on: in a well-formed
  state, a step that respects the callers' contract leaves every other array with its
  header and contents and every other map with its header and the partial function it
  denotes.  Accessor operations change no container at all, array operations no map,
  and map operations no array.
\<close>

theorem upb_step_isolation:
  assumes "upb_state_wf st" "upb_op_ok st op" "upb_step st op = Inr st'"
  shows "(\<forall>a arr. st_arrays st a = Some arr \<longrightarrow> upb_op_array op \<noteq> Some a \<longrightarrow>
            st_arrays st' a = Some arr \<and> upb_array_elems st' arr = upb_array_elems st arr) \<and>
         (\<forall>m mp. st_maps st m = Some mp \<longrightarrow> upb_op_map op \<noteq> Some m \<longrightarrow>
            st_maps st' m = Some mp \<and> upb_map_abs (st_mem st') mp = upb_map_abs (st_mem st) mp)"
  using upb_step_frame[OF assms] by blast

theorem upb_step_isolation_witness:
  "\<exists>st'. upb_state_wf ex_sys_appended \<and> upb_op_ok ex_sys_appended (MapOp (MapNew UPB_TYPE_INT32 UPB_TYPE_INT32)) \<and>
     upb_step ex_sys_appended (MapOp (MapNew UPB_TYPE_INT32 UPB_TYPE_INT32)) = Inr st' \<and>
     st_arrays st' 64 = st_arrays ex_sys_appended 64 \<and>
     upb_array_contents st' 64 = upb_array_contents ex_sys_appended 64"
proof -
  have wf: "upb_state_wf ex_sys_appended"
  proof -
    have "upb_state_wf ex_sys_array"
      using upb_step_frame[OF ex_sys_steps(3,4)] ex_sys_steps(1) by simp
    then show ?thesis
      using upb_step_frame[of ex_sys_array "ArrayAppend 64 (mv_int32 1)"] ex_sys_steps(2) by simp
  qed
  obtain st' where s: "upb_step ex_sys_appended (MapOp (MapNew UPB_TYPE_INT32 UPB_TYPE_INT32)) = Inr st'"
    by simp
  have ok: "upb_op_ok ex_sys_appended (MapOp (MapNew UPB_TYPE_INT32 UPB_TYPE_INT32))" by simp
  have a: "st_arrays ex_sys_appended 64 = Some \<lparr>arr_data = upb_tag_arrptr 88 2, arr_len = 1, arr_size = 4\<rparr>"
    by (simp add: ex_sys_appended_def)
  show ?thesis
    using upb_step_isolation[OF wf ok s] wf ok s a by (auto simp: upb_array_contents_def)
qed

end
