(* ===== verification/Array_Growth.thy ===== *)
theory Array_Growth
  imports Array "HOL-Library.Log_Nat"
begin

text \<open>
  The capacity growth of \<open>_upb_array_realloc\<close>: the loop
  \<open>while (new_size < min_size) new_size *= 2;\<close> (\<open>upb_array_grow\<close> in \<open>Array\<close>)
  compared with a closed form.  From \<open>n > 0\<close> the loop stops at \<open>n\<close> times the
  least power of two that reaches \<open>min_size\<close>, \<open>2\<close> to the ceiling of the binary
  logarithm (\<open>ceillog2\<close> of \<open>HOL-Library.Log_Nat\<close>) of \<open>\<lceil>min_size / n\<rceil>\<close>; from
  \<open>0\<close> it returns only for \<open>min_size = 0\<close>, which fixpoint induction on the
  \<^theory_text>\<open>partial_function\<close> shows.
\<close>

definition upb_array_grow_closed :: "nat \<Rightarrow> nat \<Rightarrow> nat" where
  "upb_array_grow_closed n m = n * 2 ^ ceillog2 ((m + n - 1) div n)"

section \<open>Lemmas\<close>

lemma ceil_div_le_iff: "0 < (n::nat) \<Longrightarrow> (m + n - 1) div n \<le> (k::nat) \<longleftrightarrow> m \<le> n * k"
proof -
  assume n: "0 < n"
  have "(m + n - 1) div n \<le> k \<longleftrightarrow> (m + n - 1) div n < Suc k" by (rule less_Suc_eq_le[symmetric])
  also have "\<dots> \<longleftrightarrow> m + n - 1 < Suc k * n" using n by (simp add: div_less_iff_less_mult)
  also have "\<dots> \<longleftrightarrow> m \<le> n * k" using n by (auto simp: algebra_simps)
  finally show ?thesis .
qed

lemma upb_array_grow_pow:
  "0 < n \<Longrightarrow> \<exists>j. upb_array_grow n m = Some (n * 2 ^ j) \<and> m \<le> n * 2 ^ j \<and> (j = 0 \<or> n * 2 ^ (j - 1) < m)"
proof (induction "m - n" arbitrary: n rule: less_induct)
  case less
  show ?case
  proof (cases "n < m")
    case True
    then have "m - n * 2 < m - n" using less.prems by simp
    with less.hyps[of "n * 2"] less.prems obtain j where
      j: "upb_array_grow (n * 2) m = Some (n * 2 * 2 ^ j)" "m \<le> n * 2 * 2 ^ j" "j = 0 \<or> n * 2 * 2 ^ (j - 1) < m"
      by auto
    have "n * 2 ^ (Suc j - 1) < m" using j(3) True by (cases j) (auto simp: algebra_simps)
    with j True show ?thesis
      by (intro exI[of _ "Suc j"]) (subst upb_array_grow.simps, simp add: algebra_simps)
  next
    case False
    then show ?thesis by (intro exI[of _ 0]) (subst upb_array_grow.simps, simp)
  qed
qed

lemma upb_array_grow_zero:
  "upb_array_grow n m = Some r \<Longrightarrow> n = 0 \<Longrightarrow> m = 0"
proof (induction arbitrary: n m r rule: upb_array_grow.fixp_induct)
  case 1
  have eq: "(\<lambda>g. \<forall>x xa xb. curry g x xa = Some xb \<longrightarrow> x = 0 \<longrightarrow> xa = 0) =
        (\<lambda>g. \<forall>p y. g p = Some y \<longrightarrow> fst p = 0 \<longrightarrow> snd p = 0)"
    by (auto simp: fun_eq_iff)
  show ?case by (subst eq) (rule option_admissible)
qed (auto split: if_splits)

section \<open>The loop and its closed form\<close>

text \<open>
  The doubling loop is equivalent to its closed form: from a positive size it
  returns \<open>n * 2 ^ ceillog2 \<lceil>m / n\<rceil>\<close>; from size 0 it returns only when the
  requested size is 0 and otherwise never terminates, which is why
  \<open>_upb_array_realloc\<close> starts from \<open>UPB_MAX(arr->size, 4)\<close>.
\<close>

lemma upb_array_grow_equiv:
  "upb_array_grow n m = (if n = 0 \<and> 0 < m then None else Some (upb_array_grow_closed n m))"
proof (cases "n = 0")
  case True
  then show ?thesis
  proof (cases "m = 0")
    case True
    then show ?thesis using \<open>n = 0\<close> by (simp add: upb_array_grow_closed_def upb_array_grow.simps[of 0 0])
  next
    case False
    then show ?thesis using \<open>n = 0\<close> upb_array_grow_zero[of 0 m] by (cases "upb_array_grow 0 m") auto
  qed
next
  case False
  then obtain j where j: "upb_array_grow n m = Some (n * 2 ^ j)" "m \<le> n * 2 ^ j" "j = 0 \<or> n * 2 ^ (j - 1) < m"
    using upb_array_grow_pow by blast
  define c where "c = (m + n - 1) div n"
  have "ceillog2 c = j"
  proof (cases "c = 0")
    case True
    then have "m = 0" using ceil_div_le_iff[of n m 0] False by (simp add: c_def)
    then show ?thesis using j(3) True by auto
  next
    case c0: False
    show ?thesis
    proof (rule ceillog2_eqI)
      show "c \<le> 2 ^ j" using ceil_div_le_iff[of n m "2 ^ j"] False j(2) by (simp add: c_def)
      show "2 ^ j < 2 * c"
      proof (cases j)
        case (Suc i)
        then have "\<not> c \<le> 2 ^ i" using ceil_div_le_iff[of n m "2 ^ i"] False j(3) by (simp add: c_def)
        then show ?thesis using Suc by simp
      qed (use c0 in simp)
    qed
  qed
  then show ?thesis using j(1) False by (simp add: upb_array_grow_closed_def c_def)
qed

section \<open>Capacity after \<open>upb_array_resize\<close>\<close>

text \<open>
  C38.  The capacity \<open>upb_array_resize(arr, m, arena)\<close> leaves, computed by the
  doubling loop of \<open>_upb_array_realloc\<close>, is the closed form: \<open>s * 2 ^ ceillog2 \<lceil>m / s\<rceil>\<close>
  with \<open>s = max(arr->size, 4)\<close>, the least power-of-two multiple of \<open>s\<close> that holds
  \<open>m\<close> elements (so \<open>s\<close> itself when \<open>m \<le> s\<close>).
\<close>

theorem upb_array_resize_capacity:
  assumes arr: "st_arrays st a = Some arr" and rs: "upb_array_resize st a m = Inr (True, st')"
  shows "map_option arr_size (st_arrays st' a) = Some (upb_array_grow_closed (max (arr_size arr) 4) m)"
proof -
  from rs have r: "upb_array_realloc st a m = Inr (True, st')" by (simp add: upb_array_resize_def)
  obtain new_size p st1 where g: "upb_array_grow (max (arr_size arr) 4) m = Some new_size"
    and st': "st' = st1\<lparr>st_arrays := (st_arrays st1)(a \<mapsto>
       arr\<lparr>arr_data := upb_tag_arrptr p (upb_array_lg2 arr), arr_size := new_size\<rparr>)\<rparr>"
    by (rule upb_array_realloc_True[OF r arr])
  from g have "new_size = upb_array_grow_closed (max (arr_size arr) 4) m"
    by (simp add: upb_array_grow_equiv)
  with st' show ?thesis by simp
qed

theorem upb_array_resize_capacity_witness:
  "st_arrays ex_array_state 64 = Some ex_array \<and>
   (\<exists>st'. upb_array_resize ex_array_state 64 10 = Inr (True, st') \<and>
      map_option arr_size (st_arrays st' 64) = Some 16)"
proof -
  have h: "st_arrays ex_array_state 64 = Some ex_array" by (simp add: ex_array_facts)
  obtain st' where rs: "upb_array_resize ex_array_state 64 10 = Inr (True, st')"
    using ex_array_runs(3) by blast
  have "upb_array_grow_closed 4 10 = 16"
    using ex_array_grow(2) upb_array_grow_equiv[of 4 10] by simp
  then show ?thesis using h rs upb_array_resize_capacity[OF h rs] by (auto simp: ex_array_facts)
qed

end
