(* ===== verification/Spec2Isabelle.thy ===== *)
theory Spec2Isabelle
  imports System Array_Growth
begin

text \<open>
  \<^bold>\<open>A verification library for upb's reflection layer\<close> (\<^verbatim>\<open>src/upb/reflection.c\<close>).

  \<^bold>\<open>The program.\<close>  \<^verbatim>\<open>reflection.c\<close> lets a caller read and write the fields of a
  message whose layout is only known at run time.  It has three parts that share the
  width tables at the top of the file (lines 10--46):
  \<^item> the record accessor (\<open>upb_msg_new\<close>, \<open>upb_msg_has\<close>, \<open>upb_msg_get\<close>,
    \<open>upb_msg_mutable\<close>, \<open>upb_msg_set\<close>, lines 48--158), driven by a field's layout
    entry (offset, presence word, field number, descriptor type, label);
  \<^item> the array container (\<open>upb_array_*\<close>, lines 162--197), a growable sequence
    whose element width is fixed at creation and kept in the low 3 bits of its data
    pointer;
  \<^item> the map container (\<open>upb_map_*\<close>, \<open>upb_mapiter_*\<close>, lines 199--243), a thin
    layer over the string-keyed hash table \<open>upb_strtable\<close>.
  The accessor creates arrays, maps and sub-messages lazily in \<open>upb_msg_mutable\<close>; all
  three allocate from one arena.

  \<^bold>\<open>The model.\<close>  A shallow embedding over one state \<open>upb_state\<close> (memory, the
  array and map headers by address, the arena), one theory per part:
  \<^item> \<open>Prelude\<close>: bytes, the flat memory \<open>addr \<Rightarrow> byte\<close> with \<open>mem_read\<close> and
    \<open>mem_write\<close> (C's \<open>memcpy\<close>), little-endian \<open>le_bytes\<close> and \<open>le_word\<close> with their
    round trip, the read-after-write lemmas (collection \<open>mem_simps\<close>).
  \<^item> \<open>Layout\<close>: the enumerations as datatypes; \<open>field_size\<close> and
    \<open>upb_fieldtype_to_mapsize\<close> (lines 10--46) as \<^theory_text>\<open>primrec\<close>s; the layout entry,
    \<open>upb_msgdef\<close> and \<open>upb_fielddef\<close> as records with the \<open>upb_fielddef_*\<close>
    projections; the union \<open>upb_msgval\<close> as the list of its written bytes.
  \<^item> \<open>Store\<close>: the error type \<open>upb_error\<close> (a failed \<open>UPB_ASSERT\<close>, a dangling
    handle, a loop that does not return), the arena as an 8-aligned bump allocator
    with a limit, the headers \<open>upb_array\<close> and \<open>upb_map\<close>, \<open>upb_state\<close>, and
    \<open>upb_state_grows\<close>, the frame relation of allocation.
  \<^item> \<open>Msg\<close>: \<open>PTR_AT\<close>, \<open>in_oneof\<close>, \<open>oneofcase\<close>, \<open>upb_msg_has\<close>,
    \<open>upb_msg_get\<close> with its default switch \<open>upb_msg_get_default\<close>, and
    \<open>upb_msg_set\<close>, each a function of the state into \<open>upb_error + _\<close>; claims
    C1--C11 and C39.
  \<^item> \<open>Array\<close>: the tagged pointer (\<open>upb_tag_arrptr\<close>, \<open>upb_array_ptr\<close>,
    \<open>upb_array_lg2\<close>), \<open>upb_array_new\<close>, the growth loop \<open>upb_array_grow\<close>,
    \<open>upb_array_realloc\<close>, and \<open>upb_array_size/get/set/append/resize\<close> (lines
    164--197); the contents \<open>upb_array_contents\<close> (the bytes of each slot) and the
    invariant \<open>arrays_wf\<close>; the bytes an array owns (\<open>upb_array_bytes\<close>) and the
    frame lemmas of reallocation, append and set; claims C12--C20.  \<open>Array_Growth\<close> compares the loop
    with a closed form (C38).
  \<^item> \<open>Map_Container\<close>: the hash table as its entry list in iteration order (insert,
    lookup, remove, key copy into the arena), the key and value conversions, the
    \<open>upb_map_*\<close> operations (lines 201--222) and the iterator (lines 224--243);
    the abstraction \<open>upb_map_abs\<close> (\<open>map_of\<close> the entries) and invariant
    \<open>maps_wf\<close>; the bytes the maps own (key copies, string boxes); the operations as
    a \<^theory_text>\<open>datatype\<close> with a step function and its frame lemma; claims C21--C27 and
    C34--C37.
  \<^item> \<open>Mutable\<close>: \<open>upb_msg_new\<close> and \<open>upb_msg_mutable\<close> (lines 55--57 and
    125--146), which compose the other three; claims C30--C33.
  \<^item> \<open>System\<close>: the parts composed.  The state-changing operations of all three
    (\<open>upb_msg_set\<close>, \<open>upb_msg_mutable\<close>, \<open>upb_array_append/set/resize\<close>, the map
    steps) form one \<^theory_text>\<open>datatype\<close> \<open>upb_op\<close> with a step function \<open>upb_step\<close>, a
    callers' contract \<open>upb_op_ok\<close> and reachability \<open>upb_reach\<close>; the invariant
    \<open>upb_state_wf\<close> joins the parts' invariants with the separation the code relies
    on: array headers in the allocated arena, buffers of distinct arrays disjoint, no
    byte owned by an array and a map at once; claims C28 and C29.
  \<^item> this theory: the scenario of spec section 8 across accessor and array (C40).

  \<^bold>\<open>What the lemmas show.\<close>  Per operation, its value on every branch, errors
  included (\<open>*_Inr\<close>, \<open>*_facts\<close> lemmas), then: refinement of the array operations
  to list operations on the contents (C12--C14) and of the map operations to a
  finite map (C21--C23, C35--C36), and the size of a map as the number of keys
  it denotes after \<open>upb_map_set\<close> (C24) and \<open>upb_map_delete\<close> (C37); termination of
  the iteration loop of spec section 8, which reads every key exactly once (C34);
  preservation of the invariants (C19 for arrays,
  C29 for the whole state, by rule induction on \<open>upb_reach\<close> over one frame lemma per
  kind of step); totality where the code can assert or loop (C10, C11, C15, C25);
  round trips (C4, C5, C20, C21); frame properties (C9, C22, C26), and isolation of
  the containers from one another (C28: each step changes at most the container it
  acts on); idempotence of lazy creation (C30); the width of every value
  \<open>upb_msg_get\<close> returns (C39).

  \<^bold>\<open>Findings.\<close>  Modelling the code exactly as written shows: \<open>upb_msg_has\<close>
  combines the hasbit with its mask by \<open>|\<close> and so answers \<open>true\<close> for every
  hasbit field (C1, line 76), and \<open>upb_msg_get\<close> therefore never returns such a
  field's default (C6); the bool default is stored in \<open>double_val\<close> (C8, line 111);
  \<open>upb_array_resize\<close> never changes the length (C17, line 196); a failed
  \<open>upb_map_set\<close> of a present key loses its entry unless the failure was the
  allocation of a string value's box (C27, line 217); \<open>upb_msg_mutable\<close>
  on a scalar field fails its assertion only when the field's 8 bytes are zero, and
  otherwise returns them as a handle (C33).  \<open>upb_msg_set\<close> and the store of
  \<open>upb_msg_mutable\<close> write at \<open>msg + offset\<close> with no check that the bytes belong to
  a message, so the maps and arrays stay well formed only under the callers'
  contract that a message does not overlap a container's bytes (C29).

  \<^bold>\<open>Bounds and fuel.\<close>  Addresses and \<open>size_t\<close> counts are \<open>nat\<close>; pointers stored
  in memory go through \<open>64 word\<close>, so the claims that read one back assume the arena
  ends below \<open>2^64\<close> (C30).  The map iterator's cursor is a \<open>64 word\<close>
  (\<open>UPB_MAP_BEGIN = -1\<close>, end \<open>= -2\<close>); C34--C36 assume fewer than \<open>2^64 - 1\<close>
  entries, the only tables whose indices the cursor can hold.  The iteration loop
  \<open>upb_mapiter_keys\<close> takes a number of rounds; C34 shows that the size plus one is
  enough, so the bound never cuts a run short.  The growth loop
  \<open>while (new_size < min_size) new_size *= 2\<close> is a \<^theory_text>\<open>partial_function (option)\<close>,
  \<open>None\<close> being non-termination; no fuel is used: C15 proves that the loop returns from
  every start the code uses (\<open>max(size, 4) > 0\<close>) and C38 gives its value, and
  that it runs forever from 0.  The sizes in \<open>_upb_array_realloc\<close> are \<open>nat\<close>: the
  \<open>size_t\<close> wrap of \<open>new_size *= 2\<close> and \<open>new_size << lg2\<close> for requests of
  \<open>2^61\<close> elements or more is not modelled; such a request fails for lack of arena
  instead.

  \<^bold>\<open>Not modelled.\<close>  The arena's blocks and \<open>upb_arena_realloc\<close>'s in-place growth
  (a fresh block with a copy is one of its allowed outcomes), the hash table's
  buckets, hashing and rehash (its entry list in iteration order is what the map
  layer observes), schema compilation and \<^verbatim>\<open>def.c\<close> beyond the projections used, the
  wire format, and the \<open>upb_msg_internal\<close> header, taken as 24 bytes before the
  message.  Operations whose code is outside \<^verbatim>\<open>src/\<close> are modelled from the spec and
  marked so in the manifest.
\<close>

section \<open>Spec section 8: the array scenario\<close>

text \<open>
  C40.  Spec section 8, across the accessor and the array container: the first
  \<open>upb_msg_mutable\<close> on a repeated int32 field of a fresh message creates its array;
  appending 1, 2 and 3 and then setting element 1 to 99 leaves three elements
  1, 99, 3, and \<open>upb_array_get\<close> at 1 returns 99.  Each append reallocates the buffer
  and copies the elements already there.
\<close>

theorem upb_array_scenario:
  "\<exists>st1 st2 st3 st4 st5.
     upb_msg_mutable ex_state 512 ex_rep_field = Inr (64, st1) \<and>
     upb_array_append st1 64 (mv_int32 1) = Inr (True, st2) \<and>
     upb_array_append st2 64 (mv_int32 2) = Inr (True, st3) \<and>
     upb_array_append st3 64 (mv_int32 3) = Inr (True, st4) \<and>
     upb_array_set st4 64 1 (mv_int32 99) = Inr st5 \<and>
     upb_array_size st5 64 = Inr 3 \<and>
     upb_array_contents st5 64 = Some [mv_int32 1, mv_int32 99, mv_int32 3] \<and>
     upb_array_get st5 64 1 = Inr (mv_int32 99)"
proof -
  define hdr :: "nat \<Rightarrow> nat \<Rightarrow> nat \<Rightarrow> upb_array" where
    "hdr p n k = \<lparr>arr_data = upb_tag_arrptr p 2, arr_len = n, arr_size = k\<rparr>" for p n k
  define st2 where "st2 = ex_sys_appended"
  note m1 = ex_sys_steps(1) and a1 = ex_sys_steps(2)[folded st2_def]
  define st3 where "st3 = st2\<lparr>st_mem := mem_write (mem_write (st_mem st2) 104 (mem_read (st_mem st2) 88 16)) 108 [2,0,0,0],
     st_arrays := [64 \<mapsto> hdr 104 2 4], st_arena := \<lparr>ar_top = 120, ar_end = 4096\<rparr>\<rparr>"
  define st4 where "st4 = st3\<lparr>st_mem := mem_write (mem_write (st_mem st3) 120 (mem_read (st_mem st3) 104 16)) 128 [3,0,0,0],
     st_arrays := [64 \<mapsto> hdr 120 3 4], st_arena := \<lparr>ar_top = 136, ar_end = 4096\<rparr>\<rparr>"
  define st5 where "st5 = st4\<lparr>st_mem := mem_write (st_mem st4) 124 [99,0,0,0]\<rparr>"
  have a2: "upb_array_append st2 64 (mv_int32 2) = Inr (True, st3)"
    by (simp add: st2_def ex_sys_appended_def st3_def hdr_def array_scenario_defs int32_header_tag upb_array_grow.simps mv_int32_small numeral_2_eq_2[symmetric] numeral_3_eq_3[symmetric])
  have a3: "upb_array_append st3 64 (mv_int32 3) = Inr (True, st4)"
    by (simp add: st3_def st4_def hdr_def array_scenario_defs int32_header_tag upb_array_grow.simps mv_int32_small numeral_2_eq_2[symmetric] numeral_3_eq_3[symmetric])
  have s: "upb_array_set st4 64 1 (mv_int32 99) = Inr st5"
    by (simp add: st4_def st5_def hdr_def array_scenario_defs int32_header_tag mv_int32_small)
  have c: "upb_array_contents st5 64 = Some [[1,0,0,0], [99,0,0,0], [3,0,0,0]]"
    by (simp add: ex_sys_array_def ex_sys_appended_def st2_def st3_def st4_def st5_def hdr_def upb_array_contents_def upb_array_elems_def
        upb_array_slot_def upb_array_elem_size_def int32_header_tag mem_read_def upt_rec push_bit_eq_mult
        numeral_2_eq_2[symmetric])
  have arr5: "st_arrays st5 64 = Some (hdr 120 3 4)" by (simp add: st5_def st4_def)
  have "upb_array_get st5 64 1 = Inr (upb_array_elems st5 (hdr 120 3 4) ! 1)"
    using arr5 by (simp add: upb_array_get_def upb_array_elems_def upb_array_slot_def
        upb_array_elem_size_def Let_def hdr_def)
  then have g: "upb_array_get st5 64 1 = Inr [99,0,0,0]" "upb_array_size st5 64 = Inr 3"
    using c arr5 by (simp_all add: upb_array_contents_def upb_array_size_def hdr_def)
  show ?thesis using m1 a1 a2 a3 s c g by (auto simp: mv_int32_small)
qed

end
